(* ===== verification/Go_Base.thy ===== *)
theory Go_Base
  imports Main "HOL-Library.Word" "HOL-Library.Finite_Map" "HOL-Library.Multiset"
    "HOL-Library.Monad_Syntax" "HOL-Library.Signed_Division"
    "HOL-Library.List_Lexorder" "HOL-Library.Char_ord"
begin

text \<open>
  The prelude of the development: the Go types the components share and the laws the
  component proofs rest on.

  \<^item> Integers keep their width: Go's \<open>int\<close> and \<open>int64\<close> are \<open>i64\<close> (the 64-bit platforms the
    module is built for), \<open>uint64\<close> is \<open>u64\<close>; \<open>+\<close> wraps as in Go. Signed comparison is \<open><s\<close>.
  \<^item> \<open>float64\<close> is a type variable \<open>'f\<close> of the syntactic classes \<open>zero\<close>, \<open>plus\<close>, \<open>ord\<close>, \<open>inf\<close>
    and \<open>sup\<close>: \<open>+\<close> and \<open><\<close> are Go's operators, \<open>inf\<close> and \<open>sup\<close> its builtins \<open>min\<close> and
    \<open>max\<close>. These classes have no axioms, so a definition over \<open>'f\<close> says nothing that IEEE
    arithmetic breaks. A theorem that needs arithmetic laws says so in its sort (for example
    \<open>{lattice, comm_monoid_add}\<close>): it holds for exact numbers.
  \<^item> \<open>time.Time\<close> is the number of nanoseconds since the zero time; the location and the
    monotonic reading are left out. \<open>time.Duration\<close> is an \<open>i64\<close>.
  \<^item> A pointer that may be nil is an \<open>option\<close>; a Go map is a \<open>gomap\<close>, whose \<open>None\<close> is the nil
    map: reading it finds nothing, writing to it panics. A slice is a list (nil and empty
    slices are the same list). A panic is \<open>None\<close> of the result type.
\<close>

named_theorems go_simps \<open>evaluation of the shared Go operations\<close>
named_theorems merge_defs \<open>the definitions of the merge operations\<close>
named_theorems wf_intros \<open>preservation of the well-formedness invariants\<close>
named_theorems no_panic \<open>operations that return for every argument\<close>

type_synonym i64 = "64 word"
type_synonym u64 = "64 word"
type_synonym u32 = "32 word"
type_synonym i8 = "8 word"
type_synonym byte = "8 word"

subsection \<open>time.Time and time.Duration\<close>

type_synonym gotime = int
type_synonym duration = i64

abbreviation (input) Before :: "gotime \<Rightarrow> gotime \<Rightarrow> bool" where
  "Before t u \<equiv> t < u"

abbreviation (input) After :: "gotime \<Rightarrow> gotime \<Rightarrow> bool" where
  "After t u \<equiv> u < t"

text \<open>The latest of two timestamps, as every merge computes it.\<close>

definition latest :: "gotime \<Rightarrow> gotime \<Rightarrow> gotime" where
  "latest t u = (if Before t u then u else t)"

lemma latest_max [go_simps]: "latest t u = max t u"
  by (simp add: latest_def max_def)

text \<open>\<open>t.Sub(u)\<close> saturates at the bounds of \<open>time.Duration\<close>; \<open>d1 / d2\<close> truncates.\<close>

definition Time_Sub :: "gotime \<Rightarrow> gotime \<Rightarrow> duration" where
  "Time_Sub t u = word_of_int (max (- (2 ^ 63)) (min (2 ^ 63 - 1) (t - u)))"

definition Time_Add :: "gotime \<Rightarrow> duration \<Rightarrow> gotime" where
  "Time_Add t d = t + sint d"

definition quot64 :: "i64 \<Rightarrow> i64 \<Rightarrow> i64" where
  "quot64 a b = word_of_int (sint a sdiv sint b)"

text \<open>The representable range of \<open>int64\<close>, and exactness inside it.\<close>

definition fits64 :: "int \<Rightarrow> bool" where
  "fits64 n \<longleftrightarrow> - (2 ^ 63) \<le> n \<and> n < 2 ^ 63"

lemma sint_word_of_int64: "fits64 n \<Longrightarrow> sint (word_of_int n :: i64) = n"
  by (simp add: fits64_def int_word_sint)

lemma fits64_sint [simp]: "fits64 (sint (w :: i64))"
  using sint_range_size [of w] by (simp add: fits64_def word_size)

lemma sint_Time_Sub: "fits64 (t - u) \<Longrightarrow> sint (Time_Sub t u) = t - u"
  by (simp add: Time_Sub_def fits64_def sint_word_of_int64 min_def max_def)

lemma zdiv_le_self64: "0 \<le> (a::int) \<Longrightarrow> 0 < b \<Longrightarrow> a div b \<le> a"
  using zdiv_mono2 [of a 1 b] by simp

lemma sint_quot64_pos:
  assumes "0 \<le> sint a" and "0 < sint b"
  shows "sint (quot64 a b) = sint a div sint b"
proof -
  have q: "sint a sdiv sint b = sint a div sint b"
    using assms by (cases "sint a = 0") (simp_all add: signed_divide_int_def)
  have "0 \<le> sint a div sint b" and "sint a div sint b \<le> sint a"
    using assms by (simp_all add: pos_imp_zdiv_nonneg_iff zdiv_le_self64)
  moreover have "fits64 (sint a)" by simp
  ultimately have "fits64 (sint a div sint b)" by (simp add: fits64_def)
  then show ?thesis by (simp add: quot64_def q sint_word_of_int64)
qed

lemma int_le_div_iff: "0 < (p::int) \<Longrightarrow> i \<le> a div p \<longleftrightarrow> i * p \<le> a"
proof
  assume "0 < p" and "i \<le> a div p"
  then have "i * p \<le> a div p * p" by (intro mult_right_mono) simp_all
  also have "\<dots> \<le> a" using \<open>0 < p\<close> by (simp add: minus_mod_eq_div_mult [symmetric])
  finally show "i * p \<le> a" .
next
  assume "0 < p" and "i * p \<le> a"
  then show "i \<le> a div p" using zdiv_mono1 [of "i * p" a p] by simp
qed

lemma int_div_less_iff: "0 < (p::int) \<Longrightarrow> a div p < i \<longleftrightarrow> a < i * p"
  using int_le_div_iff [of p i a] by linarith

text \<open>Non-negative counters whose sum stays below \<open>2 ^ 63\<close>.\<close>

lemma sint_add_nowrap64:
  assumes "0 \<le> sint (a :: i64)" "0 \<le> sint b" "nat (sint a) + nat (sint b) < 9223372036854775808"
  shows "sint (a + b) = sint a + sint b"
proof -
  have "a + b = word_of_int (sint a + sint b)" by simp
  then show ?thesis using assms sint_word_of_int64 [of "sint a + sint b"]
    by (simp only:) (simp add: fits64_def)
qed

lemma add_eq_0_signed64:
  assumes "0 \<le> sint (a :: i64)" "0 \<le> sint b" "nat (sint a) + nat (sint b) < 9223372036854775808"
  shows "a + b = 0 \<longleftrightarrow> a = 0 \<and> b = 0"
  using sint_add_nowrap64 [OF assms] assms(1,2)
  by (metis add_nonneg_eq_0_iff signed_eq_0_iff)

end
