(* ===== verification/Go_Maps.thy ===== *)
theory Go_Maps
  imports Go_Base
begin

text \<open>
  Go maps and the \<open>for k, v := range m\<close> loops that write into another map. A loop body
  that only reads and writes the entry of its own key gives the same map for every
  iteration order (\<open>fm_range_loop\<close>), so a loop is modelled by the map it computes,
  \<open>gm_range\<close>; the panic of a write to a nil map is kept.
\<close>

setup_lifting type_definition_fmap

type_synonym ('k, 'v) gomap = "('k, 'v) fmap option"

text \<open>\<open>len(m) > 0\<close>, \<open>m[k]\<close> with its \<open>ok\<close>, and \<open>if m == nil && c { m = make(...) }\<close>.\<close>

definition gm_nonempty :: "('k, 'v) gomap \<Rightarrow> bool" where
  "gm_nonempty m = (case m of None \<Rightarrow> False | Some fm \<Rightarrow> fmdom fm \<noteq> {||})"

definition gm_get :: "('k, 'v) gomap \<Rightarrow> 'k \<Rightarrow> 'v option" where
  "gm_get m k = (case m of None \<Rightarrow> None | Some fm \<Rightarrow> fmlookup fm k)"

definition gm_make_if :: "bool \<Rightarrow> ('k, 'v) gomap \<Rightarrow> ('k, 'v) gomap" where
  "gm_make_if c m = (if m = None \<and> c then Some fmempty else m)"

text \<open>
  The loop over \<open>src\<close> with the body \<open>if v', write := f(dst[k], v); write { dst[k] = v' }\<close>.
\<close>

lift_definition fm_range ::
  "('v option \<Rightarrow> 'w \<Rightarrow> 'v option) \<Rightarrow> ('k, 'v) fmap \<Rightarrow> ('k, 'w) fmap \<Rightarrow> ('k, 'v) fmap" is
  "\<lambda>f d s k. case s k of None \<Rightarrow> d k
             | Some w \<Rightarrow> (case f (d k) w of None \<Rightarrow> d k | Some v \<Rightarrow> Some v)"
proof -
  fix f :: "'v option \<Rightarrow> 'w \<Rightarrow> 'v option" and d :: "'k \<rightharpoonup> 'v" and s :: "'k \<rightharpoonup> 'w"
  assume "finite (dom d)" and "finite (dom s)"
  then show "finite (dom (\<lambda>k. case s k of None \<Rightarrow> d k
      | Some w \<Rightarrow> (case f (d k) w of None \<Rightarrow> d k | Some v \<Rightarrow> Some v)))"
    by (rule_tac finite_subset [of _ "dom d \<union> dom s"]) (auto split: option.splits)
qed

lemma fmlookup_fm_range [simp]:
  "fmlookup (fm_range f d s) k = (case fmlookup s k of None \<Rightarrow> fmlookup d k
     | Some w \<Rightarrow> (case f (fmlookup d k) w of None \<Rightarrow> fmlookup d k | Some v \<Rightarrow> Some v))"
  by transfer simp

definition range_step :: "('v option \<Rightarrow> 'w \<Rightarrow> 'v option) \<Rightarrow> 'k \<times> 'w \<Rightarrow> ('k, 'v) fmap \<Rightarrow> ('k, 'v) fmap" where
  "range_step f kw d = (case f (fmlookup d (fst kw)) (snd kw) of None \<Rightarrow> d | Some v \<Rightarrow> fmupd (fst kw) v d)"

lemma fmlookup_range_step:
  "fmlookup (range_step f kw d) k = (if k = fst kw
     then (case f (fmlookup d k) (snd kw) of None \<Rightarrow> fmlookup d k | Some v \<Rightarrow> Some v)
     else fmlookup d k)"
  by (simp add: range_step_def split: option.splits)

lemma fold_range_step_lookup:
  "distinct (map fst kvs) \<Longrightarrow>
   fmlookup (fold (range_step f) kvs d) k = fmlookup (fm_range f d (fmap_of_list kvs)) k"
proof (induction kvs arbitrary: d)
  case Nil
  then show ?case by (simp add: fmlookup_of_list)
next
  case (Cons kw kvs)
  have notin: "map_of kvs (fst kw) = None"
    using Cons.prems by (simp add: map_of_eq_None_iff image_iff)
  have "fmlookup (fold (range_step f) kvs (range_step f kw d)) k
      = fmlookup (fm_range f (range_step f kw d) (fmap_of_list kvs)) k"
    by (rule Cons.IH) (use Cons.prems in simp)
  then show ?case
    using notin by (cases kw) (auto simp: fmlookup_range_step fmlookup_of_list split: option.splits)
qed

lemma fm_range_loop:
  assumes "distinct (map fst kvs)" and "fmap_of_list kvs = s"
  shows "fold (range_step f) kvs d = fm_range f d s"
  using fold_range_step_lookup [OF assms(1)] assms(2) by (metis fmap_ext)

lemma fm_range_code [code]:
  "fm_range f d (fmap_of_list kvs) = fold (range_step f) (AList.clearjunk kvs) d"
proof -
  have "fmap_of_list (AList.clearjunk kvs) = fmap_of_list kvs"
    by (rule fmap_ext) (simp add: fmlookup_of_list map_of_clearjunk)
  then show ?thesis using fm_range_loop [OF distinct_clearjunk] by metis
qed

definition gm_range ::
  "('v option \<Rightarrow> 'w \<Rightarrow> 'v option) \<Rightarrow> ('k, 'v) gomap \<Rightarrow> ('k, 'w) gomap \<Rightarrow> ('k, 'v) gomap option" where
  "gm_range f d s = (case s of None \<Rightarrow> Some d
     | Some fs \<Rightarrow> (case d of Some fd \<Rightarrow> Some (Some (fm_range f fd fs))
         | None \<Rightarrow> if fmpred (\<lambda>_ w. f None w = None) fs then Some None else None))"

text \<open>The usual body: \<open>dst[k] = f(dst[k], v)\<close>, with the zero value where \<open>k\<close> is absent.\<close>

definition gm_accum :: "('v \<Rightarrow> 'w \<Rightarrow> 'v) \<Rightarrow> 'v \<Rightarrow> ('k, 'v) gomap \<Rightarrow> ('k, 'w) gomap \<Rightarrow> ('k, 'v) gomap option" where
  "gm_accum f z = gm_range (\<lambda>v w. Some (f (case v of None \<Rightarrow> z | Some x \<Rightarrow> x) w))"

text \<open>\<open>dst[k] = v\<close> for every entry of \<open>src\<close>.\<close>

definition gm_copy :: "('k, 'v) gomap \<Rightarrow> ('k, 'v) gomap \<Rightarrow> ('k, 'v) gomap option" where
  "gm_copy = gm_range (\<lambda>_ w. Some w)"

lemma fmpred_const_False [simp]: "fmpred (\<lambda>_ _. False) m \<longleftrightarrow> m = fmempty"
proof
  assume p: "fmpred (\<lambda>_ _. False) m"
  show "m = fmempty"
  proof (rule fmap_ext)
    fix k
    show "fmlookup m k = fmlookup fmempty k"
      using fmpredD [OF p] by (cases "fmlookup m k") auto
  qed
qed simp

lemma fmdom_empty_iff: "fmdom m = {||} \<longleftrightarrow> m = fmempty"
  by (auto intro!: fmap_ext simp: fmdom_notD)

lemma gm_get_make_if [simp]: "gm_get (gm_make_if c m) k = gm_get m k"
  by (simp add: gm_get_def gm_make_if_def split: option.splits)

lemma gm_make_if_again [simp]: "gm_make_if c (gm_make_if True m) = gm_make_if True m"
  by (simp add: gm_make_if_def)

lemma gm_nonempty_iff: "gm_nonempty m \<longleftrightarrow> (\<exists>k. gm_get m k \<noteq> None)"
  by (auto simp: gm_nonempty_def gm_get_def fmdom_empty_iff intro!: fmap_ext split: option.splits)

lemma gm_range_returns:
  "d \<noteq> None \<or> \<not> gm_nonempty s \<Longrightarrow> \<exists>m. gm_range f d s = Some m"
  by (auto simp: gm_range_def gm_nonempty_def fmdom_empty_iff split: option.splits)

text \<open>Allocating when the source has entries is enough for the loop to return.\<close>

lemma gm_range_make_if [no_panic]:
  "\<exists>m. gm_range f (gm_make_if (gm_nonempty s) d) s = Some m"
  by (rule gm_range_returns) (auto simp: gm_make_if_def)

lemma gm_range_make [no_panic]: "\<exists>m. gm_range f (gm_make_if True d) s = Some m"
  by (rule gm_range_returns) (auto simp: gm_make_if_def)

lemma gm_get_range:
  "gm_range f d s = Some m \<Longrightarrow>
   gm_get m k = (case gm_get s k of None \<Rightarrow> gm_get d k
     | Some w \<Rightarrow> (case f (gm_get d k) w of None \<Rightarrow> gm_get d k | Some v \<Rightarrow> Some v))"
  by (auto simp: gm_range_def gm_get_def fmpred_iff split: option.splits if_splits)

lemma gm_get_accum:
  "gm_accum f z d s = Some m \<Longrightarrow>
   gm_get m k = (case gm_get s k of None \<Rightarrow> gm_get d k
     | Some w \<Rightarrow> Some (f (case gm_get d k of None \<Rightarrow> z | Some x \<Rightarrow> x) w))"
  unfolding gm_accum_def by (drule gm_get_range [where k = k]) (simp split: option.splits)

lemma gm_get_copy:
  "gm_copy d s = Some m \<Longrightarrow>
   gm_get m k = (case gm_get s k of None \<Rightarrow> gm_get d k | Some w \<Rightarrow> Some w)"
  unfolding gm_copy_def by (drule gm_get_range [where k = k]) (simp split: option.splits)

lemma gm_accum_make_if [no_panic]: "\<exists>m. gm_accum f z (gm_make_if (gm_nonempty s) d) s = Some m"
  by (simp add: gm_accum_def gm_range_make_if)

lemma gm_copy_make_if [no_panic]: "\<exists>m. gm_copy (gm_make_if (gm_nonempty s) d) s = Some m"
  by (simp add: gm_copy_def gm_range_make_if)

lemma gm_range_None_src [simp]: "gm_range f d None = Some d"
  by (simp add: gm_range_def)

lemma gm_accum_None_src [simp]: "gm_accum f z d None = Some d"
  by (simp add: gm_accum_def)

lemma gm_copy_None_src [simp]: "gm_copy d None = Some d"
  by (simp add: gm_copy_def)

text \<open>
  The same loop where the body itself can panic: \<open>f\<close> returns \<open>None\<close> for a panic, and writes
  its result otherwise. A panic for one key is a panic of the loop in every order.
\<close>

definition gm_range_try ::
  "('v option \<Rightarrow> 'w \<Rightarrow> 'v option) \<Rightarrow> ('k, 'v) gomap \<Rightarrow> ('k, 'w) gomap \<Rightarrow> ('k, 'v) gomap option" where
  "gm_range_try f d s = (case s of None \<Rightarrow> Some d
     | Some fs \<Rightarrow> if fmpred (\<lambda>k w. f (gm_get d k) w \<noteq> None) fs then gm_range f d s else None)"

lemma gm_range_try_None_src [simp]: "gm_range_try f d None = Some d"
  by (simp add: gm_range_try_def)

lemma gm_get_range_try:
  assumes "gm_range_try f d s = Some m"
  shows "gm_get m k = (case gm_get s k of None \<Rightarrow> gm_get d k | Some w \<Rightarrow> f (gm_get d k) w)"
proof (cases s)
  case None
  then show ?thesis using assms by (simp add: gm_get_def)
next
  case (Some fs)
  then have "gm_range f d s = Some m" and p: "fmpred (\<lambda>k w. f (gm_get d k) w \<noteq> None) fs"
    using assms by (auto simp: gm_range_try_def split: if_splits)
  note g = gm_get_range [OF this(1), of k]
  show ?thesis
  proof (cases "fmlookup fs k")
    case None
    then show ?thesis using g Some by (simp add: gm_get_def)
  next
    case (Some w)
    then have "f (gm_get d k) w \<noteq> None" using p by (simp add: fmpred_iff)
    then show ?thesis using g Some \<open>s = Some fs\<close> by (auto simp: gm_get_def [of "Some fs"])
  qed
qed

lemma gm_range_try_returns [no_panic]:
  assumes "\<And>k w. gm_get s k = Some w \<Longrightarrow> f (gm_get d k) w \<noteq> None"
  shows "\<exists>m. gm_range_try f (gm_make_if (gm_nonempty s) d) s = Some m"
proof (cases s)
  case (Some fs)
  have "fmpred (\<lambda>k w. f (gm_get d k) w \<noteq> None) fs"
    using assms Some by (simp add: fmpred_iff gm_get_def)
  then show ?thesis
    using Some gm_range_make_if [of f s d] by (simp add: gm_range_try_def)
qed simp

lemma gm_range_try_make [no_panic]:
  assumes "\<And>k w. gm_get s k = Some w \<Longrightarrow> f (gm_get d k) w \<noteq> None"
  shows "\<exists>m. gm_range_try f (gm_make_if True d) s = Some m"
proof (cases s)
  case (Some fs)
  have "fmpred (\<lambda>k w. f (gm_get d k) w \<noteq> None) fs"
    using assms Some by (simp add: fmpred_iff gm_get_def)
  then show ?thesis
    using Some gm_range_make [of f d s] by (simp add: gm_range_try_def)
qed simp

text \<open>
  A loop that only reads a map sees its keys in an order the runtime picks. The loops that
  add up a map take that order as an argument: \<open>ks\<close> is any enumeration of the keys.
\<close>

definition gm_order :: "('k, 'v) gomap \<Rightarrow> 'k list \<Rightarrow> bool" where
  "gm_order m ks \<longleftrightarrow> distinct ks \<and> (\<forall>k. k \<in> set ks \<longleftrightarrow> gm_get m k \<noteq> None)"

definition gm_vals :: "('k, 'v) gomap \<Rightarrow> 'k list \<Rightarrow> 'v list" where
  "gm_vals m ks = List.map_filter (gm_get m) ks"

lemma gm_vals_simps [simp]:
  "gm_vals m [] = []"
  "gm_vals m (k # ks) = (case gm_get m k of None \<Rightarrow> gm_vals m ks | Some v \<Rightarrow> v # gm_vals m ks)"
  by (simp_all add: gm_vals_def List.map_filter_def split: option.splits)

lemma gm_order_make_if [simp]: "gm_order (gm_make_if c m) ks \<longleftrightarrow> gm_order m ks"
  by (simp add: gm_order_def)

lemma gm_vals_make_if [simp]: "gm_vals (gm_make_if c m) ks = gm_vals m ks"
  by (induction ks) (simp_all split: option.split)

lemma gm_vals_conv: "gm_order m ks \<Longrightarrow> gm_vals m ks = map (\<lambda>k. the (gm_get m k)) ks"
  by (auto simp: gm_vals_def List.map_filter_def gm_order_def filter_id_conv)

lemma gm_order_mset: "gm_order m ks \<Longrightarrow> gm_order m ks' \<Longrightarrow> mset ks = mset ks'"
  by (simp add: gm_order_def set_eq_iff_mset_eq_distinct [symmetric] set_eq_iff)

lemma gm_vals_mset:
  "gm_order m ks \<Longrightarrow> gm_order m ks' \<Longrightarrow> mset (gm_vals m ks) = mset (gm_vals m ks')"
  using gm_order_mset [of m ks ks'] by (metis gm_vals_conv mset_map)

lemma gm_vals_mem: "v \<in> set (gm_vals m ks) \<Longrightarrow> \<exists>k. gm_get m k = Some v"
  by (auto simp: gm_vals_def List.map_filter_def)

end
