(* ===== verification/Merge_Laws.thy ===== *)
theory Merge_Laws
  imports Go_Maps
begin

text \<open>
  The contract of the \<open>Merge\<close>/\<open>Add\<close> methods (the rules in the comment of \<open>metrics.go\<close>):
  the receiver may be the zero value, an unset argument changes nothing, and, for the
  types that allow it, merging does not depend on the order. The counters are machine
  integers, so each law holds while the count that decides the branches, the \<open>weight\<close>,
  does not reach \<open>cap\<close>, where it would wrap. The clients of the contract (totals, maps
  merged key by key, segmented series) are proved here and in \<open>Segmented\<close> once and reach
  the program's types through the interpretations in their theories.
\<close>

text \<open>A method with a pointer argument returns at once when the pointer is nil.\<close>

definition if_set :: "('a \<Rightarrow> 'b \<Rightarrow> 'a) \<Rightarrow> 'a \<Rightarrow> 'b option \<Rightarrow> 'a" where
  "if_set f a other = (case other of None \<Rightarrow> a | Some b \<Rightarrow> f a b)"

lemma if_set_simps [simp]: "if_set f a None = a" "if_set f a (Some b) = f a b"
  by (simp_all add: if_set_def)

text \<open>The loop \<open>for _, x := range xs { acc.Add(&x) }\<close>.\<close>

definition add_all :: "('a \<Rightarrow> 'b \<Rightarrow> 'a) \<Rightarrow> 'b list \<Rightarrow> 'a \<Rightarrow> 'a" where
  "add_all add xs a = fold (\<lambda>x acc. add acc x) xs a"

lemma add_all_Nil [simp]: "add_all add [] a = a"
  by (simp add: add_all_def)

lemma add_all_Cons [simp]: "add_all add (x # xs) a = add_all add xs (add a x)"
  by (simp add: add_all_def)

lemma add_all_append: "add_all add (xs @ ys) a = add_all add ys (add_all add xs a)"
  by (simp add: add_all_def)

abbreviation total_weight :: "('a \<Rightarrow> nat) \<Rightarrow> 'a list \<Rightarrow> nat" where
  "total_weight weight xs \<equiv> sum_list (map weight xs)"

locale merge_laws =
  fixes wf :: "'a \<Rightarrow> bool" and weight :: "'a \<Rightarrow> nat" and cap :: nat
    and zero :: 'a and add :: "'a \<Rightarrow> 'a \<Rightarrow> 'a"
  assumes wf_zero: "wf zero" and weight_zero: "weight zero = 0"
    and wf_add: "wf a \<Longrightarrow> wf b \<Longrightarrow> weight a + weight b < cap \<Longrightarrow> wf (add a b)"
    and weight_add: "wf a \<Longrightarrow> wf b \<Longrightarrow> weight a + weight b < cap \<Longrightarrow> weight (add a b) = weight a + weight b"
    and zero_left: "wf a \<Longrightarrow> add zero a = a"
    and zero_right: "wf a \<Longrightarrow> add a zero = a"
begin

lemma wf_weight_add_all:
  "wf a \<Longrightarrow> list_all wf xs \<Longrightarrow> weight a + total_weight weight xs < cap \<Longrightarrow>
   wf (add_all add xs a) \<and> weight (add_all add xs a) = weight a + total_weight weight xs"
  by (induction xs arbitrary: a) (simp_all add: wf_add weight_add)

text \<open>Merging into the zero value of a map entry is merging into a missing entry.\<close>

lemma accum_get_wf:
  assumes "gm_accum add zero d s = Some m"
    and "\<And>v. gm_get d k = Some v \<Longrightarrow> wf v" and "\<And>v. gm_get s k = Some v \<Longrightarrow> wf v"
  shows "gm_get m k = (case (gm_get d k, gm_get s k) of (x, None) \<Rightarrow> x | (None, Some w) \<Rightarrow> Some w
           | (Some v, Some w) \<Rightarrow> Some (add v w))"
  using gm_get_accum [OF assms(1), of k] assms(2,3) by (auto simp: zero_left split: option.splits)

end

locale merge_comm = merge_laws +
  assumes add_comm: "wf a \<Longrightarrow> wf b \<Longrightarrow> weight a + weight b < cap \<Longrightarrow> add a b = add b a"
    and add_assoc: "wf a \<Longrightarrow> wf b \<Longrightarrow> wf c \<Longrightarrow> weight a + weight b + weight c < cap \<Longrightarrow>
      add (add a b) c = add a (add b c)"
begin

lemma add_left_comm:
  assumes "wf a" "wf b" "wf c" "weight a + weight b + weight c < cap"
  shows "add a (add b c) = add b (add a c)"
  using assms add_assoc [of a b c] add_assoc [of b a c] add_comm [of a b] by simp

lemma add_all_shift:
  "wf a \<Longrightarrow> wf b \<Longrightarrow> list_all wf xs \<Longrightarrow> weight a + weight b + total_weight weight xs < cap \<Longrightarrow>
   add_all add xs (add a b) = add a (add_all add xs b)"
  by (induction xs arbitrary: b) (simp_all add: add_assoc wf_add weight_add add.assoc)

text \<open>Totals start from the zero value; \<open>sum_of\<close> is the total with its first summand outside.\<close>

lemma total_Cons:
  "wf x \<Longrightarrow> list_all wf xs \<Longrightarrow> weight x + total_weight weight xs < cap \<Longrightarrow>
   add_all add (x # xs) zero = add x (add_all add xs zero)"
  using add_all_shift [of x zero xs] by (simp add: zero_left zero_right wf_zero weight_zero)

lemma total_remove1:
  "y \<in> set xs \<Longrightarrow> list_all wf xs \<Longrightarrow> total_weight weight xs < cap \<Longrightarrow>
   add_all add xs zero = add y (add_all add (remove1 y xs) zero)"
proof (induction xs)
  case Nil
  then show ?case by simp
next
  case (Cons x xs)
  show ?case
  proof (cases "x = y")
    case True
    with Cons.prems show ?thesis by (simp add: total_Cons del: add_all_Cons)
  next
    case False
    then have y: "y \<in> set xs" using Cons.prems by simp
    have wfs: "list_all wf xs" "wf x" "wf y" "list_all wf (remove1 y xs)"
      using Cons.prems y set_remove1_subset [of y xs] by (auto simp: list_all_iff)
    let ?r = "add_all add (remove1 y xs) zero"
    have w: "total_weight weight xs = weight y + total_weight weight (remove1 y xs)"
      by (rule sum_list_map_remove1 [OF y])
    have r: "wf ?r" "weight ?r = total_weight weight (remove1 y xs)"
      using wf_weight_add_all [OF wf_zero wfs(4)] Cons.prems(3) w by (simp_all add: weight_zero)
    have "add_all add (x # xs) zero = add x (add y ?r)"
      using Cons.IH [OF y wfs(1)] Cons.prems(3) wfs by (simp add: total_Cons del: add_all_Cons)
    also have "\<dots> = add y (add x ?r)"
      using wfs r Cons.prems(3) w by (intro add_left_comm) simp_all
    also have "\<dots> = add y (add_all add (x # remove1 y xs) zero)"
      using wfs Cons.prems(3) w by (subst total_Cons) simp_all
    finally show ?thesis using False by simp
  qed
qed

text \<open>A total is the same for every order of its summands.\<close>

lemma total_perm:
  "mset xs = mset ys \<Longrightarrow> list_all wf xs \<Longrightarrow> total_weight weight xs < cap \<Longrightarrow>
   add_all add xs zero = add_all add ys zero"
proof (induction ys arbitrary: xs)
  case Nil
  then show ?case by simp
next
  case (Cons y ys)
  have y: "y \<in> set xs" using Cons.prems(1) by (metis list.set_intros(1) set_mset_mset)
  have w: "total_weight weight xs = weight y + total_weight weight (remove1 y xs)"
    by (rule sum_list_map_remove1 [OF y])
  have m: "mset (remove1 y xs) = mset ys" using Cons.prems(1) by simp
  have wr: "list_all wf (remove1 y xs)"
    using Cons.prems(2) set_remove1_subset [of y xs] by (auto simp: list_all_iff)
  have ih: "add_all add (remove1 y xs) zero = add_all add ys zero"
    using Cons.IH [OF m wr] Cons.prems(3) w by simp
  have "total_weight weight (remove1 y xs) = total_weight weight ys"
    by (metis m mset_map sum_mset_sum_list)
  moreover have "set xs = set (y # ys)" using Cons.prems(1) by (metis set_mset_mset)
  ultimately have "add_all add (y # ys) zero = add y (add_all add ys zero)"
    using Cons.prems(2,3) w by (intro total_Cons) (auto simp: list_all_iff)
  then show ?case using total_remove1 [OF y Cons.prems(2,3)] ih by simp
qed

text \<open>Merging two maps key by key finds the same entries in both orders.\<close>

lemma accum_get_comm:
  assumes "gm_accum add zero d s = Some m" and "gm_accum add zero s d = Some m'"
    and "\<And>v. gm_get d k = Some v \<Longrightarrow> wf v" and "\<And>v. gm_get s k = Some v \<Longrightarrow> wf v"
    and "\<And>v w. gm_get d k = Some v \<Longrightarrow> gm_get s k = Some w \<Longrightarrow> weight v + weight w < cap"
  shows "gm_get m k = gm_get m' k"
proof -
  note m = accum_get_wf [OF assms(1), of k, OF assms(3,4)]
  note m' = accum_get_wf [OF assms(2), of k, OF assms(4,3)]
  show ?thesis
  proof (cases "gm_get d k")
    case None
    then show ?thesis using m m' by (simp split: option.splits)
  next
    case (Some v)
    then show ?thesis
      using m m' assms(3-5) add_comm [of v] by (cases "gm_get s k") simp_all
  qed
qed

text \<open>Adding up a map that was merged key by key adds up the two maps.\<close>

lemma add_all_pointwise:
  assumes "\<And>k. k \<in> set ks \<Longrightarrow> wf (f k) \<and> wf (g k)"
    and "total_weight weight (map f ks) + total_weight weight (map g ks) < cap"
  shows "add_all add (map (\<lambda>k. add (f k) (g k)) ks) zero =
    add (add_all add (map f ks) zero) (add_all add (map g ks) zero)"
  using assms
proof (induction ks)
  case Nil
  then show ?case by (simp add: zero_left wf_zero)
next
  case (Cons k ks)
  let ?F = "add_all add (map f ks) zero" and ?G = "add_all add (map g ks) zero"
  have wfs: "list_all wf (map f ks)" "list_all wf (map g ks)" "wf (f k)" "wf (g k)"
    using Cons.prems(1) by (auto simp: list_all_iff)
  have F: "wf ?F" "weight ?F = total_weight weight (map f ks)"
    and G: "wf ?G" "weight ?G = total_weight weight (map g ks)"
    using wf_weight_add_all [OF wf_zero wfs(1)] wf_weight_add_all [OF wf_zero wfs(2)] Cons.prems(2)
    by (simp_all add: weight_zero)
  have ih: "add_all add (map (\<lambda>k. add (f k) (g k)) ks) zero = add ?F ?G"
    using Cons by simp
  have FG: "wf (add ?F ?G)" "weight (add ?F ?G) = weight ?F + weight ?G"
    using wf_add [OF F(1) G(1)] weight_add [OF F(1) G(1)] F(2) G(2) Cons.prems(2) by simp_all
  have fg: "wf (add (f k) (g k))" "weight (add (f k) (g k)) = weight (f k) + weight (g k)"
    using wfs Cons.prems(2) by (auto intro: wf_add weight_add)
  have each: "list_all wf (map (\<lambda>k. add (f k) (g k)) ks) \<and>
      total_weight weight (map (\<lambda>k. add (f k) (g k)) ks) =
        total_weight weight (map f ks) + total_weight weight (map g ks)"
    using Cons.prems
  proof (induction ks)
    case (Cons l ls)
    then show ?case by (auto simp: wf_add weight_add)
  qed simp
  have "add_all add (map (\<lambda>k. add (f k) (g k)) (k # ks)) zero =
      add (add (f k) (g k)) (add_all add (map (\<lambda>k. add (f k) (g k)) ks) zero)"
    using total_Cons [OF fg(1), of "map (\<lambda>k. add (f k) (g k)) ks"] each fg(2) Cons.prems(2) by simp
  also have "\<dots> = add (add (f k) (g k)) (add ?F ?G)" by (simp add: ih)
  also have "\<dots> = add (f k) (add (g k) (add ?F ?G))"
    using wfs FG F G Cons.prems(2) by (intro add_assoc) simp_all
  also have "add (g k) (add ?F ?G) = add ?F (add (g k) ?G)"
    using wfs F G Cons.prems(2) by (intro add_left_comm) simp_all
  also have "add (f k) (add ?F (add (g k) ?G)) = add (add (f k) ?F) (add (g k) ?G)"
    using wfs F G Cons.prems(2) wf_add [of "g k" ?G] weight_add [of "g k" ?G]
    by (intro add_assoc [symmetric]) simp_all
  also have "add (f k) ?F = add_all add (map f (k # ks)) zero"
    using total_Cons [OF wfs(3,1)] Cons.prems(2) by simp
  also have "add (g k) ?G = add_all add (map g (k # ks)) zero"
    using total_Cons [OF wfs(4,2)] Cons.prems(2) by simp
  finally show ?case .
qed

definition value_at :: "('k, 'a) gomap \<Rightarrow> 'k \<Rightarrow> 'a" where
  "value_at m k = (case gm_get m k of None \<Rightarrow> zero | Some v \<Rightarrow> v)"

lemma total_value_at:
  assumes ord: "gm_order m ks" and sub: "set ks \<subseteq> set ls" and d: "distinct ls"
    and wf: "\<And>k v. gm_get m k = Some v \<Longrightarrow> wf v"
    and w: "total_weight weight (gm_vals m ks) < cap"
  shows "add_all add (map (value_at m) ls) zero = add_all add (gm_vals m ks) zero"
    and "total_weight weight (map (value_at m) ls) = total_weight weight (gm_vals m ks)"
proof -
  let ?in = "\<lambda>k. k \<in> set ks"
  have ks: "k \<in> set ks \<longleftrightarrow> gm_get m k \<noteq> None" for k
    using ord by (simp add: gm_order_def)
  have wfl: "wf (value_at m k)" for k
    using wf wf_zero by (auto simp: value_at_def split: option.split)
  have skip: "add_all add (map (value_at m) xs) a = add_all add (map (value_at m) (filter ?in xs)) a"
    if "wf a" "weight a + total_weight weight (map (value_at m) (filter ?in xs)) < cap" for xs a
    using that
  proof (induction xs arbitrary: a)
    case (Cons x xs)
    then show ?case
      using wfl [of x] by (cases "?in x") (auto simp: ks value_at_def zero_right wf_add weight_add)
  qed simp
  have wskip: "total_weight weight (map (value_at m) xs) =
      total_weight weight (map (value_at m) (filter ?in xs))" for xs
    by (induction xs) (auto simp: ks value_at_def weight_zero)
  have "mset (filter ?in ls) = mset ks"
    using sub d ord by (intro set_eq_iff_mset_eq_distinct [THEN iffD1]) (auto simp: gm_order_def)
  then have mm: "mset (map (value_at m) (filter ?in ls)) = mset (map (value_at m) ks)" by simp
  have vals: "map (value_at m) ks = gm_vals m ks"
    using gm_vals_conv [OF ord] ks by (auto simp: value_at_def)
  have tw: "total_weight weight (map (value_at m) (filter ?in ls)) = total_weight weight (gm_vals m ks)"
    using mm vals by (metis mset_map sum_mset_sum_list)
  show "total_weight weight (map (value_at m) ls) = total_weight weight (gm_vals m ks)"
    using wskip [of ls] tw by simp
  have "add_all add (map (value_at m) (filter ?in ls)) zero = add_all add (map (value_at m) ks) zero"
    using mm tw w wfl by (intro total_perm) (simp_all add: list_all_iff)
  then show "add_all add (map (value_at m) ls) zero = add_all add (gm_vals m ks) zero"
    using skip [OF wf_zero, of ls] tw w by (simp add: weight_zero vals)
qed

lemma accum_total:
  assumes m: "gm_accum add zero d s = Some m"
    and ord: "gm_order m ks" "gm_order d kd" "gm_order s ks'"
    and wf: "\<And>k v. gm_get d k = Some v \<Longrightarrow> wf v" "\<And>k v. gm_get s k = Some v \<Longrightarrow> wf v"
    and w: "total_weight weight (gm_vals d kd) + total_weight weight (gm_vals s ks') < cap"
  shows "add_all add (gm_vals m ks) zero =
    add (add_all add (gm_vals d kd) zero) (add_all add (gm_vals s ks') zero)"
proof -
  have get: "gm_get m k = (case (gm_get d k, gm_get s k) of (x, None) \<Rightarrow> x | (None, Some w) \<Rightarrow> Some w
      | (Some v, Some w) \<Rightarrow> Some (add v w))" for k
    by (rule accum_get_wf [OF m wf])
  have "gm_get m k \<noteq> None \<longleftrightarrow> gm_get d k \<noteq> None \<or> gm_get s k \<noteq> None" for k
    using get [of k] by (cases "gm_get d k"; cases "gm_get s k") simp_all
  then have sub: "set kd \<subseteq> set ks" "set ks' \<subseteq> set ks"
    using ord by (auto simp: gm_order_def)
  have D: "distinct ks" using ord(1) by (simp add: gm_order_def)
  have "value_at m k = add (value_at d k) (value_at s k)" for k
    using get [of k] wf wf_zero
    by (cases "gm_get d k"; cases "gm_get s k") (simp_all add: value_at_def zero_left zero_right)
  then have pt: "map (value_at m) ks = map (\<lambda>k. add (value_at d k) (value_at s k)) ks" by simp
  have vals: "gm_vals m ks = map (value_at m) ks"
    using gm_vals_conv [OF ord(1)] ord(1) by (auto simp: value_at_def gm_order_def)
  have td: "add_all add (map (value_at d) ks) zero = add_all add (gm_vals d kd) zero"
    "total_weight weight (map (value_at d) ks) = total_weight weight (gm_vals d kd)"
    using total_value_at [OF ord(2) sub(1) D] wf(1) w by simp_all
  have ts: "add_all add (map (value_at s) ks) zero = add_all add (gm_vals s ks') zero"
    "total_weight weight (map (value_at s) ks) = total_weight weight (gm_vals s ks')"
    using total_value_at [OF ord(3) sub(2) D] wf(2) w by simp_all
  have "add_all add (map (\<lambda>k. add (value_at d k) (value_at s k)) ks) zero =
      add (add_all add (map (value_at d) ks) zero) (add_all add (map (value_at s) ks) zero)"
  proof (rule add_all_pointwise)
    show "wf (value_at d k) \<and> wf (value_at s k)" for k
      using wf wf_zero by (auto simp: value_at_def split: option.split)
    show "total_weight weight (map (value_at d) ks) + total_weight weight (map (value_at s) ks) < cap"
      using td(2) ts(2) w by simp
  qed
  then show ?thesis unfolding vals pt td(1) ts(1) .
qed

end

end
