(* ===== verification/Segmented.thy ===== *)
theory Segmented
  imports Merge_Laws
begin

text \<open>
  \<open>Segmented[T, PT]\<close> of \<open>metrics.go\<close>: a series of statistics, one per time slot. The method
  \<open>PT.Add\<close> and the zero value of \<open>T\<close> are arguments, as they are type parameters in the
  source. \<open>None\<close> of \<open>Segmented_Add\<close> is a panic (division by zero, a negative \<open>make\<close>, a slice
  out of range). The series is specified by the statistic at each point of the time line,
  \<open>seg_at\<close>; the laws are proved in the locales of \<open>Merge_Laws\<close>.
\<close>

record 'a Segmented =
  sg_Interval :: i64
  sg_FirstTime :: gotime
  sg_Segments :: "'a list"

definition Segmented_zero :: "'a Segmented" where
  "Segmented_zero = \<lparr>sg_Interval = 0, sg_FirstTime = 0, sg_Segments = []\<rparr>"

text \<open>\<open>copy(dst[off:off+len(src)], src)\<close>, with the bounds check of the slice expression.\<close>

definition copy_at :: "int \<Rightarrow> 'a list \<Rightarrow> 'a list \<Rightarrow> 'a list option" where
  "copy_at off src dst = (if off < 0 \<or> int (length dst) < off + int (length src) then None
     else Some (take (nat off) dst @ src @ drop (nat off + length src) dst))"

text \<open>
  The loop over \<open>other.Segments\<close> from index \<open>otherOffset\<close>. The index is an \<open>int\<close> here: where
  the source's \<open>otherOffset + i\<close> would wrap, both indices are outside the slice.
\<close>

fun overlay :: "('a \<Rightarrow> 'a \<Rightarrow> 'a) \<Rightarrow> int \<Rightarrow> 'a list \<Rightarrow> 'a list \<Rightarrow> 'a list" where
  "overlay add i ns [] = ns"
| "overlay add i ns (y # ys) = overlay add (i + 1)
     (if i < 0 \<or> int (length ns) \<le> i then ns else ns[nat i := add (ns ! nat i) y]) ys"

definition Segmented_Add ::
  "('a \<Rightarrow> 'a \<Rightarrow> 'a) \<Rightarrow> 'a \<Rightarrow> 'a Segmented \<Rightarrow> 'a Segmented option \<Rightarrow> 'a Segmented option" where
  "Segmented_Add add zero s other = (case other of None \<Rightarrow> Some s | Some other \<Rightarrow>
    if sg_Segments other = [] then Some s
    else if sg_Segments s = [] then Some other
    else if sg_Interval other = 0 \<or> sg_Interval s \<noteq> sg_Interval other then Some s
    else if sg_FirstTime s = sg_FirstTime other \<and> length (sg_Segments s) = length (sg_Segments other)
    then Some (s\<lparr>sg_Segments := map2 add (sg_Segments s) (sg_Segments other)\<rparr>)
    else
      let step = sg_Interval s * 1000000000;
          start = (if Before (sg_FirstTime other) (sg_FirstTime s) then sg_FirstTime other else sg_FirstTime s);
          aEnd = Time_Add (sg_FirstTime s) (of_nat (length (sg_Segments s)) * step);
          oEnd = Time_Add (sg_FirstTime other) (of_nat (length (sg_Segments other)) * step)
      in if step = 0 then None else
      let totalSlots = (if After aEnd oEnd then quot64 (Time_Sub aEnd start) step
                        else quot64 (Time_Sub oEnd start) step)
      in if sint totalSlots < 0 then None else
      let newSegments = replicate (nat (sint totalSlots)) zero;
          offset = (if After (sg_FirstTime s) start then quot64 (Time_Sub (sg_FirstTime s) start) step else 0)
      in case copy_at (sint offset) (sg_Segments s) newSegments of None \<Rightarrow> None
         | Some newSegments \<Rightarrow>
             let otherOffset = quot64 (Time_Sub (sg_FirstTime other) start) step
             in Some (s\<lparr>sg_FirstTime := start,
                  sg_Segments := overlay add (sint otherOffset) newSegments (sg_Segments other)\<rparr>))"

definition Segmented_Total :: "('a \<Rightarrow> 'a \<Rightarrow> 'a) \<Rightarrow> 'a \<Rightarrow> 'a Segmented option \<Rightarrow> 'a" where
  "Segmented_Total add zero s = (case s of None \<Rightarrow> zero | Some s \<Rightarrow> add_all add (sg_Segments s) zero)"

subsection \<open>The slots of a merged series\<close>

definition slots :: "('a \<Rightarrow> 'a \<Rightarrow> 'a) \<Rightarrow> 'a \<Rightarrow> nat \<Rightarrow> nat \<Rightarrow> 'a list \<Rightarrow> nat \<Rightarrow> 'a list \<Rightarrow> 'a list" where
  "slots add zero n i xs j ys =
     overlay add (int j) (replicate i zero @ xs @ replicate (n - i - length xs) zero) ys"

lemma length_overlay [simp]: "length (overlay add i ns ys) = length ns"
  by (induction add i ns ys rule: overlay.induct) (auto split: if_splits)

lemma nth_overlay:
  "j + length ys \<le> length ns \<Longrightarrow> k < length ns \<Longrightarrow>
   overlay add (int j) ns ys ! k =
     (if j \<le> k \<and> k < j + length ys then add (ns ! k) (ys ! (k - j)) else ns ! k)"
proof (induction ys arbitrary: j ns)
  case Nil
  then show ?case by auto
next
  case (Cons y ys)
  have "overlay add (int j) ns (y # ys) = overlay add (int (Suc j)) (ns[j := add (ns ! j) y]) ys"
    using Cons.prems(1) by (simp add: add.commute)
  moreover have "overlay add (int (Suc j)) (ns[j := add (ns ! j) y]) ys ! k =
      (if Suc j \<le> k \<and> k < Suc j + length ys then add (ns[j := add (ns ! j) y] ! k) (ys ! (k - Suc j))
       else ns[j := add (ns ! j) y] ! k)"
    by (rule Cons.IH) (use Cons.prems in simp_all)
  ultimately show ?case
    using Cons.prems by (auto simp: nth_list_update nth_Cons' le_Suc_eq not_less_eq_eq)
qed

lemma length_slots: "i + length xs \<le> n \<Longrightarrow> length (slots add zero n i xs j ys) = n"
  by (simp add: slots_def)

lemma nth_slots:
  assumes "i + length xs \<le> n" and "j + length ys \<le> n" and "k < n"
  shows "slots add zero n i xs j ys ! k =
    (let x = (if i \<le> k \<and> k < i + length xs then xs ! (k - i) else zero)
     in if j \<le> k \<and> k < j + length ys then add x (ys ! (k - j)) else x)"
  using assms by (auto simp: slots_def nth_overlay nth_append)

lemma copy_at_replicate:
  "i + length xs \<le> n \<Longrightarrow>
   copy_at (int i) xs (replicate n zero) =
     Some (replicate i zero @ xs @ replicate (n - i - length xs) zero)"
  by (simp add: copy_at_def min_def)

subsection \<open>What the method computes while nothing overflows\<close>

definition seg_step :: "'a Segmented \<Rightarrow> int" where
  "seg_step s = sint (sg_Interval s) * 1000000000"

definition seg_end :: "'a Segmented \<Rightarrow> int" where
  "seg_end s = sg_FirstTime s + int (length (sg_Segments s)) * seg_step s"

text \<open>The two series have one positive interval and their common time line fits a \<open>Duration\<close>.\<close>

definition mergeable :: "'a Segmented \<Rightarrow> 'a Segmented \<Rightarrow> bool" where
  "mergeable s t \<longleftrightarrow> sg_Interval s = sg_Interval t \<and> 0 < sint (sg_Interval s) \<and>
     sg_Segments s \<noteq> [] \<and> sg_Segments t \<noteq> [] \<and>
     max (seg_end s) (seg_end t) - min (sg_FirstTime s) (sg_FirstTime t) < 2 ^ 63"

definition aligned :: "'a Segmented \<Rightarrow> 'a Segmented \<Rightarrow> bool" where
  "aligned s t \<longleftrightarrow> seg_step s dvd sg_FirstTime s - sg_FirstTime t"

definition slot_of :: "'a Segmented \<Rightarrow> int \<Rightarrow> nat" where
  "slot_of s t = nat ((sg_FirstTime s - t) div seg_step s)"

lemma mergeable_sym: "mergeable s t \<Longrightarrow> mergeable t s"
  by (auto simp: mergeable_def max.commute min.commute)

lemma mergeable_step:
  assumes "mergeable s t"
  shows "0 < seg_step s" and "seg_step t = seg_step s"
    and "int (length (sg_Segments s)) * seg_step s < 2 ^ 63"
    and "int (length (sg_Segments t)) * seg_step s < 2 ^ 63"
    and "seg_step s < 2 ^ 63"
proof -
  show st: "0 < seg_step s" and eq: "seg_step t = seg_step s"
    using assms by (auto simp: mergeable_def seg_step_def)
  have "max (seg_end s) (seg_end t) - min (sg_FirstTime s) (sg_FirstTime t) < 2 ^ 63"
    using assms by (simp add: mergeable_def)
  then have b: "seg_end s - sg_FirstTime s < 2 ^ 63" "seg_end t - sg_FirstTime t < 2 ^ 63"
    by linarith+
  show l: "int (length (sg_Segments s)) * seg_step s < 2 ^ 63"
    using b(1) by (simp add: seg_end_def)
  show "int (length (sg_Segments t)) * seg_step s < 2 ^ 63"
    using b(2) eq by (simp add: seg_end_def)
  have "1 \<le> int (length (sg_Segments s))"
    using assms by (cases "sg_Segments s") (auto simp: mergeable_def)
  then have "1 * seg_step s \<le> int (length (sg_Segments s)) * seg_step s"
    using st by (intro mult_right_mono) simp_all
  then show "seg_step s < 2 ^ 63" using l by simp
qed

definition seg_start :: "'a Segmented \<Rightarrow> 'a Segmented \<Rightarrow> gotime" where
  "seg_start s t = min (sg_FirstTime s) (sg_FirstTime t)"

definition seg_slots :: "'a Segmented \<Rightarrow> 'a Segmented \<Rightarrow> nat" where
  "seg_slots s t = nat ((max (seg_end s) (seg_end t) - seg_start s t) div seg_step s)"

lemma sint_of_int_word: "fits64 z \<Longrightarrow> w = word_of_int z \<Longrightarrow> sint (w :: i64) = z"
  by (simp add: sint_word_of_int64)

lemma mergeable_word_step:
  assumes "mergeable s t"
  shows "sint (sg_Interval s * 1000000000) = seg_step s"
proof (rule sint_of_int_word)
  show "fits64 (seg_step s)"
    using mergeable_step(1,5) [OF assms] by (simp add: fits64_def)
  show "sg_Interval s * 1000000000 = word_of_int (seg_step s)"
    by (simp add: seg_step_def)
qed

lemma mergeable_end:
  assumes "mergeable s t"
  shows "Time_Add (sg_FirstTime s) (of_nat (length (sg_Segments s)) * (sg_Interval s * 1000000000)) = seg_end s"
    and "Time_Add (sg_FirstTime t) (of_nat (length (sg_Segments t)) * (sg_Interval s * 1000000000)) = seg_end t"
proof -
  have w: "sg_Interval s * 1000000000 = word_of_int (seg_step s)" by (simp add: seg_step_def)
  have *: "sint (of_nat n * (sg_Interval s * 1000000000)) = int n * seg_step s"
    if "int n * seg_step s < 2 ^ 63" for n
  proof (rule sint_of_int_word)
    have "0 \<le> int n * seg_step s" using mergeable_step(1) [OF assms] by simp
    then show "fits64 (int n * seg_step s)" using that unfolding fits64_def by linarith
  qed (simp add: w)
  show "Time_Add (sg_FirstTime s) (of_nat (length (sg_Segments s)) * (sg_Interval s * 1000000000)) = seg_end s"
    using *[OF mergeable_step(3) [OF assms]] by (simp add: Time_Add_def seg_end_def)
  show "Time_Add (sg_FirstTime t) (of_nat (length (sg_Segments t)) * (sg_Interval s * 1000000000)) = seg_end t"
    using *[OF mergeable_step(4) [OF assms]] mergeable_step(2) [OF assms]
    by (simp add: Time_Add_def seg_end_def)
qed

lemma mergeable_quot:
  assumes "mergeable s t" and "0 \<le> x - y" and "x - y < 2 ^ 63"
  shows "sint (quot64 (Time_Sub x y) (sg_Interval s * 1000000000)) = (x - y) div seg_step s"
proof -
  have "sint (Time_Sub x y) = x - y"
    by (rule sint_Time_Sub) (use assms in \<open>simp add: fits64_def\<close>)
  then show ?thesis
    using mergeable_word_step [OF assms(1)] mergeable_step(1) [OF assms(1)] assms(2)
    by (simp add: sint_quot64_pos)
qed

text \<open>Both series fit into the slots of the result, whether or not their slots line up.\<close>

lemma slot_fits:
  assumes "mergeable s t"
  shows "slot_of s (seg_start s t) + length (sg_Segments s) \<le> seg_slots s t"
proof -
  let ?p = "seg_step s" and ?d = "sg_FirstTime s - seg_start s t" and ?n = "length (sg_Segments s)"
  have p: "0 < ?p" by (rule mergeable_step(1) [OF assms])
  have "?d div ?p + int ?n = (?d + int ?n * ?p) div ?p" using p by simp
  also have "\<dots> \<le> (max (seg_end s) (seg_end t) - seg_start s t) div ?p"
    using p by (intro zdiv_mono1) (simp_all add: seg_end_def)
  finally have "?d div ?p + int ?n \<le> (max (seg_end s) (seg_end t) - seg_start s t) div ?p" .
  moreover have "0 \<le> ?d div ?p" using p by (simp add: pos_imp_zdiv_nonneg_iff seg_start_def)
  ultimately show ?thesis by (simp add: slot_of_def seg_slots_def)
qed

lemma seg_start_sym: "seg_start s t = seg_start t s"
  by (simp add: seg_start_def min.commute)

lemma seg_slots_sym: "mergeable s t \<Longrightarrow> seg_slots s t = seg_slots t s"
  using mergeable_step(2) [of s t] by (simp add: seg_slots_def seg_start_sym [of t s] max.commute)

lemma slot_fits_other:
  "mergeable s t \<Longrightarrow> slot_of t (seg_start s t) + length (sg_Segments t) \<le> seg_slots s t"
  using slot_fits [OF mergeable_sym, of s t] by (simp add: seg_start_sym [of t s] seg_slots_sym [of s t])

definition merged :: "('a \<Rightarrow> 'a \<Rightarrow> 'a) \<Rightarrow> 'a \<Rightarrow> 'a Segmented \<Rightarrow> 'a Segmented \<Rightarrow> 'a list" where
  "merged add zero s t = slots add zero (seg_slots s t)
     (slot_of s (seg_start s t)) (sg_Segments s) (slot_of t (seg_start s t)) (sg_Segments t)"

lemma slots_same: "length xs = length ys \<Longrightarrow> slots add zero (length xs) 0 xs 0 ys = map2 add xs ys"
  by (rule nth_equalityI) (simp_all add: length_slots nth_slots Let_def)

lemma merged_same_start:
  assumes "mergeable s t" and "sg_FirstTime s = sg_FirstTime t"
    and "length (sg_Segments s) = length (sg_Segments t)"
  shows "merged add zero s t = map2 add (sg_Segments s) (sg_Segments t)"
    and "seg_start s t = sg_FirstTime s"
proof -
  show st: "seg_start s t = sg_FirstTime s" using assms(2) by (simp add: seg_start_def)
  note p = mergeable_step(1,2) [OF assms(1)]
  have "seg_end t = seg_end s" using assms(2,3) p by (simp add: seg_end_def)
  then have "seg_slots s t = length (sg_Segments s)"
    using p st by (simp add: seg_slots_def) (simp add: seg_end_def)
  then show "merged add zero s t = map2 add (sg_Segments s) (sg_Segments t)"
    using slots_same [OF assms(3)] assms(2) st by (simp add: merged_def slot_of_def)
qed


text \<open>Every path of the method, the in-place one included, computes these slots.\<close>

lemma Segmented_Add_merged:
  assumes m: "mergeable s t"
  shows "Segmented_Add add zero s (Some t) =
    Some (s\<lparr>sg_FirstTime := seg_start s t, sg_Segments := merged add zero s t\<rparr>)"
proof -
  let ?w = "sg_Interval s * 1000000000 :: i64"
  have ne: "sg_Segments s \<noteq> []" "sg_Segments t \<noteq> []" and iv: "sg_Interval t = sg_Interval s"
    and pos: "sg_Interval s \<noteq> 0"
    and span: "max (seg_end s) (seg_end t) - seg_start s t < 2 ^ 63"
    using m by (auto simp: mergeable_def seg_start_def)
  note p = mergeable_step [OF m]
  have w0: "?w \<noteq> 0" using mergeable_word_step [OF m] p(1) by (metis less_irrefl signed_0)
  have ends: "sg_FirstTime s \<le> seg_end s" "sg_FirstTime t \<le> seg_end t"
    using p(1,2) by (simp_all add: seg_end_def)
  show ?thesis
  proof (cases "sg_FirstTime s = sg_FirstTime t \<and> length (sg_Segments s) = length (sg_Segments t)")
    case True
    then show ?thesis
      using ne iv pos merged_same_start [OF m] by (simp add: Segmented_Add_def)
  next
    case False
    have start: "(if Before (sg_FirstTime t) (sg_FirstTime s) then sg_FirstTime t else sg_FirstTime s)
        = seg_start s t" by (simp add: seg_start_def)
    have total: "sint (if After (seg_end s) (seg_end t)
          then quot64 (Time_Sub (seg_end s) (seg_start s t)) ?w
          else quot64 (Time_Sub (seg_end t) (seg_start s t)) ?w) = int (seg_slots s t)"
      using span ends p(1) mergeable_quot [OF m]
      by (auto simp: seg_slots_def seg_start_def pos_imp_zdiv_nonneg_iff max_def)
    have off: "sint (if After (sg_FirstTime s) (seg_start s t)
          then quot64 (Time_Sub (sg_FirstTime s) (seg_start s t)) ?w else 0)
        = int (slot_of s (seg_start s t))"
      using span ends p(1) mergeable_quot [OF m, of "sg_FirstTime s" "seg_start s t"]
      by (auto simp: slot_of_def seg_start_def pos_imp_zdiv_nonneg_iff)
    have oth: "sint (quot64 (Time_Sub (sg_FirstTime t) (seg_start s t)) ?w)
        = int (slot_of t (seg_start s t))"
      using span ends p(1,2) mergeable_quot [OF m, of "sg_FirstTime t" "seg_start s t"]
      by (auto simp: slot_of_def seg_start_def pos_imp_zdiv_nonneg_iff)
    have ne_path: "(sg_FirstTime s = sg_FirstTime t \<and>
        length (sg_Segments s) = length (sg_Segments t)) = False"
      using False by blast
    show ?thesis
      using ne pos
      by (simp only: Segmented_Add_def Let_def start mergeable_end [OF m] total off oth
          ne_path iv w0 option.case if_False simp_thms of_nat_less_0_iff nat_int
          copy_at_replicate [OF slot_fits [OF m]] merged_def slots_def)
  qed
qed

lemma Segmented_Add_unset [simp]:
  "Segmented_Add add zero s None = Some s"
  "sg_Segments t = [] \<Longrightarrow> Segmented_Add add zero s (Some t) = Some s"
  "sg_Segments t \<noteq> [] \<Longrightarrow> sg_Segments s = [] \<Longrightarrow> Segmented_Add add zero s (Some t) = Some t"
  by (simp_all add: Segmented_Add_def)


subsection \<open>The time line of a series\<close>

definition seg_at :: "'a \<Rightarrow> 'a Segmented \<Rightarrow> gotime \<Rightarrow> 'a" where
  "seg_at zero s x = (if sg_FirstTime s \<le> x \<and> x < seg_end s
     then sg_Segments s ! nat ((x - sg_FirstTime s) div seg_step s) else zero)"

lemma seg_at_slot:
  assumes p: "0 < seg_step s" and f: "sg_FirstTime s = y + int i * seg_step s" and "y \<le> x"
  shows "seg_at zero s x =
    (let k = nat ((x - y) div seg_step s)
     in if i \<le> k \<and> k < i + length (sg_Segments s) then sg_Segments s ! (k - i) else zero)"
proof -
  let ?p = "seg_step s" and ?q = "(x - y) div seg_step s"
  have q0: "0 \<le> ?q" using p assms(3) by (simp add: pos_imp_zdiv_nonneg_iff)
  have lo: "int i \<le> ?q \<longleftrightarrow> sg_FirstTime s \<le> x"
    using f by (auto simp: int_le_div_iff [OF p])
  have hi: "?q < int i + int (length (sg_Segments s)) \<longleftrightarrow> x < seg_end s"
    using f by (auto simp: int_div_less_iff [OF p] seg_end_def algebra_simps)
  have "(x - sg_FirstTime s) div ?p = ?q - int i"
  proof -
    have e: "x - sg_FirstTime s = (x - y) + (- int i) * ?p" using f by simp
    show ?thesis unfolding e using p by (subst div_mult_self1) simp_all
  qed
  then show ?thesis
    using lo hi q0 by (auto simp: seg_at_def Let_def nat_diff_distrib')
qed

lemma aligned_slot:
  assumes "mergeable s t" and "aligned s t"
  shows "sg_FirstTime s = seg_start s t + int (slot_of s (seg_start s t)) * seg_step s"
    and "sg_FirstTime t = seg_start s t + int (slot_of t (seg_start s t)) * seg_step t"
    and "max (seg_end s) (seg_end t) = seg_start s t + int (seg_slots s t) * seg_step s"
proof -
  let ?p = "seg_step s" and ?y = "seg_start s t"
  note p = mergeable_step(1,2) [OF assms(1)]
  have ds: "?p dvd sg_FirstTime s - sg_FirstTime t" using assms(2) by (simp add: aligned_def)
  then have ds': "?p dvd sg_FirstTime t - sg_FirstTime s" by (simp add: dvd_diff_commute)
  have d1: "?p dvd sg_FirstTime s - ?y" and d2: "?p dvd sg_FirstTime t - ?y"
    using ds ds' by (auto simp: seg_start_def min_def)
  have *: "x = ?y + int (nat ((x - ?y) div ?p)) * ?p" if "?p dvd x - ?y" "?y \<le> x" for x
    using that p(1) by (simp add: pos_imp_zdiv_nonneg_iff)
  show "sg_FirstTime s = ?y + int (slot_of s ?y) * ?p"
    using *[OF d1] by (simp add: slot_of_def seg_start_def)
  show "sg_FirstTime t = ?y + int (slot_of t ?y) * seg_step t"
    using *[OF d2] p(2) by (simp add: slot_of_def seg_start_def)
  have "?p dvd seg_end s - ?y"
    using dvd_add [OF d1 dvd_triv_right [of ?p "int (length (sg_Segments s))"]]
    by (simp add: seg_end_def algebra_simps)
  moreover have "?p dvd seg_end t - ?y"
    using dvd_add [OF d2 dvd_triv_right [of ?p "int (length (sg_Segments t))"]] p(2)
    by (simp add: seg_end_def algebra_simps)
  ultimately have "?p dvd max (seg_end s) (seg_end t) - ?y" by (simp add: max_def)
  moreover have "sg_FirstTime s \<le> seg_end s" using p by (simp add: seg_end_def)
  then have "?y \<le> max (seg_end s) (seg_end t)" by (simp add: seg_start_def)
  ultimately show "max (seg_end s) (seg_end t) = ?y + int (seg_slots s t) * ?p"
    using * by (simp add: seg_slots_def)
qed

context merge_laws
begin

text \<open>Each point of the time line holds the sum of what the two series hold there.\<close>

lemma seg_at_Add:
  assumes m: "mergeable s t" and a: "aligned s t"
    and wf: "list_all wf (sg_Segments s)" "list_all wf (sg_Segments t)"
    and r: "Segmented_Add add zero s (Some t) = Some r"
  shows "seg_at zero r x = add (seg_at zero s x) (seg_at zero t x)"
proof -
  let ?y = "seg_start s t" and ?p = "seg_step s"
  note p = mergeable_step(1,2) [OF m]
  have r': "r = s\<lparr>sg_FirstTime := ?y, sg_Segments := merged add zero s t\<rparr>"
    using Segmented_Add_merged [OF m, of add zero] r by simp
  have len: "length (merged add zero s t) = seg_slots s t"
    by (simp add: merged_def length_slots slot_fits [OF m])
  have step: "seg_step r = ?p" by (simp add: r' seg_step_def)
  show ?thesis
  proof (cases "?y \<le> x")
    case False
    then have "x < sg_FirstTime r" "x < sg_FirstTime s" "x < sg_FirstTime t"
      by (auto simp: r' seg_start_def min_le_iff_disj)
    then show ?thesis by (simp add: seg_at_def zero_left wf_zero)
  next
    case True
    have "sg_FirstTime r = ?y + int 0 * seg_step r" by (simp add: r')
    from seg_at_slot [OF _ this True, of zero]
    have R: "seg_at zero r x = (let k = nat ((x - ?y) div ?p)
        in if k < seg_slots s t then merged add zero s t ! k else zero)"
      using p by (simp add: step) (simp add: r' len Let_def)
    note S = seg_at_slot [OF p(1) aligned_slot(1) [OF m a] True, of zero]
    have "0 < seg_step t" using p by simp
    note T = seg_at_slot [OF this aligned_slot(2) [OF m a] True, of zero]
    show ?thesis
      using slot_fits [OF m] slot_fits_other [OF m] p(2) wf
      by (auto simp: R S T merged_def nth_slots Let_def zero_left zero_right wf_zero list_all_length)
  qed
qed

end

context merge_comm
begin

lemma merged_comm:
  assumes m: "mergeable s t"
    and wf: "list_all wf (sg_Segments s)" "list_all wf (sg_Segments t)"
    and w: "\<And>v u. v \<in> set (sg_Segments s) \<Longrightarrow> u \<in> set (sg_Segments t) \<Longrightarrow> weight v + weight u < cap"
  shows "merged add zero s t = merged add zero t s"
proof (rule nth_equalityI)
  show len: "length (merged add zero s t) = length (merged add zero t s)"
    using slot_fits [OF m] slot_fits_other [OF m] seg_slots_sym [OF m]
    by (simp add: merged_def length_slots seg_start_sym [of t s])
  fix k assume "k < length (merged add zero s t)"
  then have "k < seg_slots s t"
    by (simp add: merged_def length_slots slot_fits [OF m])
  then show "merged add zero s t ! k = merged add zero t s ! k"
    using slot_fits [OF m] slot_fits_other [OF m] seg_slots_sym [OF m] wf w
    by (auto simp: merged_def nth_slots Let_def seg_start_sym [of t s] list_all_length
        zero_left zero_right wf_zero intro!: add_comm)
qed

lemma Segmented_Add_comm:
  assumes m: "mergeable s t"
    and "list_all wf (sg_Segments s)" "list_all wf (sg_Segments t)"
    and "\<And>v u. v \<in> set (sg_Segments s) \<Longrightarrow> u \<in> set (sg_Segments t) \<Longrightarrow> weight v + weight u < cap"
  shows "Segmented_Add add zero s (Some t) = Segmented_Add add zero t (Some s)"
proof -
  have "sg_Interval s = sg_Interval t" using m by (simp add: mergeable_def)
  then show ?thesis
    using merged_comm [OF m] assms(2-4) seg_start_sym [of s t]
    by (simp add: Segmented_Add_merged m mergeable_sym)
qed

lemma total_update:
  assumes "j < length ns" and "list_all wf ns" and "wf y" and "weight y + total_weight weight ns < cap"
  shows "add_all add (ns[j := add (ns ! j) y]) zero = add y (add_all add ns zero)"
    and "list_all wf (ns[j := add (ns ! j) y])"
    and "total_weight weight (ns[j := add (ns ! j) y]) = weight y + total_weight weight ns"
proof -
  let ?n = "ns ! j" and ?r = "take j ns @ drop (Suc j) ns"
  have ns: "ns = take j ns @ ?n # drop (Suc j) ns" by (rule id_take_nth_drop [OF assms(1)])
  have up: "ns[j := v] = take j ns @ v # drop (Suc j) ns" for v
    by (rule upd_conv_take_nth_drop [OF assms(1)])
  have m: "mset ns = mset (?n # ?r)" by (subst ns) simp
  have mu: "mset (ns[j := v]) = mset (v # ?r)" for v by (simp add: up)
  have w: "total_weight weight ns = weight ?n + total_weight weight ?r"
    by (metis m mset_map sum_mset_sum_list list.simps(9) sum_list.Cons)
  have wu: "total_weight weight (ns[j := v]) = weight v + total_weight weight ?r" for v
    by (metis mu mset_map sum_mset_sum_list list.simps(9) sum_list.Cons)
  have wfs: "wf ?n" "list_all wf ?r"
    using assms(1,2) by (auto simp: list_all_iff dest: in_set_takeD in_set_dropD)
  have wn: "wf (add ?n y)" "weight (add ?n y) = weight ?n + weight y"
    using assms(3,4) wfs w by (auto intro: wf_add weight_add)
  let ?R = "add_all add ?r zero"
  have R: "wf ?R" "weight ?R = total_weight weight ?r"
    using wf_weight_add_all [OF wf_zero wfs(2)] assms(4) w by (simp_all add: weight_zero)
  show u: "list_all wf (ns[j := add ?n y])"
    using assms(2) wn set_update_subset_insert [of ns j "add ?n y"] by (auto simp: list_all_iff)
  show "total_weight weight (ns[j := add ?n y]) = weight y + total_weight weight ns"
    using wu [of "add ?n y"] wn w by simp
  have "add_all add (ns[j := add ?n y]) zero = add (add ?n y) ?R"
    using total_perm [OF mu u] total_Cons [OF wn(1) wfs(2)] wu [of "add ?n y"] wn w assms(4) by simp
  also have "\<dots> = add (add y ?n) ?R"
    using add_comm [of ?n y] wfs assms(3,4) w by simp
  also have "\<dots> = add y (add ?n ?R)"
    using add_assoc [of y ?n ?R] R wfs assms(3,4) w by simp
  also have "add ?n ?R = add_all add ns zero"
    using total_perm [OF m assms(2)] total_Cons [OF wfs] w assms(4) by simp
  finally show "add_all add (ns[j := add ?n y]) zero = add y (add_all add ns zero)" .
qed

lemma total_overlay:
  "j + length ys \<le> length ns \<Longrightarrow> list_all wf ns \<Longrightarrow> list_all wf ys \<Longrightarrow>
   total_weight weight ns + total_weight weight ys < cap \<Longrightarrow>
   add_all add (overlay add (int j) ns ys) zero = add (add_all add ns zero) (add_all add ys zero)"
proof (induction ys arbitrary: j ns)
  case Nil
  then show ?case
    using wf_weight_add_all [OF wf_zero Nil(2)] by (simp add: zero_right weight_zero)
next
  case (Cons y ys)
  let ?ns = "ns[j := add (ns ! j) y]"
  have y: "wf y" "list_all wf ys" using Cons.prems(3) by simp_all
  note u = total_update [of j ns y, OF _ Cons.prems(2) y(1)]
  have N: "wf (add_all add ns zero)" "weight (add_all add ns zero) = total_weight weight ns"
    and Y: "wf (add_all add ys zero)" "weight (add_all add ys zero) = total_weight weight ys"
    using wf_weight_add_all [OF wf_zero Cons.prems(2)] wf_weight_add_all [OF wf_zero y(2)] Cons.prems(4)
    by (simp_all add: weight_zero)
  have "overlay add (int j) ns (y # ys) = overlay add (int (Suc j)) ?ns ys"
    using Cons.prems(1) by (simp add: add.commute)
  then have "add_all add (overlay add (int j) ns (y # ys)) zero =
      add (add_all add ?ns zero) (add_all add ys zero)"
    using Cons.IH [of "Suc j" ?ns] u y Cons.prems by simp
  also have "\<dots> = add (add (add_all add ns zero) y) (add_all add ys zero)"
    using u(1) add_comm [OF y(1) N(1)] N(2) Cons.prems by simp
  also have "\<dots> = add (add_all add ns zero) (add y (add_all add ys zero))"
    using N Y y Cons.prems(4) by (intro add_assoc) simp_all
  also have "add y (add_all add ys zero) = add_all add (y # ys) zero"
    using total_Cons [OF y] Cons.prems(4) by simp
  finally show ?case .
qed

text \<open>Merging two series adds their totals: no slot is lost or counted twice.\<close>

lemma Segmented_Total_Add:
  assumes m: "mergeable s t"
    and wf: "list_all wf (sg_Segments s)" "list_all wf (sg_Segments t)"
    and w: "total_weight weight (sg_Segments s) + total_weight weight (sg_Segments t) < cap"
    and r: "Segmented_Add add zero s (Some t) = Some r"
  shows "Segmented_Total add zero (Some r) =
    add (Segmented_Total add zero (Some s)) (Segmented_Total add zero (Some t))"
proof -
  let ?i = "slot_of s (seg_start s t)" and ?n = "seg_slots s t" and ?xs = "sg_Segments s"
  let ?ns = "replicate ?i zero @ ?xs @ replicate (?n - ?i - length ?xs) zero"
  have zs: "add_all add (replicate k zero) a = a" if "wf a" for k a
    using that by (induction k) (simp_all add: zero_right)
  have X: "wf (add_all add ?xs zero)"
    using wf_weight_add_all [OF wf_zero wf(1)] w by (simp add: weight_zero)
  have base: "add_all add ?ns zero = add_all add ?xs zero"
    by (simp add: add_all_append zs wf_zero X)
  have "add_all add (overlay add (int (slot_of t (seg_start s t))) ?ns (sg_Segments t)) zero =
      add (add_all add ?ns zero) (add_all add (sg_Segments t) zero)"
  proof (rule total_overlay)
    show "list_all wf ?ns" using wf(1) wf_zero by (auto simp: list_all_iff)
    show "total_weight weight ?ns + total_weight weight (sg_Segments t) < cap"
      using w by (simp add: weight_zero sum_list_replicate)
    show "slot_of t (seg_start s t) + length (sg_Segments t) \<le> length ?ns"
      using slot_fits [OF m] slot_fits_other [OF m] by simp
  qed (rule wf(2))
  moreover have "sg_Segments r = merged add zero s t"
    using r Segmented_Add_merged [OF m, of add zero] by auto
  ultimately show ?thesis
    by (simp only: Segmented_Total_def option.case merged_def slots_def base)
qed


lemma overlay_wf:
  "j + length ys \<le> length ns \<Longrightarrow> list_all wf ns \<Longrightarrow> list_all wf ys \<Longrightarrow>
   total_weight weight ns + total_weight weight ys < cap \<Longrightarrow>
   list_all wf (overlay add (int j) ns ys) \<and>
   total_weight weight (overlay add (int j) ns ys) = total_weight weight ns + total_weight weight ys"
proof (induction ys arbitrary: j ns)
  case (Cons y ys)
  have e: "overlay add (int j) ns (y # ys) = overlay add (int (Suc j)) (ns[j := add (ns ! j) y]) ys"
    using Cons.prems(1) by (simp add: add.commute)
  note u = total_update [of j ns y]
  show ?case
    unfolding e using Cons.IH [of "Suc j" "ns[j := add (ns ! j) y]"] u Cons.prems by simp
qed simp

lemma merged_wf:
  assumes m: "mergeable s t"
    and wf: "list_all wf (sg_Segments s)" "list_all wf (sg_Segments t)"
    and w: "total_weight weight (sg_Segments s) + total_weight weight (sg_Segments t) < cap"
  shows "list_all wf (merged add zero s t) \<and> total_weight weight (merged add zero s t) =
    total_weight weight (sg_Segments s) + total_weight weight (sg_Segments t)"
proof -
  let ?i = "slot_of s (seg_start s t)" and ?n = "seg_slots s t" and ?xs = "sg_Segments s"
  let ?ns = "replicate ?i zero @ ?xs @ replicate (?n - ?i - length ?xs) zero"
  have "total_weight weight ?ns = total_weight weight ?xs"
    by (simp add: weight_zero sum_list_replicate)
  moreover have "slot_of t (seg_start s t) + length (sg_Segments t) \<le> length ?ns"
    using slot_fits [OF m] slot_fits_other [OF m] by simp
  moreover have "list_all wf ?ns" using wf(1) wf_zero by (auto simp: list_all_iff)
  ultimately show ?thesis
    using overlay_wf [of _ "sg_Segments t" ?ns, OF _ _ wf(2)] w
    unfolding merged_def slots_def by metis
qed

end

subsection \<open>Merging many series\<close>

fun Segmented_Add_all ::
  "('a \<Rightarrow> 'a \<Rightarrow> 'a) \<Rightarrow> 'a \<Rightarrow> 'a Segmented list \<Rightarrow> 'a Segmented \<Rightarrow> 'a Segmented option" where
  "Segmented_Add_all add zero [] s = Some s"
| "Segmented_Add_all add zero (x # xs) s = (case Segmented_Add add zero s (Some x) of None \<Rightarrow> None
     | Some s \<Rightarrow> Segmented_Add_all add zero xs s)"

text \<open>A series is empty, or it has the interval \<open>iv\<close> and lies between \<open>lo\<close> and \<open>hi\<close>.\<close>

definition in_window :: "i64 \<Rightarrow> gotime \<Rightarrow> gotime \<Rightarrow> 'a Segmented \<Rightarrow> bool" where
  "in_window iv lo hi s \<longleftrightarrow> 0 < sint iv \<and> hi - lo < 2 ^ 63 \<and> (sg_Segments s \<noteq> [] \<longrightarrow>
     sg_Interval s = iv \<and> lo \<le> sg_FirstTime s \<and> seg_end s \<le> hi)"

lemma in_window_mergeable:
  "in_window iv lo hi s \<Longrightarrow> in_window iv lo hi t \<Longrightarrow> sg_Segments s \<noteq> [] \<Longrightarrow> sg_Segments t \<noteq> [] \<Longrightarrow>
   mergeable s t"
  by (auto simp: in_window_def mergeable_def)

lemma in_window_Add:
  assumes "in_window iv lo hi s" "in_window iv lo hi t"
  obtains r where "Segmented_Add add zero s (Some t) = Some r" "in_window iv lo hi r"
proof -
  consider "sg_Segments t = []" | "sg_Segments t \<noteq> []" "sg_Segments s = []"
    | "sg_Segments t \<noteq> []" "sg_Segments s \<noteq> []" by blast
  then show thesis
  proof cases
    case 3
    note m = in_window_mergeable [OF assms 3(2,1)]
    let ?r = "s\<lparr>sg_FirstTime := seg_start s t, sg_Segments := merged add zero s t\<rparr>"
    have len: "length (merged add zero s t) = seg_slots s t"
      by (simp add: merged_def length_slots slot_fits [OF m])
    have p: "0 < seg_step s" by (rule mergeable_step(1) [OF m])
    have ends: "sg_FirstTime s \<le> seg_end s" using p by (simp add: seg_end_def)
    let ?d = "max (seg_end s) (seg_end t) - seg_start s t"
    have q: "?d div seg_step s * seg_step s \<le> ?d"
      using int_le_div_iff [OF p, of "?d div seg_step s" ?d] by simp
    have "0 \<le> ?d" using ends by (simp add: seg_start_def)
    then have n: "int (seg_slots s t) = ?d div seg_step s"
      using p by (simp add: seg_slots_def pos_imp_zdiv_nonneg_iff)
    have "seg_end ?r \<le> max (seg_end s) (seg_end t)"
      using q n len by (simp add: seg_end_def [of ?r] seg_step_def [of ?r] seg_step_def [of s, symmetric])
    then have "in_window iv lo hi ?r"
      using assms 3 by (auto simp: in_window_def seg_start_def)
    then show thesis using Segmented_Add_merged [OF m] that by blast
  qed (use assms that in simp_all)
qed

context merge_comm
begin

abbreviation seg_weight :: "'a Segmented \<Rightarrow> nat" where
  "seg_weight s \<equiv> total_weight weight (sg_Segments s)"

text \<open>Merging the series of a window never panics and adds up to the total of all segments.\<close>

lemma Segmented_Add_all_total:
  "\<forall>x\<in>set xs. in_window iv lo hi x \<and> list_all wf (sg_Segments x) \<Longrightarrow>
   in_window iv lo hi s \<Longrightarrow> list_all wf (sg_Segments s) \<Longrightarrow>
   seg_weight s + sum_list (map seg_weight xs) < cap \<Longrightarrow>
   \<exists>r. Segmented_Add_all add zero xs s = Some r \<and>
     Segmented_Total add zero (Some r) =
       add_all add (sg_Segments s @ concat (map sg_Segments xs)) zero"
proof (induction xs arbitrary: s)
  case Nil
  then show ?case by (simp add: Segmented_Total_def)
next
  case (Cons x xs)
  have x: "in_window iv lo hi x" "list_all wf (sg_Segments x)" using Cons.prems(1) by simp_all
  obtain r where r: "Segmented_Add add zero s (Some x) = Some r" "in_window iv lo hi r"
    by (rule in_window_Add [OF Cons.prems(2) x(1)])
  have "list_all wf (sg_Segments r) \<and> seg_weight r = seg_weight s + seg_weight x \<and>
      add_all add (sg_Segments r) zero =
        add (add_all add (sg_Segments s) zero) (add_all add (sg_Segments x) zero)"
  proof (cases "sg_Segments s = [] \<or> sg_Segments x = []")
    case True
    moreover have "wf (add_all add (sg_Segments s) zero)" "wf (add_all add (sg_Segments x) zero)"
      using wf_weight_add_all [OF wf_zero Cons.prems(3)] wf_weight_add_all [OF wf_zero x(2)] Cons.prems(4)
      by (simp_all add: weight_zero)
    ultimately show ?thesis
      using r(1) x Cons.prems(3) by (cases "sg_Segments x = []") (auto simp: zero_left zero_right)
  next
    case False
    then have m: "mergeable s x" using in_window_mergeable [OF Cons.prems(2) x(1)] by simp
    have w: "seg_weight s + seg_weight x < cap" using Cons.prems(4) by simp
    show ?thesis
      using merged_wf [OF m Cons.prems(3) x(2) w] r(1) Segmented_Add_merged [OF m, of add zero]
        Segmented_Total_Add [OF m Cons.prems(3) x(2) w r(1)]
      by (auto simp: Segmented_Total_def)
  qed
  then have R: "list_all wf (sg_Segments r)" "seg_weight r = seg_weight s + seg_weight x"
    and T: "add_all add (sg_Segments r) zero =
        add (add_all add (sg_Segments s) zero) (add_all add (sg_Segments x) zero)"
    by simp_all
  have "\<exists>q. Segmented_Add_all add zero xs r = Some q \<and> Segmented_Total add zero (Some q) =
      add_all add (sg_Segments r @ concat (map sg_Segments xs)) zero"
    using Cons.prems r(2) R by (intro Cons.IH) simp_all
  moreover have S: "wf (add_all add (sg_Segments s) zero)"
    "weight (add_all add (sg_Segments s) zero) = seg_weight s"
    using wf_weight_add_all [OF wf_zero Cons.prems(3)] Cons.prems(4) by (simp_all add: weight_zero)
  have "add_all add (sg_Segments s @ sg_Segments x) zero =
      add (add_all add (sg_Segments s) zero) (add_all add (sg_Segments x) zero)"
    using add_all_shift [OF S(1) wf_zero x(2)] S Cons.prems(4)
    by (simp add: add_all_append zero_right weight_zero)
  ultimately show ?case using r(1) T by (simp add: add_all_append)
qed

end

end
