(* ===== verification/Request_Stats.thy ===== *)
theory Request_Stats
  imports Segmented
begin

text \<open>
  The statistics of one handler, API or replication target in \<open>metrics.go\<close>: \<open>RPCStats\<close>,
  \<open>APIStats\<close> (with \<open>RejectedAPIStats\<close>), \<open>ReplicationStats\<close> and \<open>ConnectionStats\<close>. The merge
  contract holds for all of them from the zero value; the three request statistics are
  commutative once their time range is left out, because the rule for the time range
  (\<open>merge_time\<close>) is not (\<open>merge_time_not_comm\<close>).
\<close>

subsection \<open>The time range of a merged statistic\<close>

text \<open>
  The two \<open>if\<close> statements the three \<open>Merge\<close> methods have for each bound: \<open>n\<close> is the
  receiver's number of requests before the merge.
\<close>

definition merge_time :: "i64 \<Rightarrow> gotime option \<Rightarrow> gotime option \<Rightarrow> gotime option" where
  "merge_time n a b =
    (let a = (if a = None \<and> n = 0 then b else a)
     in case (a, b) of (Some x, Some y) \<Rightarrow> (if x \<noteq> y then None else a) | _ \<Rightarrow> a)"

lemma merge_time_simps [simp]:
  "merge_time n a None = a"
  "merge_time 0 None b = b"
  "n \<noteq> 0 \<Longrightarrow> merge_time n None b = None"
  "merge_time n (Some x) (Some y) = (if x = y then Some x else None)"
  by (auto simp: merge_time_def split: option.splits)

lemma merge_time_not_comm: "merge_time 1 (Some x) None \<noteq> merge_time 1 None (Some x)"
  by simp

subsection \<open>RPCStats\<close>

record 'f RPCStats =
  rs_StartTime :: "gotime option"
  rs_EndTime :: "gotime option"
  rs_WallTimeSecs :: 'f
  rs_Requests :: i64
  rs_RequestTimeSecs :: 'f
  rs_IncomingBytes :: i64
  rs_OutgoingBytes :: i64

definition RPCStats_zero :: "'f::zero RPCStats" where
  "RPCStats_zero = \<lparr>rs_StartTime = None, rs_EndTime = None, rs_WallTimeSecs = 0, rs_Requests = 0,
     rs_RequestTimeSecs = 0, rs_IncomingBytes = 0, rs_OutgoingBytes = 0\<rparr>"

definition RPCStats_Merge :: "('f::plus) RPCStats \<Rightarrow> 'f RPCStats \<Rightarrow> 'f RPCStats" where
  "RPCStats_Merge a other = a\<lparr>
     rs_StartTime := merge_time (rs_Requests a) (rs_StartTime a) (rs_StartTime other),
     rs_EndTime := merge_time (rs_Requests a) (rs_EndTime a) (rs_EndTime other),
     rs_WallTimeSecs := rs_WallTimeSecs a + rs_WallTimeSecs other,
     rs_Requests := rs_Requests a + rs_Requests other,
     rs_IncomingBytes := rs_IncomingBytes a + rs_IncomingBytes other,
     rs_OutgoingBytes := rs_OutgoingBytes a + rs_OutgoingBytes other,
     rs_RequestTimeSecs := rs_RequestTimeSecs a + rs_RequestTimeSecs other\<rparr>"

definition RPCStats_Add :: "('f::plus) RPCStats \<Rightarrow> 'f RPCStats option \<Rightarrow> 'f RPCStats" where
  "RPCStats_Add a other = (case other of None \<Rightarrow> a | Some other \<Rightarrow> RPCStats_Merge a other)"

definition RPCStats_untimed :: "'f RPCStats \<Rightarrow> bool" where
  "RPCStats_untimed a \<longleftrightarrow> rs_StartTime a = None \<and> rs_EndTime a = None"

lemma RPCStats_Merge_sel [simp]:
  "rs_StartTime (RPCStats_Merge a b) = merge_time (rs_Requests a) (rs_StartTime a) (rs_StartTime b)"
  "rs_EndTime (RPCStats_Merge a b) = merge_time (rs_Requests a) (rs_EndTime a) (rs_EndTime b)"
  "rs_WallTimeSecs (RPCStats_Merge a b) = rs_WallTimeSecs a + rs_WallTimeSecs b"
  "rs_Requests (RPCStats_Merge a b) = rs_Requests a + rs_Requests b"
  "rs_RequestTimeSecs (RPCStats_Merge a b) = rs_RequestTimeSecs a + rs_RequestTimeSecs b"
  "rs_IncomingBytes (RPCStats_Merge a b) = rs_IncomingBytes a + rs_IncomingBytes b"
  "rs_OutgoingBytes (RPCStats_Merge a b) = rs_OutgoingBytes a + rs_OutgoingBytes b"
  by (simp_all add: RPCStats_Merge_def)

lemma RPCStats_zero_sel [simp]:
  "rs_StartTime RPCStats_zero = None" "rs_EndTime RPCStats_zero = None"
  "rs_WallTimeSecs RPCStats_zero = 0" "rs_Requests RPCStats_zero = 0"
  "rs_RequestTimeSecs RPCStats_zero = 0" "rs_IncomingBytes RPCStats_zero = 0"
  "rs_OutgoingBytes RPCStats_zero = 0"
  by (simp_all add: RPCStats_zero_def)

interpretation rpc: merge_laws "\<lambda>_. True" "\<lambda>_. 0" 1
  "RPCStats_zero :: ('f::comm_monoid_add) RPCStats" RPCStats_Merge
  by unfold_locales (simp_all add: RPCStats.equality)

interpretation rpc_untimed: merge_comm RPCStats_untimed "\<lambda>_. 0" 1
  "RPCStats_zero :: ('f::comm_monoid_add) RPCStats" RPCStats_Merge
  by unfold_locales (auto simp: RPCStats_untimed_def add_ac intro!: RPCStats.equality)

subsection \<open>ConnectionStats\<close>

record 'f ConnectionStats =
  cn_Connected :: i64
  cn_Disconnected :: i64
  cn_ReconnectCount :: i64
  cn_OutgoingStreams :: i64
  cn_IncomingStreams :: i64
  cn_OutgoingMessages :: i64
  cn_IncomingMessages :: i64
  cn_OutgoingBytes :: i64
  cn_IncomingBytes :: i64
  cn_OutQueue :: i64
  cn_LastPongTime :: gotime
  cn_LastConnectTime :: gotime
  cn_LastPingMS :: 'f
  cn_MaxPingDurMS :: 'f

definition ConnectionStats_zero :: "'f::zero ConnectionStats" where
  "ConnectionStats_zero = \<lparr>cn_Connected = 0, cn_Disconnected = 0, cn_ReconnectCount = 0,
     cn_OutgoingStreams = 0, cn_IncomingStreams = 0, cn_OutgoingMessages = 0, cn_IncomingMessages = 0,
     cn_OutgoingBytes = 0, cn_IncomingBytes = 0, cn_OutQueue = 0, cn_LastPongTime = 0,
     cn_LastConnectTime = 0, cn_LastPingMS = 0, cn_MaxPingDurMS = 0\<rparr>"

definition ConnectionStats_Merge ::
  "('f::ord) ConnectionStats \<Rightarrow> 'f ConnectionStats option \<Rightarrow> 'f ConnectionStats" where
  "ConnectionStats_Merge c other = (case other of None \<Rightarrow> c | Some other \<Rightarrow>
    (let c = c\<lparr>
           cn_Connected := cn_Connected c + cn_Connected other,
           cn_Disconnected := cn_Disconnected c + cn_Disconnected other,
           cn_ReconnectCount := cn_ReconnectCount c + cn_ReconnectCount other,
           cn_OutgoingStreams := cn_OutgoingStreams c + cn_OutgoingStreams other,
           cn_IncomingStreams := cn_IncomingStreams c + cn_IncomingStreams other,
           cn_OutgoingMessages := cn_OutgoingMessages c + cn_OutgoingMessages other,
           cn_IncomingMessages := cn_IncomingMessages c + cn_IncomingMessages other,
           cn_OutgoingBytes := cn_OutgoingBytes c + cn_OutgoingBytes other,
           cn_IncomingBytes := cn_IncomingBytes c + cn_IncomingBytes other,
           cn_OutQueue := cn_OutQueue c + cn_OutQueue other\<rparr>;
         c = (if Before (cn_LastPongTime c) (cn_LastPongTime other)
              then c\<lparr>cn_LastPongTime := cn_LastPongTime other, cn_LastPingMS := cn_LastPingMS other\<rparr>
              else c);
         c = (if Before (cn_LastConnectTime c) (cn_LastConnectTime other)
              then c\<lparr>cn_LastConnectTime := cn_LastConnectTime other\<rparr> else c)
     in if cn_MaxPingDurMS c < cn_MaxPingDurMS other
        then c\<lparr>cn_MaxPingDurMS := cn_MaxPingDurMS other\<rparr> else c))"

lemma ConnectionStats_Merge_sel [simp]:
  fixes a b :: "('f::linorder) ConnectionStats"
  shows
  "cn_Connected (ConnectionStats_Merge a (Some b)) = cn_Connected a + cn_Connected b"
  "cn_Disconnected (ConnectionStats_Merge a (Some b)) = cn_Disconnected a + cn_Disconnected b"
  "cn_ReconnectCount (ConnectionStats_Merge a (Some b)) = cn_ReconnectCount a + cn_ReconnectCount b"
  "cn_OutgoingStreams (ConnectionStats_Merge a (Some b)) = cn_OutgoingStreams a + cn_OutgoingStreams b"
  "cn_IncomingStreams (ConnectionStats_Merge a (Some b)) = cn_IncomingStreams a + cn_IncomingStreams b"
  "cn_OutgoingMessages (ConnectionStats_Merge a (Some b)) = cn_OutgoingMessages a + cn_OutgoingMessages b"
  "cn_IncomingMessages (ConnectionStats_Merge a (Some b)) = cn_IncomingMessages a + cn_IncomingMessages b"
  "cn_OutgoingBytes (ConnectionStats_Merge a (Some b)) = cn_OutgoingBytes a + cn_OutgoingBytes b"
  "cn_IncomingBytes (ConnectionStats_Merge a (Some b)) = cn_IncomingBytes a + cn_IncomingBytes b"
  "cn_OutQueue (ConnectionStats_Merge a (Some b)) = cn_OutQueue a + cn_OutQueue b"
  "cn_LastPongTime (ConnectionStats_Merge a (Some b)) = max (cn_LastPongTime a) (cn_LastPongTime b)"
  "cn_LastConnectTime (ConnectionStats_Merge a (Some b)) = max (cn_LastConnectTime a) (cn_LastConnectTime b)"
  "cn_LastPingMS (ConnectionStats_Merge a (Some b)) =
     (if cn_LastPongTime a < cn_LastPongTime b then cn_LastPingMS b else cn_LastPingMS a)"
  "cn_MaxPingDurMS (ConnectionStats_Merge a (Some b)) = max (cn_MaxPingDurMS a) (cn_MaxPingDurMS b)"
  by (simp_all add: ConnectionStats_Merge_def Let_def max_def not_less order.strict_implies_order)

lemma ConnectionStats_zero_sel [simp]:
  "cn_Connected ConnectionStats_zero = 0" "cn_Disconnected ConnectionStats_zero = 0"
  "cn_ReconnectCount ConnectionStats_zero = 0" "cn_OutgoingStreams ConnectionStats_zero = 0"
  "cn_IncomingStreams ConnectionStats_zero = 0" "cn_OutgoingMessages ConnectionStats_zero = 0"
  "cn_IncomingMessages ConnectionStats_zero = 0" "cn_OutgoingBytes ConnectionStats_zero = 0"
  "cn_IncomingBytes ConnectionStats_zero = 0" "cn_OutQueue ConnectionStats_zero = 0"
  "cn_LastPongTime ConnectionStats_zero = 0" "cn_LastConnectTime ConnectionStats_zero = 0"
  "cn_LastPingMS ConnectionStats_zero = 0" "cn_MaxPingDurMS ConnectionStats_zero = 0"
  by (simp_all add: ConnectionStats_zero_def)

text \<open>No timestamp is before the zero time, and there is no ping before the first pong.\<close>

definition ConnectionStats_wf :: "('f::{zero,ord}) ConnectionStats \<Rightarrow> bool" where
  "ConnectionStats_wf c \<longleftrightarrow> 0 \<le> cn_LastPongTime c \<and> 0 \<le> cn_LastConnectTime c \<and>
     0 \<le> cn_MaxPingDurMS c \<and> (cn_LastPongTime c = 0 \<longrightarrow> cn_LastPingMS c = 0)"

interpretation conn: merge_laws "ConnectionStats_wf :: ('f::{linorder,zero}) ConnectionStats \<Rightarrow> bool"
  "\<lambda>_. 0" 1 ConnectionStats_zero "\<lambda>a b. ConnectionStats_Merge a (Some b)"
  by unfold_locales
    (auto simp: ConnectionStats_wf_def max_def split: if_splits intro!: ConnectionStats.equality)


subsection \<open>APIStats\<close>

record RejectedAPIStats =
  rj_Auth :: i64
  rj_RequestsTime :: i64
  rj_Header :: i64
  rj_Invalid :: i64
  rj_NotImplemented :: i64

definition RejectedAPIStats_zero :: RejectedAPIStats where
  "RejectedAPIStats_zero = \<lparr>rj_Auth = 0, rj_RequestsTime = 0, rj_Header = 0, rj_Invalid = 0, rj_NotImplemented = 0\<rparr>"

record 'f APIStats =
  as_Nodes :: i64
  as_StartTime :: "gotime option"
  as_EndTime :: "gotime option"
  as_WallTimeSecs :: 'f
  as_Requests :: i64
  as_IncomingBytes :: i64
  as_OutgoingBytes :: i64
  as_Errors4xx :: i64
  as_Errors5xx :: i64
  as_Canceled :: i64
  as_RequestTimeSecs :: 'f
  as_ReqReadSecs :: 'f
  as_RespSecs :: 'f
  as_RespTTFBSecs :: 'f
  as_ReadBlockedSecs :: 'f
  as_WriteBlockedSecs :: 'f
  as_RequestTimeSecsMin :: 'f
  as_RequestTimeSecsMax :: 'f
  as_ReqReadSecsMin :: 'f
  as_ReqReadSecsMax :: 'f
  as_RespSecsMin :: 'f
  as_RespSecsMax :: 'f
  as_RespTTFBSecsMin :: 'f
  as_RespTTFBSecsMax :: 'f
  as_Rejected :: RejectedAPIStats

definition APIStats_zero :: "'f::zero APIStats" where
  "APIStats_zero = \<lparr>
     as_Nodes = 0, as_StartTime = None, as_EndTime = None, as_WallTimeSecs = 0, as_Requests = 0,
     as_IncomingBytes = 0, as_OutgoingBytes = 0, as_Errors4xx = 0, as_Errors5xx = 0,
     as_Canceled = 0, as_RequestTimeSecs = 0, as_ReqReadSecs = 0, as_RespSecs = 0,
     as_RespTTFBSecs = 0, as_ReadBlockedSecs = 0, as_WriteBlockedSecs = 0,
     as_RequestTimeSecsMin = 0, as_RequestTimeSecsMax = 0, as_ReqReadSecsMin = 0,
     as_ReqReadSecsMax = 0, as_RespSecsMin = 0, as_RespSecsMax = 0, as_RespTTFBSecsMin = 0,
     as_RespTTFBSecsMax = 0, as_Rejected = RejectedAPIStats_zero\<rparr>"

text \<open>
  The minima and maxima come last: \<open>at\<close> and \<open>bt\<close> are the two records they are taken
  from, the argument for both when the receiver had no requests (its count then equals the
  argument's after the addition), the receiver for both when the argument has none.
\<close>

definition APIStats_Merge :: "('f::{plus,inf,sup}) APIStats \<Rightarrow> 'f APIStats \<Rightarrow> 'f APIStats" where
  "APIStats_Merge a other =
    (let a = a\<lparr>
           as_StartTime := merge_time (as_Requests a) (as_StartTime a) (as_StartTime other),
           as_EndTime := merge_time (as_Requests a) (as_EndTime a) (as_EndTime other),
           as_Nodes := as_Nodes a + as_Nodes other,
           as_WallTimeSecs := as_WallTimeSecs a + as_WallTimeSecs other,
           as_Requests := as_Requests a + as_Requests other,
           as_IncomingBytes := as_IncomingBytes a + as_IncomingBytes other,
           as_OutgoingBytes := as_OutgoingBytes a + as_OutgoingBytes other,
           as_RequestTimeSecs := as_RequestTimeSecs a + as_RequestTimeSecs other,
           as_ReqReadSecs := as_ReqReadSecs a + as_ReqReadSecs other,
           as_RespSecs := as_RespSecs a + as_RespSecs other,
           as_RespTTFBSecs := as_RespTTFBSecs a + as_RespTTFBSecs other,
           as_Errors4xx := as_Errors4xx a + as_Errors4xx other,
           as_Errors5xx := as_Errors5xx a + as_Errors5xx other,
           as_Canceled := as_Canceled a + as_Canceled other,
           as_Rejected := \<lparr>
             rj_Auth = rj_Auth (as_Rejected a) + rj_Auth (as_Rejected other),
             rj_RequestsTime = rj_RequestsTime (as_Rejected a) + rj_RequestsTime (as_Rejected other),
             rj_Header = rj_Header (as_Rejected a) + rj_Header (as_Rejected other),
             rj_Invalid = rj_Invalid (as_Rejected a) + rj_Invalid (as_Rejected other),
             rj_NotImplemented = rj_NotImplemented (as_Rejected a) + rj_NotImplemented (as_Rejected other)\<rparr>,
           as_ReadBlockedSecs := as_ReadBlockedSecs a + as_ReadBlockedSecs other,
           as_WriteBlockedSecs := as_WriteBlockedSecs a + as_WriteBlockedSecs other\<rparr>
     in if as_Requests a = 0 \<and> as_Requests other = 0 then a
     else
       let at = (if as_Requests a = as_Requests other then other else a);
           bt = (if as_Requests other = 0 then at else other)
       in a\<lparr>
         as_RequestTimeSecsMin := inf (as_RequestTimeSecsMin at) (as_RequestTimeSecsMin bt),
         as_RequestTimeSecsMax := sup (as_RequestTimeSecsMax at) (as_RequestTimeSecsMax bt),
         as_ReqReadSecsMin := inf (as_ReqReadSecsMin at) (as_ReqReadSecsMin bt),
         as_ReqReadSecsMax := sup (as_ReqReadSecsMax at) (as_ReqReadSecsMax bt),
         as_RespSecsMin := inf (as_RespSecsMin at) (as_RespSecsMin bt),
         as_RespSecsMax := sup (as_RespSecsMax at) (as_RespSecsMax bt),
         as_RespTTFBSecsMin := inf (as_RespTTFBSecsMin at) (as_RespTTFBSecsMin bt),
         as_RespTTFBSecsMax := sup (as_RespTTFBSecsMax at) (as_RespTTFBSecsMax bt)\<rparr>)"

definition APIStats_Add :: "('f::{plus,inf,sup}) APIStats \<Rightarrow> 'f APIStats option \<Rightarrow> 'f APIStats" where
  "APIStats_Add a other = (case other of None \<Rightarrow> a | Some other \<Rightarrow> APIStats_Merge a other)"

text \<open>Combining an extremum: only records with requests take part.\<close>

definition pick :: "('f \<Rightarrow> 'f \<Rightarrow> 'f) \<Rightarrow> i64 \<Rightarrow> i64 \<Rightarrow> 'f \<Rightarrow> 'f \<Rightarrow> 'f" where
  "pick f n m x y = (if m = 0 then x else if n = 0 then y else f x y)"

lemma APIStats_Merge_sel [simp]:
  fixes a b :: "('f::{plus,lattice}) APIStats"
  shows
  "as_StartTime (APIStats_Merge a b) = merge_time (as_Requests a) (as_StartTime a) (as_StartTime b)"
  "as_EndTime (APIStats_Merge a b) = merge_time (as_Requests a) (as_EndTime a) (as_EndTime b)"
  "as_Nodes (APIStats_Merge a b) = as_Nodes a + as_Nodes b"
  "as_Requests (APIStats_Merge a b) = as_Requests a + as_Requests b"
  "as_IncomingBytes (APIStats_Merge a b) = as_IncomingBytes a + as_IncomingBytes b"
  "as_OutgoingBytes (APIStats_Merge a b) = as_OutgoingBytes a + as_OutgoingBytes b"
  "as_Errors4xx (APIStats_Merge a b) = as_Errors4xx a + as_Errors4xx b"
  "as_Errors5xx (APIStats_Merge a b) = as_Errors5xx a + as_Errors5xx b"
  "as_Canceled (APIStats_Merge a b) = as_Canceled a + as_Canceled b"
  "as_WallTimeSecs (APIStats_Merge a b) = as_WallTimeSecs a + as_WallTimeSecs b"
  "as_RequestTimeSecs (APIStats_Merge a b) = as_RequestTimeSecs a + as_RequestTimeSecs b"
  "as_ReqReadSecs (APIStats_Merge a b) = as_ReqReadSecs a + as_ReqReadSecs b"
  "as_RespSecs (APIStats_Merge a b) = as_RespSecs a + as_RespSecs b"
  "as_RespTTFBSecs (APIStats_Merge a b) = as_RespTTFBSecs a + as_RespTTFBSecs b"
  "as_ReadBlockedSecs (APIStats_Merge a b) = as_ReadBlockedSecs a + as_ReadBlockedSecs b"
  "as_WriteBlockedSecs (APIStats_Merge a b) = as_WriteBlockedSecs a + as_WriteBlockedSecs b"
  "rj_Auth (as_Rejected (APIStats_Merge a b)) = rj_Auth (as_Rejected a) + rj_Auth (as_Rejected b)"
  "rj_RequestsTime (as_Rejected (APIStats_Merge a b)) = rj_RequestsTime (as_Rejected a) + rj_RequestsTime (as_Rejected b)"
  "rj_Header (as_Rejected (APIStats_Merge a b)) = rj_Header (as_Rejected a) + rj_Header (as_Rejected b)"
  "rj_Invalid (as_Rejected (APIStats_Merge a b)) = rj_Invalid (as_Rejected a) + rj_Invalid (as_Rejected b)"
  "rj_NotImplemented (as_Rejected (APIStats_Merge a b)) = rj_NotImplemented (as_Rejected a) + rj_NotImplemented (as_Rejected b)"
  "as_RequestTimeSecsMin (APIStats_Merge a b) =
     pick inf (as_Requests a) (as_Requests b) (as_RequestTimeSecsMin a) (as_RequestTimeSecsMin b)"
  "as_RequestTimeSecsMax (APIStats_Merge a b) =
     pick sup (as_Requests a) (as_Requests b) (as_RequestTimeSecsMax a) (as_RequestTimeSecsMax b)"
  "as_ReqReadSecsMin (APIStats_Merge a b) =
     pick inf (as_Requests a) (as_Requests b) (as_ReqReadSecsMin a) (as_ReqReadSecsMin b)"
  "as_ReqReadSecsMax (APIStats_Merge a b) =
     pick sup (as_Requests a) (as_Requests b) (as_ReqReadSecsMax a) (as_ReqReadSecsMax b)"
  "as_RespSecsMin (APIStats_Merge a b) =
     pick inf (as_Requests a) (as_Requests b) (as_RespSecsMin a) (as_RespSecsMin b)"
  "as_RespSecsMax (APIStats_Merge a b) =
     pick sup (as_Requests a) (as_Requests b) (as_RespSecsMax a) (as_RespSecsMax b)"
  "as_RespTTFBSecsMin (APIStats_Merge a b) =
     pick inf (as_Requests a) (as_Requests b) (as_RespTTFBSecsMin a) (as_RespTTFBSecsMin b)"
  "as_RespTTFBSecsMax (APIStats_Merge a b) =
     pick sup (as_Requests a) (as_Requests b) (as_RespTTFBSecsMax a) (as_RespTTFBSecsMax b)"
  by (simp_all add: APIStats_Merge_def Let_def pick_def)

lemma APIStats_zero_sel [simp]:
  "as_Nodes APIStats_zero = 0"
  "as_StartTime APIStats_zero = None"
  "as_EndTime APIStats_zero = None"
  "as_WallTimeSecs APIStats_zero = 0"
  "as_Requests APIStats_zero = 0"
  "as_IncomingBytes APIStats_zero = 0"
  "as_OutgoingBytes APIStats_zero = 0"
  "as_Errors4xx APIStats_zero = 0"
  "as_Errors5xx APIStats_zero = 0"
  "as_Canceled APIStats_zero = 0"
  "as_RequestTimeSecs APIStats_zero = 0"
  "as_ReqReadSecs APIStats_zero = 0"
  "as_RespSecs APIStats_zero = 0"
  "as_RespTTFBSecs APIStats_zero = 0"
  "as_ReadBlockedSecs APIStats_zero = 0"
  "as_WriteBlockedSecs APIStats_zero = 0"
  "as_RequestTimeSecsMin APIStats_zero = 0"
  "as_RequestTimeSecsMax APIStats_zero = 0"
  "as_ReqReadSecsMin APIStats_zero = 0"
  "as_ReqReadSecsMax APIStats_zero = 0"
  "as_RespSecsMin APIStats_zero = 0"
  "as_RespSecsMax APIStats_zero = 0"
  "as_RespTTFBSecsMin APIStats_zero = 0"
  "as_RespTTFBSecsMax APIStats_zero = 0"
  "as_Rejected APIStats_zero = RejectedAPIStats_zero"
  "rj_Auth RejectedAPIStats_zero = 0"
  "rj_RequestsTime RejectedAPIStats_zero = 0"
  "rj_Header RejectedAPIStats_zero = 0"
  "rj_Invalid RejectedAPIStats_zero = 0"
  "rj_NotImplemented RejectedAPIStats_zero = 0"
  by (simp_all add: APIStats_zero_def RejectedAPIStats_zero_def)

text \<open>Request counts are not negative, and without requests there is no minimum or maximum.\<close>

definition APIStats_wf :: "('f::zero) APIStats \<Rightarrow> bool" where
  "APIStats_wf a \<longleftrightarrow> 0 \<le> sint (as_Requests a) \<and> (as_Requests a = 0 \<longrightarrow>
     as_RequestTimeSecsMin a = 0 \<and> as_RequestTimeSecsMax a = 0 \<and>
     as_ReqReadSecsMin a = 0 \<and> as_ReqReadSecsMax a = 0 \<and>
     as_RespSecsMin a = 0 \<and> as_RespSecsMax a = 0 \<and>
     as_RespTTFBSecsMin a = 0 \<and> as_RespTTFBSecsMax a = 0)"

definition APIStats_untimed :: "('f::zero) APIStats \<Rightarrow> bool" where
  "APIStats_untimed a \<longleftrightarrow> APIStats_wf a \<and> as_StartTime a = None \<and> as_EndTime a = None"

abbreviation APIStats_weight :: "'f APIStats \<Rightarrow> nat" where
  "APIStats_weight a \<equiv> nat (sint (as_Requests a))"

lemma pick_comm:
  "(n = 0 \<Longrightarrow> x = z) \<Longrightarrow> (m = 0 \<Longrightarrow> y = z) \<Longrightarrow> (\<And>u v. f u v = f v u) \<Longrightarrow>
   pick f n m x y = pick f m n y x"
  by (auto simp: pick_def)

lemma pick_zero_left: "(m = 0 \<Longrightarrow> y = z) \<Longrightarrow> pick f 0 m z y = y"
  by (simp add: pick_def)

lemma pick_zero_right [simp]: "pick f n 0 x y = x"
  by (simp add: pick_def)

lemma pick_assoc:
  "(n + m = 0 \<longleftrightarrow> n = 0 \<and> m = 0) \<Longrightarrow> (m + k = 0 \<longleftrightarrow> m = 0 \<and> k = 0) \<Longrightarrow>
   (\<And>u v w. f (f u v) w = f u (f v w)) \<Longrightarrow>
   pick f (n + m) k (pick f n m x y) z = pick f n (m + k) x (pick f m k y z)"
  by (auto simp: pick_def)

lemma APIStats_Merge_zero_left:
  "APIStats_wf a \<Longrightarrow> APIStats_Merge APIStats_zero a = (a :: ('f::{lattice,comm_monoid_add}) APIStats)"
  by (rule APIStats.equality, simp_all only: APIStats_Merge_sel APIStats_zero_sel merge_time_simps
      add_0_left)
    (auto simp: APIStats_wf_def intro!: pick_zero_left RejectedAPIStats.equality)

lemma APIStats_Merge_zero_right:
  "APIStats_Merge a APIStats_zero = (a :: ('f::{lattice,comm_monoid_add}) APIStats)"
  by (rule APIStats.equality) (auto intro!: RejectedAPIStats.equality)

lemma APIStats_wf_zero: "APIStats_wf APIStats_zero"
  by (simp add: APIStats_wf_def)

lemma APIStats_wf_Merge:
  fixes a b :: "('f::{lattice,comm_monoid_add}) APIStats"
  assumes "APIStats_wf a" "APIStats_wf b" "APIStats_weight a + APIStats_weight b < 2 ^ 63"
  shows "APIStats_wf (APIStats_Merge a b)"
    and "APIStats_weight (APIStats_Merge a b) = APIStats_weight a + APIStats_weight b"
proof -
  have s: "sint (as_Requests a + as_Requests b) = sint (as_Requests a) + sint (as_Requests b)"
    and z: "as_Requests a + as_Requests b = 0 \<longleftrightarrow> as_Requests a = 0 \<and> as_Requests b = 0"
    by (rule sint_add_nowrap64 add_eq_0_signed64; use assms in \<open>simp add: APIStats_wf_def\<close>)+
  show "APIStats_wf (APIStats_Merge a b)"
    using assms(1,2) by (simp add: APIStats_wf_def s z)
  show "APIStats_weight (APIStats_Merge a b) = APIStats_weight a + APIStats_weight b"
    using assms(1,2) by (simp add: APIStats_wf_def s nat_add_distrib)
qed

lemma APIStats_Merge_comm:
  fixes a b :: "('f::{lattice,comm_monoid_add}) APIStats"
  assumes "APIStats_untimed a" "APIStats_untimed b"
  shows "APIStats_Merge a b = APIStats_Merge b a"
  by (rule APIStats.equality, simp_all only: APIStats_Merge_sel)
    (use assms in \<open>auto simp: APIStats_untimed_def APIStats_wf_def add.commute inf.commute sup.commute
      intro!: pick_comm RejectedAPIStats.equality\<close>)

lemma APIStats_Merge_assoc:
  fixes a b c :: "('f::{lattice,comm_monoid_add}) APIStats"
  assumes "APIStats_untimed a" "APIStats_untimed b" "APIStats_untimed c"
    and "APIStats_weight a + APIStats_weight b + APIStats_weight c < 2 ^ 63"
  shows "APIStats_Merge (APIStats_Merge a b) c = APIStats_Merge a (APIStats_Merge b c)"
proof -
  have "as_Requests a + as_Requests b = 0 \<longleftrightarrow> as_Requests a = 0 \<and> as_Requests b = 0"
    and "as_Requests b + as_Requests c = 0 \<longleftrightarrow> as_Requests b = 0 \<and> as_Requests c = 0"
    by (rule add_eq_0_signed64; use assms in \<open>simp add: APIStats_untimed_def APIStats_wf_def\<close>)+
  note pa = pick_assoc [OF this]
  show ?thesis
    by (rule APIStats.equality, simp_all only: APIStats_Merge_sel)
      (use assms(1-3) in \<open>auto simp: APIStats_untimed_def add.assoc inf.assoc sup.assoc
        intro!: pa RejectedAPIStats.equality\<close>)
qed

interpretation api: merge_laws "APIStats_wf :: ('f::{lattice,comm_monoid_add}) APIStats \<Rightarrow> bool"
  APIStats_weight "2 ^ 63" APIStats_zero APIStats_Merge
  by unfold_locales (simp_all only: APIStats_wf_zero APIStats_wf_Merge APIStats_Merge_zero_left
      APIStats_Merge_zero_right APIStats_zero_sel signed_0 nat_zero_as_int)

interpretation api_untimed: merge_comm "APIStats_untimed :: ('f::{lattice,comm_monoid_add}) APIStats \<Rightarrow> bool"
  APIStats_weight "2 ^ 63" APIStats_zero APIStats_Merge
  by unfold_locales
    (simp_all only: APIStats_Merge_comm APIStats_Merge_assoc, simp_all add: APIStats_untimed_def
      APIStats_wf_zero APIStats_wf_Merge APIStats_Merge_zero_left APIStats_Merge_zero_right
      del: APIStats_Merge_sel(4-))

subsection \<open>ReplicationStats\<close>

record 'f ReplicationStats =
  rp_Nodes :: i64
  rp_StartTime :: "gotime option"
  rp_EndTime :: "gotime option"
  rp_WallTimeSecs :: 'f
  rp_Events :: i64
  rp_Bytes :: i64
  rp_EventTimeSecs :: 'f
  rp_LatencySecs :: 'f
  rp_MaxLatencySecs :: 'f
  rp_PutObject :: i64
  rp_UpdateMeta :: i64
  rp_DelObject :: i64
  rp_DelTag :: i64
  rp_PutErrors :: i64
  rp_UpdateMetaErrors :: i64
  rp_DelErrors :: i64
  rp_DelTagErrors :: i64
  rp_Synced :: i64
  rp_AlreadyOK :: i64
  rp_Rejected :: i64
  rp_ProxyEvents :: i64
  rp_ProxyBytes :: i64
  rp_ProxyHead :: i64
  rp_ProxyGet :: i64
  rp_ProxyGetTag :: i64
  rp_ProxyHeadOK :: i64
  rp_ProxyGetOK :: i64
  rp_ProxyGetTagOK :: i64

definition ReplicationStats_zero :: "'f::zero ReplicationStats" where
  "ReplicationStats_zero = \<lparr>
     rp_Nodes = 0, rp_StartTime = None, rp_EndTime = None, rp_WallTimeSecs = 0, rp_Events = 0,
     rp_Bytes = 0, rp_EventTimeSecs = 0, rp_LatencySecs = 0, rp_MaxLatencySecs = 0,
     rp_PutObject = 0, rp_UpdateMeta = 0, rp_DelObject = 0, rp_DelTag = 0, rp_PutErrors = 0,
     rp_UpdateMetaErrors = 0, rp_DelErrors = 0, rp_DelTagErrors = 0, rp_Synced = 0,
     rp_AlreadyOK = 0, rp_Rejected = 0, rp_ProxyEvents = 0, rp_ProxyBytes = 0, rp_ProxyHead = 0,
     rp_ProxyGet = 0, rp_ProxyGetTag = 0, rp_ProxyHeadOK = 0, rp_ProxyGetOK = 0,
     rp_ProxyGetTagOK = 0\<rparr>"

definition ReplicationStats_Add ::
  "('f::{plus,sup}) ReplicationStats \<Rightarrow> 'f ReplicationStats option \<Rightarrow> 'f ReplicationStats" where
  "ReplicationStats_Add a other = (case other of None \<Rightarrow> a | Some other \<Rightarrow>
    if rp_Nodes other = 0 then a
    else a\<lparr>
      rp_StartTime := merge_time (rp_Events a) (rp_StartTime a) (rp_StartTime other),
      rp_EndTime := merge_time (rp_Events a) (rp_EndTime a) (rp_EndTime other),
      rp_Nodes := rp_Nodes a + rp_Nodes other,
      rp_WallTimeSecs := rp_WallTimeSecs a + rp_WallTimeSecs other,
      rp_Events := rp_Events a + rp_Events other,
      rp_Bytes := rp_Bytes a + rp_Bytes other,
      rp_EventTimeSecs := rp_EventTimeSecs a + rp_EventTimeSecs other,
      rp_PutObject := rp_PutObject a + rp_PutObject other,
      rp_UpdateMeta := rp_UpdateMeta a + rp_UpdateMeta other,
      rp_DelObject := rp_DelObject a + rp_DelObject other,
      rp_DelTag := rp_DelTag a + rp_DelTag other,
      rp_LatencySecs := rp_LatencySecs a + rp_LatencySecs other,
      rp_MaxLatencySecs := sup (rp_MaxLatencySecs a) (rp_MaxLatencySecs other),
      rp_PutErrors := rp_PutErrors a + rp_PutErrors other,
      rp_UpdateMetaErrors := rp_UpdateMetaErrors a + rp_UpdateMetaErrors other,
      rp_DelErrors := rp_DelErrors a + rp_DelErrors other,
      rp_DelTagErrors := rp_DelTagErrors a + rp_DelTagErrors other,
      rp_Synced := rp_Synced a + rp_Synced other,
      rp_AlreadyOK := rp_AlreadyOK a + rp_AlreadyOK other,
      rp_Rejected := rp_Rejected a + rp_Rejected other,
      rp_ProxyEvents := rp_ProxyEvents a + rp_ProxyEvents other,
      rp_ProxyBytes := rp_ProxyBytes a + rp_ProxyBytes other,
      rp_ProxyHead := rp_ProxyHead a + rp_ProxyHead other,
      rp_ProxyGet := rp_ProxyGet a + rp_ProxyGet other,
      rp_ProxyGetTag := rp_ProxyGetTag a + rp_ProxyGetTag other,
      rp_ProxyGetOK := rp_ProxyGetOK a + rp_ProxyGetOK other,
      rp_ProxyGetTagOK := rp_ProxyGetTagOK a + rp_ProxyGetTagOK other,
      rp_ProxyHeadOK := rp_ProxyHeadOK a + rp_ProxyHeadOK other\<rparr>)"

abbreviation ReplicationStats_add ::
  "('f::{plus,sup}) ReplicationStats \<Rightarrow> 'f ReplicationStats \<Rightarrow> 'f ReplicationStats" where
  "ReplicationStats_add a b \<equiv> ReplicationStats_Add a (Some b)"

lemma ReplicationStats_zero_sel [simp]:
  "rp_Nodes ReplicationStats_zero = 0"
  "rp_StartTime ReplicationStats_zero = None"
  "rp_EndTime ReplicationStats_zero = None"
  "rp_WallTimeSecs ReplicationStats_zero = 0"
  "rp_Events ReplicationStats_zero = 0"
  "rp_Bytes ReplicationStats_zero = 0"
  "rp_EventTimeSecs ReplicationStats_zero = 0"
  "rp_LatencySecs ReplicationStats_zero = 0"
  "rp_MaxLatencySecs ReplicationStats_zero = 0"
  "rp_PutObject ReplicationStats_zero = 0"
  "rp_UpdateMeta ReplicationStats_zero = 0"
  "rp_DelObject ReplicationStats_zero = 0"
  "rp_DelTag ReplicationStats_zero = 0"
  "rp_PutErrors ReplicationStats_zero = 0"
  "rp_UpdateMetaErrors ReplicationStats_zero = 0"
  "rp_DelErrors ReplicationStats_zero = 0"
  "rp_DelTagErrors ReplicationStats_zero = 0"
  "rp_Synced ReplicationStats_zero = 0"
  "rp_AlreadyOK ReplicationStats_zero = 0"
  "rp_Rejected ReplicationStats_zero = 0"
  "rp_ProxyEvents ReplicationStats_zero = 0"
  "rp_ProxyBytes ReplicationStats_zero = 0"
  "rp_ProxyHead ReplicationStats_zero = 0"
  "rp_ProxyGet ReplicationStats_zero = 0"
  "rp_ProxyGetTag ReplicationStats_zero = 0"
  "rp_ProxyHeadOK ReplicationStats_zero = 0"
  "rp_ProxyGetOK ReplicationStats_zero = 0"
  "rp_ProxyGetTagOK ReplicationStats_zero = 0"
  by (simp_all add: ReplicationStats_zero_def)

text \<open>Node counts are not negative; a record no node reported is the zero value.\<close>

definition ReplicationStats_wf :: "('f::{zero,ord}) ReplicationStats \<Rightarrow> bool" where
  "ReplicationStats_wf a \<longleftrightarrow> 0 \<le> sint (rp_Nodes a) \<and> 0 \<le> rp_MaxLatencySecs a \<and>
     (rp_Nodes a = 0 \<longrightarrow> a = ReplicationStats_zero)"

definition ReplicationStats_untimed :: "('f::{zero,ord}) ReplicationStats \<Rightarrow> bool" where
  "ReplicationStats_untimed a \<longleftrightarrow> ReplicationStats_wf a \<and> rp_StartTime a = None \<and> rp_EndTime a = None"

abbreviation ReplicationStats_weight :: "'f ReplicationStats \<Rightarrow> nat" where
  "ReplicationStats_weight a \<equiv> nat (sint (rp_Nodes a))"

text \<open>With reporting nodes on both sides, every field is merged.\<close>

lemma ReplicationStats_Add_sel:
  assumes "rp_Nodes b \<noteq> 0"
  shows
  "rp_StartTime (ReplicationStats_add a b) = merge_time (rp_Events a) (rp_StartTime a) (rp_StartTime b)"
  "rp_EndTime (ReplicationStats_add a b) = merge_time (rp_Events a) (rp_EndTime a) (rp_EndTime b)"
  "rp_Nodes (ReplicationStats_add a b) = rp_Nodes a + rp_Nodes b"
  "rp_WallTimeSecs (ReplicationStats_add a b) = rp_WallTimeSecs a + rp_WallTimeSecs b"
  "rp_Events (ReplicationStats_add a b) = rp_Events a + rp_Events b"
  "rp_Bytes (ReplicationStats_add a b) = rp_Bytes a + rp_Bytes b"
  "rp_EventTimeSecs (ReplicationStats_add a b) = rp_EventTimeSecs a + rp_EventTimeSecs b"
  "rp_PutObject (ReplicationStats_add a b) = rp_PutObject a + rp_PutObject b"
  "rp_UpdateMeta (ReplicationStats_add a b) = rp_UpdateMeta a + rp_UpdateMeta b"
  "rp_DelObject (ReplicationStats_add a b) = rp_DelObject a + rp_DelObject b"
  "rp_DelTag (ReplicationStats_add a b) = rp_DelTag a + rp_DelTag b"
  "rp_LatencySecs (ReplicationStats_add a b) = rp_LatencySecs a + rp_LatencySecs b"
  "rp_MaxLatencySecs (ReplicationStats_add a b) = sup (rp_MaxLatencySecs a) (rp_MaxLatencySecs b)"
  "rp_PutErrors (ReplicationStats_add a b) = rp_PutErrors a + rp_PutErrors b"
  "rp_UpdateMetaErrors (ReplicationStats_add a b) = rp_UpdateMetaErrors a + rp_UpdateMetaErrors b"
  "rp_DelErrors (ReplicationStats_add a b) = rp_DelErrors a + rp_DelErrors b"
  "rp_DelTagErrors (ReplicationStats_add a b) = rp_DelTagErrors a + rp_DelTagErrors b"
  "rp_Synced (ReplicationStats_add a b) = rp_Synced a + rp_Synced b"
  "rp_AlreadyOK (ReplicationStats_add a b) = rp_AlreadyOK a + rp_AlreadyOK b"
  "rp_Rejected (ReplicationStats_add a b) = rp_Rejected a + rp_Rejected b"
  "rp_ProxyEvents (ReplicationStats_add a b) = rp_ProxyEvents a + rp_ProxyEvents b"
  "rp_ProxyBytes (ReplicationStats_add a b) = rp_ProxyBytes a + rp_ProxyBytes b"
  "rp_ProxyHead (ReplicationStats_add a b) = rp_ProxyHead a + rp_ProxyHead b"
  "rp_ProxyGet (ReplicationStats_add a b) = rp_ProxyGet a + rp_ProxyGet b"
  "rp_ProxyGetTag (ReplicationStats_add a b) = rp_ProxyGetTag a + rp_ProxyGetTag b"
  "rp_ProxyGetOK (ReplicationStats_add a b) = rp_ProxyGetOK a + rp_ProxyGetOK b"
  "rp_ProxyGetTagOK (ReplicationStats_add a b) = rp_ProxyGetTagOK a + rp_ProxyGetTagOK b"
  "rp_ProxyHeadOK (ReplicationStats_add a b) = rp_ProxyHeadOK a + rp_ProxyHeadOK b"
  using assms by (simp_all add: ReplicationStats_Add_def)

lemma ReplicationStats_Add_skip: "rp_Nodes b = 0 \<Longrightarrow> ReplicationStats_add a b = a"
  by (simp add: ReplicationStats_Add_def)

lemma ReplicationStats_Add_zero_left:
  fixes a :: "('f::{lattice,comm_monoid_add}) ReplicationStats"
  assumes "ReplicationStats_wf a"
  shows "ReplicationStats_add ReplicationStats_zero a = a"
proof (cases "rp_Nodes a = 0")
  case True
  then show ?thesis using assms by (simp add: ReplicationStats_Add_skip ReplicationStats_wf_def)
next
  case False
  then show ?thesis
    using assms by (intro ReplicationStats.equality)
      (simp_all only: ReplicationStats_Add_sel [OF False], simp_all add: ReplicationStats_wf_def sup_absorb2)
qed

lemma ReplicationStats_Add_comm:
  fixes a b :: "('f::{lattice,comm_monoid_add}) ReplicationStats"
  assumes "ReplicationStats_untimed a" "ReplicationStats_untimed b"
  shows "ReplicationStats_add a b = ReplicationStats_add b a"
proof -
  consider "rp_Nodes a = 0" | "rp_Nodes b = 0" | "rp_Nodes a \<noteq> 0" "rp_Nodes b \<noteq> 0" by blast
  then show ?thesis
  proof cases
    case 3
    then show ?thesis
      using assms by (intro ReplicationStats.equality)
        (simp_all only: ReplicationStats_Add_sel [OF 3(1)] ReplicationStats_Add_sel [OF 3(2)],
          simp_all add: ReplicationStats_untimed_def add.commute sup.commute)
  qed (use assms in \<open>auto simp: ReplicationStats_untimed_def ReplicationStats_wf_def
      ReplicationStats_Add_skip ReplicationStats_Add_zero_left\<close>)
qed

lemma ReplicationStats_wf_Add:
  fixes a b :: "('f::{lattice,comm_monoid_add}) ReplicationStats"
  assumes "ReplicationStats_wf a" "ReplicationStats_wf b"
    and "ReplicationStats_weight a + ReplicationStats_weight b < 2 ^ 63"
  shows "ReplicationStats_wf (ReplicationStats_add a b)"
    and "ReplicationStats_weight (ReplicationStats_add a b) =
      ReplicationStats_weight a + ReplicationStats_weight b"
proof -
  have s: "sint (rp_Nodes a + rp_Nodes b) = sint (rp_Nodes a) + sint (rp_Nodes b)"
    and z: "rp_Nodes a + rp_Nodes b = 0 \<longleftrightarrow> rp_Nodes a = 0 \<and> rp_Nodes b = 0"
    by (rule sint_add_nowrap64 add_eq_0_signed64; use assms in \<open>simp add: ReplicationStats_wf_def\<close>)+
  show "ReplicationStats_wf (ReplicationStats_add a b)"
    using assms(1,2) s z by (cases "rp_Nodes b = 0")
      (simp_all add: ReplicationStats_Add_skip, simp add: ReplicationStats_wf_def
        ReplicationStats_Add_sel le_supI1)
  show "ReplicationStats_weight (ReplicationStats_add a b) =
      ReplicationStats_weight a + ReplicationStats_weight b"
    using assms(1,2) s by (cases "rp_Nodes b = 0")
      (simp_all add: ReplicationStats_Add_skip ReplicationStats_Add_sel ReplicationStats_wf_def
        nat_add_distrib)
qed

lemma ReplicationStats_Add_assoc:
  fixes a b c :: "('f::{lattice,comm_monoid_add}) ReplicationStats"
  assumes "ReplicationStats_untimed a" "ReplicationStats_untimed b" "ReplicationStats_untimed c"
    and "ReplicationStats_weight a + ReplicationStats_weight b + ReplicationStats_weight c < 2 ^ 63"
  shows "ReplicationStats_add (ReplicationStats_add a b) c =
    ReplicationStats_add a (ReplicationStats_add b c)"
proof -
  have z: "rp_Nodes b + rp_Nodes c = 0 \<longleftrightarrow> rp_Nodes b = 0 \<and> rp_Nodes c = 0"
    by (rule add_eq_0_signed64)
      (use assms in \<open>simp_all add: ReplicationStats_untimed_def ReplicationStats_wf_def\<close>)
  consider "rp_Nodes b = 0" | "rp_Nodes c = 0" | "rp_Nodes b \<noteq> 0" "rp_Nodes c \<noteq> 0" by blast
  then show ?thesis
  proof cases
    case 3
    then have n: "rp_Nodes (ReplicationStats_add b c) \<noteq> 0" by (simp add: ReplicationStats_Add_sel z)
    show ?thesis
      using assms(1-3) by (intro ReplicationStats.equality)
        (simp_all only: ReplicationStats_Add_sel [OF 3(1)] ReplicationStats_Add_sel [OF 3(2)]
            ReplicationStats_Add_sel [OF n],
          simp_all add: ReplicationStats_untimed_def add.assoc sup.assoc)
  qed (use assms in \<open>auto simp: ReplicationStats_untimed_def ReplicationStats_wf_def
      ReplicationStats_Add_skip ReplicationStats_Add_zero_left\<close>)
qed

lemma ReplicationStats_wf_zero:
  "ReplicationStats_wf (ReplicationStats_zero :: ('f::{zero,preorder}) ReplicationStats)"
  by (simp add: ReplicationStats_wf_def)

interpretation repl: merge_laws
  "ReplicationStats_wf :: ('f::{lattice,comm_monoid_add}) ReplicationStats \<Rightarrow> bool"
  ReplicationStats_weight "2 ^ 63" ReplicationStats_zero ReplicationStats_add
  by unfold_locales (simp_all add: ReplicationStats_wf_zero ReplicationStats_wf_Add
      ReplicationStats_Add_zero_left ReplicationStats_Add_skip)

interpretation repl_untimed: merge_comm
  "ReplicationStats_untimed :: ('f::{lattice,comm_monoid_add}) ReplicationStats \<Rightarrow> bool"
  ReplicationStats_weight "2 ^ 63" ReplicationStats_zero ReplicationStats_add
proof unfold_locales
  fix a b :: "'f ReplicationStats"
  assume u: "ReplicationStats_untimed a" "ReplicationStats_untimed b"
    and w: "ReplicationStats_weight a + ReplicationStats_weight b < 2 ^ 63"
  show "ReplicationStats_untimed (ReplicationStats_add a b)"
    using u ReplicationStats_wf_Add [of a b] w by (cases "rp_Nodes b = 0")
      (simp_all add: ReplicationStats_untimed_def ReplicationStats_Add_skip ReplicationStats_Add_sel)
  show "ReplicationStats_weight (ReplicationStats_add a b) =
      ReplicationStats_weight a + ReplicationStats_weight b"
    using u w ReplicationStats_wf_Add [of a b] by (simp add: ReplicationStats_untimed_def)
  show "ReplicationStats_add a b = ReplicationStats_add b a"
    by (rule ReplicationStats_Add_comm [OF u])
qed (simp_all add: ReplicationStats_Add_assoc,
    simp_all add: ReplicationStats_untimed_def ReplicationStats_wf_zero
      ReplicationStats_Add_zero_left ReplicationStats_Add_skip)

end
