(* ===== verification/Request_Metrics.thy ===== *)
theory Request_Metrics
  imports Request_Stats
begin

text \<open>
  \<open>RPCMetrics\<close>, \<open>APIMetrics\<close> and \<open>ReplicationMetrics\<close> of \<open>metrics.go\<close>: statistics per
  handler, API, peer or target, with their last day as segmented series. \<open>None\<close> is a panic
  of the method. A method is modelled on a receiver that is not nil: a nil receiver occurs
  only with a nil argument (\<open>Metrics.Merge\<close>), where nothing happens. Totals over a map take
  the order the runtime iterates in as the list \<open>ks\<close> of its keys.
\<close>

text \<open>
  The \<open>LastDay\<close> loop: a new key gets a copy of the series, an existing one is merged.
\<close>

definition merge_series :: "('a \<Rightarrow> 'a \<Rightarrow> 'a) \<Rightarrow> 'a \<Rightarrow>
  ('k, 'a Segmented) gomap \<Rightarrow> ('k, 'a Segmented) gomap \<Rightarrow> ('k, 'a Segmented) gomap option" where
  "merge_series add zero d s = gm_range_try (\<lambda>existing v. case existing of None \<Rightarrow> Some v
      | Some existing \<Rightarrow> Segmented_Add add zero existing (Some v)) (gm_make_if (gm_nonempty s) d) s"

lemma gm_get_merge_series:
  "merge_series add zero d s = Some m \<Longrightarrow>
   gm_get m k = (case gm_get s k of None \<Rightarrow> gm_get d k
     | Some v \<Rightarrow> (case gm_get d k of None \<Rightarrow> Some v | Some e \<Rightarrow> Segmented_Add add zero e (Some v)))"
  unfolding merge_series_def by (drule gm_get_range_try [where k = k]) (simp split: option.splits)

text \<open>No panic when the two series of each key lie in one window.\<close>

definition series_fit :: "('k, 'a Segmented) gomap \<Rightarrow> ('k, 'a Segmented) gomap \<Rightarrow> bool" where
  "series_fit d s \<longleftrightarrow> (\<forall>k e v. gm_get d k = Some e \<longrightarrow> gm_get s k = Some v \<longrightarrow>
     (\<exists>iv lo hi. in_window iv lo hi e \<and> in_window iv lo hi v))"

lemma merge_series_returns:
  assumes "series_fit d s"
  shows "\<exists>m. merge_series add zero d s = Some m"
  unfolding merge_series_def
proof (rule gm_range_try_returns)
  fix k v assume v: "gm_get s k = Some v"
  have "Segmented_Add add zero e (Some v) \<noteq> None" if e: "gm_get d k = Some e" for e
  proof -
    obtain iv lo hi where "in_window iv lo hi e" "in_window iv lo hi v" using assms e v unfolding series_fit_def by blast
    then show ?thesis by (rule in_window_Add [of iv lo hi e v add zero]) simp
  qed
  then show "(case gm_get d k of None \<Rightarrow> Some v
      | Some existing \<Rightarrow> Segmented_Add add zero existing (Some v)) \<noteq> None"
    by (simp split: option.splits)
qed

subsection \<open>RPCMetrics\<close>

record 'f RPCMetrics =
  rm_Nodes :: i64
  rm_CollectedAt :: gotime
  rm_ConnectionStats :: "'f ConnectionStats"
  rm_LastMinute :: "(string, 'f RPCStats) gomap"
  rm_LastDay :: "(string, 'f RPCStats Segmented) gomap"
  rm_ByDestination :: "(string, 'f ConnectionStats) gomap"
  rm_ByCaller :: "(string, 'f ConnectionStats) gomap"

definition RPCMetrics_zero :: "'f::zero RPCMetrics" where
  "RPCMetrics_zero = \<lparr>rm_Nodes = 0, rm_CollectedAt = 0, rm_ConnectionStats = ConnectionStats_zero,
     rm_LastMinute = None, rm_LastDay = None, rm_ByDestination = None, rm_ByCaller = None\<rparr>"

definition RPCMetrics_Merge ::
  "('f::{plus,zero,ord}) RPCMetrics \<Rightarrow> 'f RPCMetrics option \<Rightarrow> 'f RPCMetrics option" where
  "RPCMetrics_Merge m other = (case other of None \<Rightarrow> Some m | Some other \<Rightarrow> do {
     let m = m\<lparr>rm_Nodes := rm_Nodes m + rm_Nodes other\<rparr>;
     let m = (if Before (rm_CollectedAt m) (rm_CollectedAt other)
              then m\<lparr>rm_CollectedAt := rm_CollectedAt other\<rparr> else m);
     let m = m\<lparr>rm_ConnectionStats :=
                ConnectionStats_Merge (rm_ConnectionStats m) (Some (rm_ConnectionStats other))\<rparr>;
     byDest \<leftarrow> gm_accum (\<lambda>existing v. ConnectionStats_Merge existing (Some v)) ConnectionStats_zero
       (gm_make_if (gm_nonempty (rm_ByDestination other)) (rm_ByDestination m)) (rm_ByDestination other);
     byCaller \<leftarrow> gm_accum (\<lambda>existing v. ConnectionStats_Merge existing (Some v)) ConnectionStats_zero
       (gm_make_if (gm_nonempty (rm_ByCaller other)) (rm_ByCaller m)) (rm_ByCaller other);
     lastMin \<leftarrow> gm_accum RPCStats_Merge RPCStats_zero
       (gm_make_if (gm_nonempty (rm_LastMinute other)) (rm_LastMinute m)) (rm_LastMinute other);
     lastDay \<leftarrow> merge_series (\<lambda>a b. RPCStats_Add a (Some b)) RPCStats_zero (rm_LastDay m) (rm_LastDay other);
     Some (m\<lparr>rm_ByDestination := byDest, rm_ByCaller := byCaller,
             rm_LastMinute := lastMin, rm_LastDay := lastDay\<rparr>)
   })"

definition RPCMetrics_LastMinuteTotal :: "('f::{plus,zero}) RPCMetrics \<Rightarrow> string list \<Rightarrow> 'f RPCStats" where
  "RPCMetrics_LastMinuteTotal m ks =
    (let vs = gm_vals (rm_LastMinute m) ks;
         hasTimestamps = list_ex (\<lambda>stats. rs_StartTime stats \<noteq> None \<or> rs_EndTime stats \<noteq> None) vs;
         hasNilTimestamps = list_ex (\<lambda>stats. \<not> (rs_StartTime stats \<noteq> None \<or> rs_EndTime stats \<noteq> None)) vs
     in if hasTimestamps \<and> hasNilTimestamps
        then add_all (\<lambda>res stats. RPCStats_Merge res (stats\<lparr>rs_StartTime := None, rs_EndTime := None\<rparr>))
               vs RPCStats_zero
        else add_all RPCStats_Merge vs RPCStats_zero)"

definition RPCMetrics_LastDayTotalSegmented ::
  "('f::{plus,zero}) RPCMetrics \<Rightarrow> string list \<Rightarrow> 'f RPCStats Segmented option" where
  "RPCMetrics_LastDayTotalSegmented m ks =
     Segmented_Add_all (\<lambda>a b. RPCStats_Add a (Some b)) RPCStats_zero (gm_vals (rm_LastDay m) ks) Segmented_zero"

definition RPCMetrics_LastDayTotal :: "('f::{plus,zero}) RPCMetrics \<Rightarrow> string list \<Rightarrow> 'f RPCStats" where
  "RPCMetrics_LastDayTotal m ks =
     add_all (\<lambda>res stats. add_all RPCStats_Merge (sg_Segments stats) res) (gm_vals (rm_LastDay m) ks) RPCStats_zero"

lemma RPCStats_Add_Some: "(\<lambda>a b. RPCStats_Add a (Some b)) = RPCStats_Merge"
  by (simp add: RPCStats_Add_def fun_eq_iff)

lemma add_all_nested: "add_all (\<lambda>res x. add_all add (f x) res) xs a = add_all add (concat (map f xs)) a"
  by (induction xs arbitrary: a) (simp_all add: add_all_append)

subsection \<open>APIMetrics\<close>

record 'f APIMetrics =
  am_CollectedAt :: gotime
  am_Nodes :: i64
  am_ActiveRequests :: i64
  am_QueuedRequests :: i64
  am_LastMinuteAPI :: "(string, 'f APIStats) gomap"
  am_LastDayAPI :: "(string, 'f APIStats Segmented) gomap"
  am_SinceStart :: "'f APIStats"

definition APIMetrics_zero :: "'f::zero APIMetrics" where
  "APIMetrics_zero = \<lparr>am_CollectedAt = 0, am_Nodes = 0, am_ActiveRequests = 0, am_QueuedRequests = 0,
     am_LastMinuteAPI = None, am_LastDayAPI = None, am_SinceStart = APIStats_zero\<rparr>"

definition APIMetrics_Merge ::
  "('f::{plus,zero,inf,sup}) APIMetrics \<Rightarrow> 'f APIMetrics option \<Rightarrow> 'f APIMetrics option" where
  "APIMetrics_Merge a b = (case b of None \<Rightarrow> Some a | Some b \<Rightarrow> do {
     let a = (if Before (am_CollectedAt a) (am_CollectedAt b)
              then a\<lparr>am_CollectedAt := am_CollectedAt b\<rparr> else a);
     let a = a\<lparr>am_Nodes := am_Nodes a + am_Nodes b,
               am_ActiveRequests := am_ActiveRequests a + am_ActiveRequests b,
               am_QueuedRequests := am_QueuedRequests a + am_QueuedRequests b\<rparr>;
     lastMin \<leftarrow> gm_accum APIStats_Merge APIStats_zero
       (gm_make_if (gm_nonempty (am_LastMinuteAPI b)) (am_LastMinuteAPI a)) (am_LastMinuteAPI b);
     lastDay \<leftarrow> merge_series (\<lambda>x y. APIStats_Add x (Some y)) APIStats_zero (am_LastDayAPI a) (am_LastDayAPI b);
     Some (a\<lparr>am_LastMinuteAPI := lastMin, am_LastDayAPI := lastDay,
             am_SinceStart := APIStats_Merge (am_SinceStart a) (am_SinceStart b)\<rparr>)
   })"

definition APIMetrics_LastMinuteTotal ::
  "('f::{plus,zero,inf,sup}) APIMetrics \<Rightarrow> string list \<Rightarrow> 'f APIStats" where
  "APIMetrics_LastMinuteTotal a ks =
    (add_all APIStats_Merge (gm_vals (am_LastMinuteAPI a) ks) APIStats_zero)\<lparr>as_Nodes := am_Nodes a\<rparr>"

definition APIMetrics_LastDayTotalSegmented ::
  "('f::{plus,zero,inf,sup}) APIMetrics \<Rightarrow> string list \<Rightarrow> 'f APIStats Segmented option" where
  "APIMetrics_LastDayTotalSegmented a ks = do {
     res \<leftarrow> Segmented_Add_all (\<lambda>x y. APIStats_Add x (Some y)) APIStats_zero
       (gm_vals (am_LastDayAPI a) ks) Segmented_zero;
     Some (res\<lparr>sg_Segments := map (\<lambda>s. s\<lparr>as_Nodes := am_Nodes a\<rparr>) (sg_Segments res)\<rparr>)
   }"

definition APIMetrics_LastDayTotal ::
  "('f::{plus,zero,inf,sup}) APIMetrics \<Rightarrow> string list \<Rightarrow> 'f APIStats" where
  "APIMetrics_LastDayTotal a ks =
    (add_all (\<lambda>res stats. add_all APIStats_Merge (sg_Segments stats) res)
       (gm_vals (am_LastDayAPI a) ks) APIStats_zero)\<lparr>as_Nodes := am_Nodes a\<rparr>"

lemma APIStats_Add_Some: "(\<lambda>a b. APIStats_Add a (Some b)) = APIStats_Merge"
  by (simp add: APIStats_Add_def fun_eq_iff)

subsection \<open>ReplicationTargetStats and ReplicationMetrics\<close>

record 'f ReplicationTargetStats =
  rt_Nodes :: i64
  rt_LastHour :: "'f ReplicationStats"
  rt_LastDay :: "'f ReplicationStats Segmented option"
  rt_SinceStart :: "'f ReplicationStats"

definition ReplicationTargetStats_zero :: "'f::zero ReplicationTargetStats" where
  "ReplicationTargetStats_zero = \<lparr>rt_Nodes = 0, rt_LastHour = ReplicationStats_zero, rt_LastDay = None,
     rt_SinceStart = ReplicationStats_zero\<rparr>"

definition ReplicationTargetStats_Merge :: "('f::{plus,zero,sup}) ReplicationTargetStats \<Rightarrow>
  'f ReplicationTargetStats option \<Rightarrow> 'f ReplicationTargetStats option" where
  "ReplicationTargetStats_Merge r other = (case other of None \<Rightarrow> Some r | Some other \<Rightarrow>
    if rt_Nodes other = 0 then Some r
    else do {
      let r = r\<lparr>rt_Nodes := rt_Nodes r + rt_Nodes other,
                rt_LastHour := ReplicationStats_Add (rt_LastHour r) (Some (rt_LastHour other))\<rparr>;
      lastDay \<leftarrow> (case (rt_LastDay r, rt_LastDay other) of
          (None, Some o') \<Rightarrow> map_option Some
             (Segmented_Add ReplicationStats_add ReplicationStats_zero Segmented_zero (Some o'))
        | (None, None) \<Rightarrow> Some None
        | (Some s, o') \<Rightarrow> map_option Some (Segmented_Add ReplicationStats_add ReplicationStats_zero s o'));
      Some (r\<lparr>rt_LastDay := lastDay,
              rt_SinceStart := ReplicationStats_Add (rt_SinceStart r) (Some (rt_SinceStart other))\<rparr>)
    })"

record 'f ReplicationMetrics =
  rpm_CollectedAt :: gotime
  rpm_Nodes :: i64
  rpm_Active :: i64
  rpm_Queued :: i64
  rpm_Targets :: "(string, 'f ReplicationTargetStats) gomap"

definition ReplicationMetrics_zero :: "'f ReplicationMetrics" where
  "ReplicationMetrics_zero = \<lparr>rpm_CollectedAt = 0, rpm_Nodes = 0, rpm_Active = 0, rpm_Queued = 0,
     rpm_Targets = None\<rparr>"

definition ReplicationMetrics_Merge :: "('f::{plus,zero,sup}) ReplicationMetrics \<Rightarrow>
  'f ReplicationMetrics option \<Rightarrow> 'f ReplicationMetrics option" where
  "ReplicationMetrics_Merge m other = (case other of None \<Rightarrow> Some m | Some other \<Rightarrow>
    (let m = (if Before (rpm_CollectedAt m) (rpm_CollectedAt other)
              then m\<lparr>rpm_CollectedAt := rpm_CollectedAt other\<rparr> else m);
         m = m\<lparr>rpm_Nodes := rpm_Nodes m + rpm_Nodes other,
               rpm_Active := rpm_Active m + rpm_Active other,
               rpm_Queued := rpm_Queued m + rpm_Queued other\<rparr>
     in if \<not> gm_nonempty (rpm_Targets other) then Some m
     else do {
       targets \<leftarrow> gm_range_try (\<lambda>dst v. ReplicationTargetStats_Merge
           (case dst of None \<Rightarrow> ReplicationTargetStats_zero | Some dst \<Rightarrow> dst) (Some v))
         (gm_make_if True (rpm_Targets m)) (rpm_Targets other);
       Some (m\<lparr>rpm_Targets := targets\<rparr>)
     }))"

fun ReplicationTargetStats_Merge_all :: "('f::{plus,zero,sup}) ReplicationTargetStats list \<Rightarrow>
  'f ReplicationTargetStats \<Rightarrow> 'f ReplicationTargetStats option" where
  "ReplicationTargetStats_Merge_all [] dst = Some dst"
| "ReplicationTargetStats_Merge_all (v # vs) dst = (case ReplicationTargetStats_Merge dst (Some v) of
     None \<Rightarrow> None | Some dst \<Rightarrow> ReplicationTargetStats_Merge_all vs dst)"

definition ReplicationMetrics_AllTargets ::
  "('f::{plus,zero,sup}) ReplicationMetrics \<Rightarrow> string list \<Rightarrow> 'f ReplicationTargetStats option" where
  "ReplicationMetrics_AllTargets m ks =
     ReplicationTargetStats_Merge_all (gm_vals (rpm_Targets m) ks) ReplicationTargetStats_zero"

subsection \<open>Totals of the last day\<close>

lemma APIStats_Merge_Nodes:
  "APIStats_Merge (a\<lparr>as_Nodes := n\<rparr>) (b\<lparr>as_Nodes := k\<rparr>) = (APIStats_Merge a b)\<lparr>as_Nodes := n + k\<rparr>"
  by (simp add: APIStats_Merge_def Let_def)

lemma add_all_APIStats_Nodes:
  "\<exists>l. add_all APIStats_Merge (map (\<lambda>s. s\<lparr>as_Nodes := n\<rparr>) xs) (a\<lparr>as_Nodes := k\<rparr>) =
    (add_all APIStats_Merge xs a)\<lparr>as_Nodes := l\<rparr>"
proof (induction xs arbitrary: a k)
  case Nil
  then show ?case by auto
next
  case (Cons x xs)
  then show ?case by (simp add: APIStats_Merge_Nodes)
qed

lemma add_all_APIStats_Nodes_zero:
  "(add_all APIStats_Merge (map (\<lambda>s. s\<lparr>as_Nodes := n\<rparr>) xs) APIStats_zero)\<lparr>as_Nodes := k\<rparr> =
   (add_all APIStats_Merge xs APIStats_zero)\<lparr>as_Nodes := k\<rparr>"
proof -
  have e: "(APIStats_zero :: 'a APIStats)\<lparr>as_Nodes := 0\<rparr> = APIStats_zero"
    by (rule APIStats.equality) simp_all
  then obtain l where "add_all APIStats_Merge (map (\<lambda>s. s\<lparr>as_Nodes := n\<rparr>) xs) APIStats_zero =
      (add_all APIStats_Merge xs APIStats_zero)\<lparr>as_Nodes := l\<rparr>"
    using add_all_APIStats_Nodes [where n = n and xs = xs and a = APIStats_zero and k = 0]
    unfolding e by auto
  then show ?thesis by simp
qed

text \<open>The series of a map lie in one window and hold well-formed statistics.\<close>

definition series_ok :: "('a \<Rightarrow> bool) \<Rightarrow> i64 \<Rightarrow> gotime \<Rightarrow> gotime \<Rightarrow> ('k, 'a Segmented) gomap \<Rightarrow> bool" where
  "series_ok P iv lo hi m \<longleftrightarrow>
     (\<forall>k s. gm_get m k = Some s \<longrightarrow> in_window iv lo hi s \<and> list_all P (sg_Segments s))"

lemma series_ok_vals:
  "series_ok P iv lo hi m \<Longrightarrow> x \<in> set (gm_vals m ks) \<Longrightarrow> in_window iv lo hi x \<and> list_all P (sg_Segments x)"
  by (auto simp: series_ok_def dest: gm_vals_mem)

context merge_comm
begin

lemma day_total:
  assumes "series_ok wf iv lo hi m" and "in_window iv lo hi (Segmented_zero :: 'a Segmented)"
    and "sum_list (map seg_weight (gm_vals m ks)) < cap"
  shows "\<exists>r. Segmented_Add_all add zero (gm_vals m ks) Segmented_zero = Some r \<and>
    Segmented_Total add zero (Some r) =
      add_all (\<lambda>res s. add_all add (sg_Segments s) res) (gm_vals m ks) zero"
  using Segmented_Add_all_total [of "gm_vals m ks" iv lo hi Segmented_zero]
    series_ok_vals [OF assms(1)] assms(2,3)
  by (simp add: add_all_nested Segmented_zero_def)

end

lemma APIMetrics_day_total:
  fixes a :: "('f::{lattice,comm_monoid_add}) APIMetrics"
  assumes "series_ok APIStats_untimed iv lo hi (am_LastDayAPI a)"
    and "0 < sint iv" and "hi - lo < 2 ^ 63"
    and "(\<Sum>s\<leftarrow>gm_vals (am_LastDayAPI a) ks. total_weight APIStats_weight (sg_Segments s)) < 2 ^ 63"
  shows "\<exists>r. APIMetrics_LastDayTotalSegmented a ks = Some r \<and>
    (Segmented_Total APIStats_Merge APIStats_zero (Some r))\<lparr>as_Nodes := am_Nodes a\<rparr> =
      APIMetrics_LastDayTotal a ks"
proof -
  have w: "in_window iv lo hi (Segmented_zero :: 'f APIStats Segmented)"
    using assms(2,3) by (simp add: in_window_def Segmented_zero_def)
  obtain r where r: "Segmented_Add_all APIStats_Merge APIStats_zero
      (gm_vals (am_LastDayAPI a) ks) Segmented_zero = Some r"
    and t: "Segmented_Total APIStats_Merge APIStats_zero (Some r) =
      add_all (\<lambda>res s. add_all APIStats_Merge (sg_Segments s) res) (gm_vals (am_LastDayAPI a) ks) APIStats_zero"
    using api_untimed.day_total [OF assms(1) w, of ks] assms(4) by auto
  show ?thesis
    using t by (simp add: APIMetrics_LastDayTotalSegmented_def APIStats_Add_Some r
        APIMetrics_LastDayTotal_def Segmented_Total_def add_all_APIStats_Nodes_zero)
qed

lemma RPCMetrics_day_total:
  fixes m :: "('f::comm_monoid_add) RPCMetrics"
  assumes "series_ok RPCStats_untimed iv lo hi (rm_LastDay m)" and "0 < sint iv" and "hi - lo < 2 ^ 63"
  shows "\<exists>r. RPCMetrics_LastDayTotalSegmented m ks = Some r \<and>
    Segmented_Total RPCStats_Merge RPCStats_zero (Some r) = RPCMetrics_LastDayTotal m ks"
proof -
  have w: "in_window iv lo hi (Segmented_zero :: 'f RPCStats Segmented)"
    using assms(2,3) by (simp add: in_window_def Segmented_zero_def)
  show ?thesis
    using rpc_untimed.day_total [OF assms(1) w, of ks]
    by (simp add: RPCMetrics_LastDayTotalSegmented_def RPCStats_Add_Some RPCMetrics_LastDayTotal_def)
qed

subsection \<open>Totals of the last minute\<close>

text \<open>What all statistics of a list agree on.\<close>

definition common :: "('a \<Rightarrow> 'b option) \<Rightarrow> 'a list \<Rightarrow> 'b option" where
  "common f xs = (case xs of [] \<Rightarrow> None | x # _ \<Rightarrow> (if \<forall>y\<in>set xs. f y = f x then f x else None))"

lemma common_perm: "set xs = set ys \<Longrightarrow> common f xs = common f ys"
proof -
  assume s: "set xs = set ys"
  show ?thesis
  proof (cases "\<exists>c. \<forall>y\<in>set xs. f y = c")
    case True
    then obtain c where c: "\<forall>y\<in>set xs. f y = c" by blast
    have "common f zs = (if zs = [] then None else c)" if "set zs = set xs" for zs
      using that c by (cases zs) (auto simp: common_def)
    then show ?thesis using s by (metis set_empty)
  next
    case False
    have "common f zs = None" if "set zs = set xs" for zs
    proof (cases zs)
      case (Cons z zs')
      then have "\<not> (\<forall>y\<in>set zs. f y = f z)" using False that by metis
      then show ?thesis using Cons by (auto simp: common_def)
    qed (simp add: common_def)
    then have "common f xs = None" "common f ys = None" using s by simp_all
    then show ?thesis by simp
  qed
qed

text \<open>
  Once a receiver has requests, its bounds can only be kept or dropped; \<open>sel\<close> is one of the
  two bounds.
\<close>

definition bound_of :: "('f RPCStats \<Rightarrow> gotime option) \<Rightarrow> bool" where
  "bound_of sel \<longleftrightarrow> sel = rs_StartTime \<or> sel = rs_EndTime"

lemma bound_of_Merge:
  "bound_of sel \<Longrightarrow> sel (RPCStats_Merge a b) = merge_time (rs_Requests a) (sel a) (sel b)"
  by (auto simp: bound_of_def)

definition timed_rpc :: "'f RPCStats \<Rightarrow> bool" where
  "timed_rpc a \<longleftrightarrow> 0 < sint (rs_Requests a) \<and> rs_StartTime a \<noteq> None \<and> rs_EndTime a \<noteq> None"

abbreviation rpc_requests :: "'f RPCStats \<Rightarrow> nat" where
  "rpc_requests a \<equiv> nat (sint (rs_Requests a))"

lemma bound_of_total_aux:
  fixes a :: "('f::comm_monoid_add) RPCStats"
  assumes "bound_of sel"
  shows "0 < sint (rs_Requests a) \<Longrightarrow> list_all timed_rpc xs \<Longrightarrow>
    rpc_requests a + total_weight rpc_requests xs < 2 ^ 63 \<Longrightarrow>
    sel (add_all RPCStats_Merge xs a) = (if \<forall>y\<in>set xs. sel y = sel a then sel a else None)"
proof (induction xs arbitrary: a)
  case Nil
  then show ?case by simp
next
  case (Cons x xs)
  have x: "0 < sint (rs_Requests x)" and sx: "sel x \<noteq> None"
    using Cons.prems(2) assms by (auto simp: timed_rpc_def bound_of_def)
  have s: "sint (rs_Requests a + rs_Requests x) = sint (rs_Requests a) + sint (rs_Requests x)"
    by (rule sint_add_nowrap64) (use x Cons.prems in simp_all)
  have nz: "rs_Requests a \<noteq> 0" using Cons.prems(1) by (metis less_irrefl signed_0)
  have ih: "sel (add_all RPCStats_Merge xs (RPCStats_Merge a x)) =
      (if \<forall>y\<in>set xs. sel y = sel (RPCStats_Merge a x) then sel (RPCStats_Merge a x) else None)"
    using Cons.prems x s by (intro Cons.IH) (simp_all add: nat_add_distrib)
  have st: "sel (RPCStats_Merge a x) = (if sel x = sel a then sel a else None)"
    using nz sx by (cases "sel a"; cases "sel x") (simp_all add: bound_of_Merge [OF assms])
  show ?case using ih sx by (simp add: st)
qed

lemma bound_of_total:
  fixes xs :: "('f::comm_monoid_add) RPCStats list"
  assumes "bound_of sel" and "list_all timed_rpc xs" and "total_weight rpc_requests xs < 2 ^ 63"
  shows "sel (add_all RPCStats_Merge xs RPCStats_zero) = common sel xs"
proof (cases xs)
  case Nil
  then show ?thesis using assms(1) by (auto simp: bound_of_def common_def)
next
  case (Cons x ys)
  have z: "RPCStats_Merge RPCStats_zero x = x" by (rule rpc.zero_left) simp
  show ?thesis
    using bound_of_total_aux [OF assms(1), of x ys] assms(2,3)
    by (simp add: common_def timed_rpc_def Cons z)
qed

abbreviation strip_times :: "'f RPCStats \<Rightarrow> 'f RPCStats" where
  "strip_times s \<equiv> s\<lparr>rs_StartTime := None, rs_EndTime := None\<rparr>"

lemma strip_times_Merge: "strip_times (RPCStats_Merge a b) = RPCStats_Merge (strip_times a) (strip_times b)"
  by (rule RPCStats.equality) simp_all

lemma strip_times_add_all:
  "strip_times (add_all RPCStats_Merge xs a) = add_all RPCStats_Merge (map strip_times xs) (strip_times a)"
  by (induction xs arbitrary: a) (simp_all add: strip_times_Merge)

lemma add_all_map: "add_all (\<lambda>res x. add res (g x)) xs a = add_all add (map g xs) a"
  by (induction xs arbitrary: a) simp_all

lemma strip_times_zero: "strip_times RPCStats_zero = RPCStats_zero"
  by (simp add: RPCStats_zero_def)

lemma stripped_total_perm:
  fixes xs :: "('f::comm_monoid_add) RPCStats list"
  assumes "mset xs = mset ys"
  shows "add_all RPCStats_Merge (map strip_times xs) RPCStats_zero =
    add_all RPCStats_Merge (map strip_times ys) RPCStats_zero"
  by (rule rpc_untimed.total_perm)
    (use assms in \<open>simp_all add: list_all_iff RPCStats_untimed_def\<close>)

lemma RPCStats_eqI:
  "strip_times a = strip_times b \<Longrightarrow> rs_StartTime a = rs_StartTime b \<Longrightarrow> rs_EndTime a = rs_EndTime b \<Longrightarrow> a = (b :: 'f RPCStats)"
  by (cases a; cases b) simp

text \<open>
  Every handler has requests and both bounds of its time range or none; then the order the
  map is walked in does not show in the total.
\<close>

definition rpc_times_ok :: "'f RPCMetrics \<Rightarrow> bool" where
  "rpc_times_ok m \<longleftrightarrow> (\<forall>k s. gm_get (rm_LastMinute m) k = Some s \<longrightarrow>
     0 < sint (rs_Requests s) \<and> (rs_StartTime s = None \<longleftrightarrow> rs_EndTime s = None))"

definition has_times :: "'f RPCStats \<Rightarrow> bool" where
  "has_times s \<longleftrightarrow> rs_StartTime s \<noteq> None \<or> rs_EndTime s \<noteq> None"

definition mixed_times :: "'f RPCStats set \<Rightarrow> bool" where
  "mixed_times S \<longleftrightarrow> (\<exists>s\<in>S. has_times s) \<and> (\<exists>s\<in>S. \<not> has_times s)"

lemma RPCMetrics_minute_total:
  "RPCMetrics_LastMinuteTotal m ks =
    (if mixed_times (set (gm_vals (rm_LastMinute m) ks))
     then add_all RPCStats_Merge (map strip_times (gm_vals (rm_LastMinute m) ks)) RPCStats_zero
     else add_all RPCStats_Merge (gm_vals (rm_LastMinute m) ks) RPCStats_zero)"
  unfolding RPCMetrics_LastMinuteTotal_def Let_def list_ex_iff mixed_times_def has_times_def
    add_all_map [where add = RPCStats_Merge and g = strip_times] by (rule refl)

lemma RPCMetrics_minute_order:
  fixes m :: "('f::comm_monoid_add) RPCMetrics"
  assumes o: "gm_order (rm_LastMinute m) ks" "gm_order (rm_LastMinute m) ks'"
    and ok: "rpc_times_ok m"
    and w: "total_weight rpc_requests (gm_vals (rm_LastMinute m) ks) < 2 ^ 63"
  shows "RPCMetrics_LastMinuteTotal m ks = RPCMetrics_LastMinuteTotal m ks'"
proof -
  define xs ys where "xs = gm_vals (rm_LastMinute m) ks" and "ys = gm_vals (rm_LastMinute m) ks'"
  have mm: "mset xs = mset ys" unfolding xs_def ys_def by (rule gm_vals_mset [OF o])
  then have ss: "set xs = set ys" by (metis set_mset_mset)
  have ok': "0 < sint (rs_Requests s) \<and> (rs_StartTime s = None \<longleftrightarrow> rs_EndTime s = None)"
    if "s \<in> set xs" for s
    using that ok gm_vals_mem [of s "rm_LastMinute m" ks] by (auto simp: rpc_times_ok_def xs_def)
  have plain: "add_all RPCStats_Merge xs RPCStats_zero = add_all RPCStats_Merge ys RPCStats_zero"
    if "\<not> mixed_times (set xs)"
  proof (cases "\<exists>s\<in>set xs. has_times s")
    case False
    then have "list_all RPCStats_untimed xs" by (simp add: list_all_iff RPCStats_untimed_def has_times_def)
    from rpc_untimed.total_perm [OF mm this] show ?thesis by simp
  next
    case True
    then have "\<forall>s\<in>set xs. has_times s" using that by (auto simp: mixed_times_def)
    then have t: "list_all timed_rpc xs" using ok' by (fastforce simp: list_all_iff timed_rpc_def has_times_def)
    then have t': "list_all timed_rpc ys" by (simp add: list_all_iff ss)
    have w1: "total_weight rpc_requests xs < 2 ^ 63" using w by (simp add: xs_def)
    then have w2: "total_weight rpc_requests ys < 2 ^ 63" using mm by (metis mset_map sum_mset_sum_list)
    have "sel (add_all RPCStats_Merge xs RPCStats_zero) = sel (add_all RPCStats_Merge ys RPCStats_zero)"
      if "bound_of sel" for sel
      by (simp only: bound_of_total [OF that t w1] bound_of_total [OF that t' w2] common_perm [OF ss])
    then have "rs_StartTime (add_all RPCStats_Merge xs RPCStats_zero) =
        rs_StartTime (add_all RPCStats_Merge ys RPCStats_zero)"
      and "rs_EndTime (add_all RPCStats_Merge xs RPCStats_zero) =
        rs_EndTime (add_all RPCStats_Merge ys RPCStats_zero)"
      by (simp_all add: bound_of_def)
    moreover have "strip_times (add_all RPCStats_Merge xs RPCStats_zero) =
        strip_times (add_all RPCStats_Merge ys RPCStats_zero)"
      unfolding strip_times_add_all strip_times_zero by (rule stripped_total_perm [OF mm])
    ultimately show ?thesis using RPCStats_eqI by blast
  qed
  show ?thesis
    unfolding RPCMetrics_minute_total xs_def [symmetric] ys_def [symmetric] ss [symmetric]
    using plain stripped_total_perm [OF mm] by presburger
qed

text \<open>
  \<open>APIMetrics.LastMinuteTotal\<close> has no such rule for mixed time ranges: two APIs, one of them
  without a time range, give two different totals in the two orders.
\<close>

definition mixed_api_example :: "nat APIMetrics" where
  "mixed_api_example =
    (let timed = APIStats_zero\<lparr>as_StartTime := Some 60, as_EndTime := Some 120, as_Requests := 1\<rparr>;
         untimed = APIStats_zero\<lparr>as_Requests := 1\<rparr>
     in APIMetrics_zero\<lparr>am_LastMinuteAPI := Some (fmap_of_list [(''GetObject'', timed), (''PutObject'', untimed)])\<rparr>)"

lemma mixed_api_order:
  "gm_order (am_LastMinuteAPI mixed_api_example) [''GetObject'', ''PutObject'']"
  "gm_order (am_LastMinuteAPI mixed_api_example) [''PutObject'', ''GetObject'']"
  by (auto simp: gm_order_def mixed_api_example_def gm_get_def fmlookup_of_list Let_def)

lemma APIMetrics_minute_order_dependent:
  "as_StartTime (APIMetrics_LastMinuteTotal mixed_api_example [''GetObject'', ''PutObject'']) = Some 60 \<and>
   as_StartTime (APIMetrics_LastMinuteTotal mixed_api_example [''PutObject'', ''GetObject'']) = None"
  by (simp add: APIMetrics_LastMinuteTotal_def mixed_api_example_def gm_get_def fmlookup_of_list Let_def)

subsection \<open>The merged metrics\<close>

lemma RPCMetrics_Merge_unfold:
  "RPCMetrics_Merge m (Some other) = Some r \<Longrightarrow>
   rm_Nodes r = rm_Nodes m + rm_Nodes other \<and>
   rm_CollectedAt r = max (rm_CollectedAt m) (rm_CollectedAt other) \<and>
   rm_ConnectionStats r = ConnectionStats_Merge (rm_ConnectionStats m) (Some (rm_ConnectionStats other)) \<and>
   gm_accum (\<lambda>existing v. ConnectionStats_Merge existing (Some v)) ConnectionStats_zero
     (gm_make_if (gm_nonempty (rm_ByDestination other)) (rm_ByDestination m)) (rm_ByDestination other)
     = Some (rm_ByDestination r) \<and>
   gm_accum (\<lambda>existing v. ConnectionStats_Merge existing (Some v)) ConnectionStats_zero
     (gm_make_if (gm_nonempty (rm_ByCaller other)) (rm_ByCaller m)) (rm_ByCaller other)
     = Some (rm_ByCaller r) \<and>
   gm_accum RPCStats_Merge RPCStats_zero
     (gm_make_if (gm_nonempty (rm_LastMinute other)) (rm_LastMinute m)) (rm_LastMinute other)
     = Some (rm_LastMinute r) \<and>
   merge_series RPCStats_Merge RPCStats_zero (rm_LastDay m) (rm_LastDay other) = Some (rm_LastDay r)"
  by (auto simp: RPCMetrics_Merge_def Let_def RPCStats_Add_Some max_def split: bind_splits if_splits)

lemma RPCMetrics_Merge_returns:
  assumes "series_fit (rm_LastDay m) (rm_LastDay other)"
  shows "\<exists>r. RPCMetrics_Merge m (Some other) = Some r"
proof -
  obtain ld where "merge_series RPCStats_Merge RPCStats_zero (rm_LastDay m) (rm_LastDay other) = Some ld"
    using merge_series_returns [OF assms] by blast
  then show ?thesis
    using gm_accum_make_if [of "\<lambda>existing v. ConnectionStats_Merge existing (Some v)" ConnectionStats_zero
        "rm_ByDestination other" "rm_ByDestination m"]
      gm_accum_make_if [of "\<lambda>existing v. ConnectionStats_Merge existing (Some v)" ConnectionStats_zero
        "rm_ByCaller other" "rm_ByCaller m"]
      gm_accum_make_if [of RPCStats_Merge RPCStats_zero "rm_LastMinute other" "rm_LastMinute m"]
    by (auto simp: RPCMetrics_Merge_def Let_def RPCStats_Add_Some)
qed

lemma APIMetrics_Merge_returns:
  assumes "series_fit (am_LastDayAPI a) (am_LastDayAPI b)"
  shows "\<exists>r. APIMetrics_Merge a (Some b) = Some r"
proof -
  obtain ld where "merge_series APIStats_Merge APIStats_zero (am_LastDayAPI a) (am_LastDayAPI b) = Some ld"
    using merge_series_returns [OF assms] by blast
  then show ?thesis
    using gm_accum_make_if [of APIStats_Merge APIStats_zero "am_LastMinuteAPI b" "am_LastMinuteAPI a"]
    by (auto simp: APIMetrics_Merge_def Let_def APIStats_Add_Some)
qed

text \<open>The last day of a replication target, and its totals.\<close>

definition day_fit :: "'a Segmented option \<Rightarrow> 'a Segmented option \<Rightarrow> bool" where
  "day_fit d s \<longleftrightarrow> (\<forall>e v. d = Some e \<longrightarrow> s = Some v \<longrightarrow> (\<exists>iv lo hi. in_window iv lo hi e \<and> in_window iv lo hi v))"

lemma ReplicationTargetStats_Merge_returns:
  assumes "day_fit (rt_LastDay r) (rt_LastDay other)"
  shows "\<exists>q. ReplicationTargetStats_Merge r (Some other) = Some q"
proof (cases "rt_LastDay r")
  case None
  then show ?thesis
    by (cases "rt_LastDay other")
      (auto simp: ReplicationTargetStats_Merge_def Let_def Segmented_Add_def Segmented_zero_def)
next
  case (Some s)
  show ?thesis
  proof (cases "rt_LastDay other")
    case None
    then show ?thesis using Some by (auto simp: ReplicationTargetStats_Merge_def Let_def)
  next
    case (Some v)
    obtain iv lo hi where "in_window iv lo hi s" "in_window iv lo hi v"
      using assms Some \<open>rt_LastDay r = Some s\<close> unfolding day_fit_def by blast
    then obtain q where "Segmented_Add ReplicationStats_add ReplicationStats_zero s (Some v) = Some q"
      by (rule in_window_Add)
    then show ?thesis
      using Some \<open>rt_LastDay r = Some s\<close> by (auto simp: ReplicationTargetStats_Merge_def Let_def)
  qed
qed

lemma ReplicationMetrics_Merge_returns:
  assumes "\<And>k e v. gm_get (rpm_Targets m) k = Some e \<Longrightarrow> gm_get (rpm_Targets other) k = Some v \<Longrightarrow>
    day_fit (rt_LastDay e) (rt_LastDay v)"
  shows "\<exists>r. ReplicationMetrics_Merge m (Some other) = Some r"
proof (cases "gm_nonempty (rpm_Targets other)")
  case True
  let ?f = "\<lambda>dst v. ReplicationTargetStats_Merge
    (case dst of None \<Rightarrow> ReplicationTargetStats_zero | Some dst \<Rightarrow> dst) (Some v)"
  have "\<exists>t. gm_range_try ?f (gm_make_if (gm_nonempty (rpm_Targets other)) (rpm_Targets m)) (rpm_Targets other) = Some t"
  proof (rule gm_range_try_returns)
    fix k v assume v: "gm_get (rpm_Targets other) k = Some v"
    have "day_fit (rt_LastDay (case gm_get (rpm_Targets m) k of None \<Rightarrow> ReplicationTargetStats_zero
        | Some dst \<Rightarrow> dst)) (rt_LastDay v)"
      using assms [OF _ v] by (auto simp: day_fit_def ReplicationTargetStats_zero_def split: option.split)
    from ReplicationTargetStats_Merge_returns [OF this]
    show "?f (gm_get (rpm_Targets m) k) v \<noteq> None" by auto
  qed
  then show ?thesis using True by (auto simp: ReplicationMetrics_Merge_def Let_def)
qed (simp add: ReplicationMetrics_Merge_def Let_def)

text \<open>What the targets hold since the start, added up in the order of the loop.\<close>

lemma Merge_all_SinceStart:
  "ReplicationTargetStats_Merge_all vs dst = Some r \<Longrightarrow>
   rt_SinceStart r = add_all ReplicationStats_add (map rt_SinceStart [v\<leftarrow>vs. rt_Nodes v \<noteq> 0]) (rt_SinceStart dst) \<and>
   rt_LastHour r = add_all ReplicationStats_add (map rt_LastHour [v\<leftarrow>vs. rt_Nodes v \<noteq> 0]) (rt_LastHour dst)"
proof (induction vs arbitrary: dst)
  case (Cons v vs)
  then obtain d where d: "ReplicationTargetStats_Merge dst (Some v) = Some d"
    and r: "ReplicationTargetStats_Merge_all vs d = Some r" by (auto split: option.splits)
  have "rt_SinceStart d = (if rt_Nodes v = 0 then rt_SinceStart dst
        else ReplicationStats_add (rt_SinceStart dst) (rt_SinceStart v))"
    and "rt_LastHour d = (if rt_Nodes v = 0 then rt_LastHour dst
        else ReplicationStats_add (rt_LastHour dst) (rt_LastHour v))"
    using d by (auto simp: ReplicationTargetStats_Merge_def Let_def split: if_splits bind_splits)
  then show ?case using Cons.IH [OF r] by simp
qed simp

text \<open>So they do not depend on the order of the targets.\<close>

lemma AllTargets_order:
  fixes m :: "('f::{lattice,comm_monoid_add}) ReplicationMetrics"
  assumes o: "gm_order (rpm_Targets m) ks" "gm_order (rpm_Targets m) ks'"
    and r: "ReplicationMetrics_AllTargets m ks = Some r" "ReplicationMetrics_AllTargets m ks' = Some r'"
    and ok: "\<And>k v. gm_get (rpm_Targets m) k = Some v \<Longrightarrow> ReplicationStats_untimed (rt_SinceStart v)"
    and w: "(\<Sum>v\<leftarrow>gm_vals (rpm_Targets m) ks. ReplicationStats_weight (rt_SinceStart v)) < 2 ^ 63"
  shows "rt_SinceStart r = rt_SinceStart r'"
proof -
  let ?g = "\<lambda>ks. map rt_SinceStart [v\<leftarrow>gm_vals (rpm_Targets m) ks. rt_Nodes v \<noteq> 0]"
  have "mset (?g ks) = mset (?g ks')"
    using arg_cong [OF gm_vals_mset [OF o],
        of "\<lambda>M. image_mset rt_SinceStart (filter_mset (\<lambda>v. rt_Nodes v \<noteq> 0) M)"] by simp
  moreover have "list_all ReplicationStats_untimed (?g ks)"
    unfolding list_all_iff by (auto dest!: gm_vals_mem intro: ok)
  moreover have "total_weight ReplicationStats_weight (?g ks) < 2 ^ 63"
  proof -
    have "(\<Sum>v\<leftarrow>[v\<leftarrow>vs. P v]. f v) \<le> (\<Sum>v\<leftarrow>vs. f v)"
      for vs P and f :: "'f ReplicationTargetStats \<Rightarrow> nat"
      by (induction vs) simp_all
    from le_less_trans [OF this w] show ?thesis by (simp add: comp_def)
  qed
  ultimately have "add_all ReplicationStats_add (?g ks) ReplicationStats_zero =
      add_all ReplicationStats_add (?g ks') ReplicationStats_zero"
    by (rule repl_untimed.total_perm)
  moreover have "rt_SinceStart q = add_all ReplicationStats_add (?g l) ReplicationStats_zero"
    if "ReplicationMetrics_AllTargets m l = Some q" for l q
    using Merge_all_SinceStart that
    unfolding ReplicationMetrics_AllTargets_def ReplicationTargetStats_zero_def by fastforce
  ultimately show ?thesis using r by simp
qed

end
