(* ===== verification/Counters.thy ===== *)
theory Counters
  imports Segmented
begin

text \<open>
  The leaf statistics of \<open>utils.go\<close>, \<open>metrics.go\<close>, \<open>info-commands.go\<close> and \<open>external.go\<close>:
  timed actions, disk actions, disk IO counters, cache counters, space totals and network
  device lines. Each record keeps the fields of its Go struct (with a prefix), each
  \<open>_Merge\<close> or \<open>_Add\<close> is the method of that name on a pointer that is set; a nil argument (or
  receiver) leaves the receiver as it is (\<open>if_set\<close>). The interpretations at the end of each
  part show that the method obeys the merge contract of \<open>Merge_Laws\<close>.
\<close>

subsection \<open>TimedAction (utils.go)\<close>

record TimedAction =
  ta_Count :: u64
  ta_AccTime :: u64
  ta_MinTime :: u64
  ta_MaxTime :: u64
  ta_Bytes :: u64

definition TimedAction_zero :: TimedAction where
  "TimedAction_zero = \<lparr>ta_Count = 0, ta_AccTime = 0, ta_MinTime = 0, ta_MaxTime = 0, ta_Bytes = 0\<rparr>"

definition TimedAction_Avg :: "TimedAction \<Rightarrow> duration" where
  "TimedAction_Avg t = (if ta_Count t = 0 then 0 else ta_AccTime t div ta_Count t)"

definition TimedAction_AvgBytes :: "TimedAction \<Rightarrow> u64" where
  "TimedAction_AvgBytes t = (if ta_Count t = 0 then 0 else ta_Bytes t div ta_Count t)"

definition TimedAction_Merge :: "TimedAction \<Rightarrow> TimedAction \<Rightarrow> TimedAction" where
  "TimedAction_Merge t other =
    (let t = (if ta_Count t = 0 then t\<lparr>ta_MinTime := ta_MinTime other\<rparr> else t);
         t = (if ta_Count other > 0
              then t\<lparr>ta_MinTime := min (ta_MinTime t) (ta_MinTime other)\<rparr> else t)
     in t\<lparr>ta_Count := ta_Count t + ta_Count other,
          ta_AccTime := ta_AccTime t + ta_AccTime other,
          ta_Bytes := ta_Bytes t + ta_Bytes other,
          ta_MaxTime := max (ta_MaxTime t) (ta_MaxTime other)\<rparr>)"

text \<open>A record without actions has no minimum; merging keeps that as long as the count fits.\<close>

definition TimedAction_wf :: "TimedAction \<Rightarrow> bool" where
  "TimedAction_wf t \<longleftrightarrow> (ta_Count t = 0 \<longrightarrow> ta_MinTime t = 0)"

abbreviation TimedAction_weight :: "TimedAction \<Rightarrow> nat" where
  "TimedAction_weight t \<equiv> unat (ta_Count t)"

lemma word_add_eq_0_nowrap:
  fixes a b :: "'a::len word"
  assumes "unat a + unat b < 2 ^ LENGTH('a)"
  shows "a + b = 0 \<longleftrightarrow> a = 0 \<and> b = 0"
proof -
  have "unat (a + b) = unat a + unat b" using assms by (simp add: unat_add_lem)
  then show ?thesis by (metis add_is_0 unat_eq_zero)
qed

lemma unat_add_nowrap64:
  "unat (a :: u64) + unat b < 18446744073709551616 \<Longrightarrow> unat (a + b) = unat a + unat b"
  using unat_add_lem [of a b] by simp

lemmas add_eq_0_nowrap64 = word_add_eq_0_nowrap [where 'a = 64, simplified]

text \<open>The merged fields, with the minimum read off by cases on the counts.\<close>

lemma TimedAction_Merge_sel [simp]:
  "ta_Count (TimedAction_Merge a b) = ta_Count a + ta_Count b"
  "ta_AccTime (TimedAction_Merge a b) = ta_AccTime a + ta_AccTime b"
  "ta_Bytes (TimedAction_Merge a b) = ta_Bytes a + ta_Bytes b"
  "ta_MaxTime (TimedAction_Merge a b) = max (ta_MaxTime a) (ta_MaxTime b)"
  by (simp_all add: TimedAction_Merge_def Let_def)

lemma TimedAction_Merge_MinTime:
  "ta_MinTime (TimedAction_Merge a b) =
    (if ta_Count b = 0 then (if ta_Count a = 0 then ta_MinTime b else ta_MinTime a)
     else if ta_Count a = 0 then ta_MinTime b else min (ta_MinTime a) (ta_MinTime b))"
  by (simp add: TimedAction_Merge_def Let_def word_neq_0_conv)

lemma TimedAction_Merge_comm:
  "TimedAction_wf a \<Longrightarrow> TimedAction_wf b \<Longrightarrow> TimedAction_Merge a b = TimedAction_Merge b a"
  by (rule TimedAction.equality)
    (auto simp: TimedAction_Merge_MinTime TimedAction_wf_def add.commute max.commute min.commute)

lemma TimedAction_Merge_assoc:
  assumes "TimedAction_wf a" "TimedAction_wf b" "TimedAction_wf c"
    and "TimedAction_weight a + TimedAction_weight b + TimedAction_weight c < 2 ^ 64"
  shows "TimedAction_Merge (TimedAction_Merge a b) c = TimedAction_Merge a (TimedAction_Merge b c)"
proof (rule TimedAction.equality)
  have "ta_Count a + ta_Count b = 0 \<longleftrightarrow> ta_Count a = 0 \<and> ta_Count b = 0"
    and "ta_Count b + ta_Count c = 0 \<longleftrightarrow> ta_Count b = 0 \<and> ta_Count c = 0"
    using assms(4) by (simp_all add: add_eq_0_nowrap64)
  then show "ta_MinTime (TimedAction_Merge (TimedAction_Merge a b) c) =
      ta_MinTime (TimedAction_Merge a (TimedAction_Merge b c))"
    using assms(1-3) by (simp add: TimedAction_Merge_MinTime TimedAction_wf_def min.assoc)
qed (simp_all add: add.assoc max.assoc)

lemma TimedAction_zero_sel [simp]:
  "ta_Count TimedAction_zero = 0" "ta_AccTime TimedAction_zero = 0"
  "ta_MinTime TimedAction_zero = 0" "ta_MaxTime TimedAction_zero = 0" "ta_Bytes TimedAction_zero = 0"
  by (simp_all add: TimedAction_zero_def)

lemma TimedAction_Merge_zero_left: "TimedAction_Merge TimedAction_zero a = a"
  by (rule TimedAction.equality) (simp_all add: TimedAction_Merge_MinTime)

lemma TimedAction_wf_zero: "TimedAction_wf TimedAction_zero"
  by (simp add: TimedAction_wf_def)

interpretation timed: merge_comm TimedAction_wf TimedAction_weight "2 ^ 64" TimedAction_zero TimedAction_Merge
proof unfold_locales
  fix a b c :: TimedAction
  assume wf: "TimedAction_wf a" "TimedAction_wf b"
  show "TimedAction_Merge a TimedAction_zero = a"
    using TimedAction_Merge_comm [OF wf(1) TimedAction_wf_zero] by (simp add: TimedAction_Merge_zero_left)
  show "TimedAction_Merge a b = TimedAction_Merge b a"
    by (rule TimedAction_Merge_comm [OF wf])
  show "TimedAction_wf (TimedAction_Merge a b)" if "TimedAction_weight a + TimedAction_weight b < 2 ^ 64"
    using that wf by (simp add: TimedAction_wf_def TimedAction_Merge_MinTime add_eq_0_nowrap64)
qed (simp_all add: TimedAction_wf_zero TimedAction_Merge_zero_left TimedAction_Merge_assoc unat_add_nowrap64)

subsection \<open>DiskAction (utils.go)\<close>

record 'f DiskAction =
  da_Count :: u64
  da_AccTime :: 'f
  da_MinTime :: 'f
  da_MaxTime :: 'f
  da_Bytes :: u64
  da_AvailabilityErrs :: u64
  da_Timeouts :: u64

definition DiskAction_zero :: "'f::zero DiskAction" where
  "DiskAction_zero = \<lparr>da_Count = 0, da_AccTime = 0, da_MinTime = 0, da_MaxTime = 0, da_Bytes = 0,
     da_AvailabilityErrs = 0, da_Timeouts = 0\<rparr>"

text \<open>
  \<open>Avg\<close> converts through \<open>float64\<close>; \<open>of_u64\<close> is \<open>float64(n)\<close> and \<open>to_i64\<close> the conversion
  back to an integer type.
\<close>

definition DiskAction_Avg :: "(u64 \<Rightarrow> 'f) \<Rightarrow> ('f \<Rightarrow> i64) \<Rightarrow> ('f::{zero,times,inverse}) DiskAction \<Rightarrow> duration" where
  "DiskAction_Avg of_u64 to_i64 t = (if da_Count t = 0 then 0
     else to_i64 (da_AccTime t * of_u64 1000000000 / of_u64 (da_Count t)))"

definition DiskAction_AvgBytes :: "'f DiskAction \<Rightarrow> u64" where
  "DiskAction_AvgBytes t = (if da_Count t = 0 then 0 else da_Bytes t div da_Count t)"

definition DiskAction_Add :: "('f::{plus,inf,sup}) DiskAction \<Rightarrow> 'f DiskAction \<Rightarrow> 'f DiskAction" where
  "DiskAction_Add t other =
    (let t = (if da_Count t = 0 then t\<lparr>da_MinTime := da_MinTime other\<rparr> else t);
         t = (if da_Count other > 0
              then t\<lparr>da_MinTime := inf (da_MinTime t) (da_MinTime other)\<rparr> else t)
     in t\<lparr>da_Count := da_Count t + da_Count other,
          da_AccTime := da_AccTime t + da_AccTime other,
          da_Bytes := da_Bytes t + da_Bytes other,
          da_MaxTime := sup (da_MaxTime t) (da_MaxTime other),
          da_AvailabilityErrs := da_AvailabilityErrs t + da_AvailabilityErrs other,
          da_Timeouts := da_Timeouts t + da_Timeouts other\<rparr>)"

lemma DiskAction_Add_sel [simp]:
  "da_Count (DiskAction_Add a b) = da_Count a + da_Count b"
  "da_AccTime (DiskAction_Add a b) = da_AccTime a + da_AccTime b"
  "da_Bytes (DiskAction_Add a b) = da_Bytes a + da_Bytes b"
  "da_MaxTime (DiskAction_Add a b) = sup (da_MaxTime a) (da_MaxTime b)"
  "da_AvailabilityErrs (DiskAction_Add a b) = da_AvailabilityErrs a + da_AvailabilityErrs b"
  "da_Timeouts (DiskAction_Add a b) = da_Timeouts a + da_Timeouts b"
  by (simp_all add: DiskAction_Add_def Let_def)

lemma DiskAction_Add_MinTime:
  fixes a b :: "('f::{plus,semilattice_inf,sup}) DiskAction"
  shows "da_MinTime (DiskAction_Add a b) =
    (if da_Count b = 0 then (if da_Count a = 0 then da_MinTime b else da_MinTime a)
     else if da_Count a = 0 then da_MinTime b else inf (da_MinTime a) (da_MinTime b))"
  by (simp add: DiskAction_Add_def Let_def word_neq_0_conv)

text \<open>Times are not negative, and a record without actions has no minimum.\<close>

definition DiskAction_wf :: "('f::{zero,ord}) DiskAction \<Rightarrow> bool" where
  "DiskAction_wf t \<longleftrightarrow> 0 \<le> da_MaxTime t \<and> (da_Count t = 0 \<longrightarrow> da_MinTime t = 0)"

abbreviation DiskAction_weight :: "'f DiskAction \<Rightarrow> nat" where
  "DiskAction_weight t \<equiv> unat (da_Count t)"

lemma DiskAction_zero_sel [simp]:
  "da_Count DiskAction_zero = 0" "da_AccTime DiskAction_zero = 0"
  "da_MinTime DiskAction_zero = 0" "da_MaxTime DiskAction_zero = 0" "da_Bytes DiskAction_zero = 0"
  "da_AvailabilityErrs DiskAction_zero = 0" "da_Timeouts DiskAction_zero = 0"
  by (simp_all add: DiskAction_zero_def)

lemma DiskAction_Add_comm:
  fixes a b :: "('f::{lattice,comm_monoid_add}) DiskAction"
  shows "DiskAction_wf a \<Longrightarrow> DiskAction_wf b \<Longrightarrow> DiskAction_Add a b = DiskAction_Add b a"
  by (rule DiskAction.equality)
    (auto simp: DiskAction_Add_MinTime DiskAction_wf_def add.commute sup.commute inf.commute)

lemma DiskAction_Add_assoc:
  fixes a b c :: "('f::{lattice,comm_monoid_add}) DiskAction"
  assumes "DiskAction_wf a" "DiskAction_wf b" "DiskAction_wf c"
    and "DiskAction_weight a + DiskAction_weight b + DiskAction_weight c < 2 ^ 64"
  shows "DiskAction_Add (DiskAction_Add a b) c = DiskAction_Add a (DiskAction_Add b c)"
proof (rule DiskAction.equality)
  have "da_Count a + da_Count b = 0 \<longleftrightarrow> da_Count a = 0 \<and> da_Count b = 0"
    and "da_Count b + da_Count c = 0 \<longleftrightarrow> da_Count b = 0 \<and> da_Count c = 0"
    using assms(4) by (simp_all add: add_eq_0_nowrap64)
  then show "da_MinTime (DiskAction_Add (DiskAction_Add a b) c) =
      da_MinTime (DiskAction_Add a (DiskAction_Add b c))"
    using assms(1-3) by (simp add: DiskAction_Add_MinTime DiskAction_wf_def inf.assoc)
qed (simp_all add: add.assoc sup.assoc)

lemma DiskAction_Add_zero_left:
  fixes a :: "('f::{lattice,comm_monoid_add}) DiskAction"
  shows "DiskAction_wf a \<Longrightarrow> DiskAction_Add DiskAction_zero a = a"
  by (rule DiskAction.equality) (simp_all add: DiskAction_Add_MinTime DiskAction_wf_def sup_absorb2)

lemma DiskAction_wf_zero: "DiskAction_wf (DiskAction_zero :: ('f::{zero,preorder}) DiskAction)"
  by (simp add: DiskAction_wf_def)

interpretation disk: merge_comm "DiskAction_wf :: ('f::{lattice,comm_monoid_add}) DiskAction \<Rightarrow> bool"
  DiskAction_weight "2 ^ 64" DiskAction_zero DiskAction_Add
proof unfold_locales
  fix a b c :: "'f DiskAction"
  assume wf: "DiskAction_wf a" "DiskAction_wf b"
  show "DiskAction_Add a DiskAction_zero = a"
    using DiskAction_Add_comm [OF wf(1) DiskAction_wf_zero] wf(1) by (simp add: DiskAction_Add_zero_left)
  show "DiskAction_Add a b = DiskAction_Add b a"
    by (rule DiskAction_Add_comm [OF wf])
  show "DiskAction_wf (DiskAction_Add a b)" if "DiskAction_weight a + DiskAction_weight b < 2 ^ 64"
    using that wf by (auto simp: DiskAction_wf_def DiskAction_Add_MinTime add_eq_0_nowrap64 le_supI1)
qed (simp_all add: DiskAction_wf_zero DiskAction_Add_zero_left DiskAction_Add_assoc unat_add_nowrap64)

subsection \<open>DiskIOStats (metrics.go)\<close>

record DiskIOStats =
  io_N :: i64
  io_ReadIOs :: u64
  io_ReadMerges :: u64
  io_ReadSectors :: u64
  io_ReadTicks :: u64
  io_WriteIOs :: u64
  io_WriteMerges :: u64
  io_WriteSectors :: u64
  io_WriteTicks :: u64
  io_CurrentIOs :: u64
  io_TotalTicks :: u64
  io_ReqTicks :: u64
  io_DiscardIOs :: u64
  io_DiscardMerges :: u64
  io_DiscardSectors :: u64
  io_DiscardTicks :: u64
  io_FlushIOs :: u64
  io_FlushTicks :: u64

text \<open>
  \<open>DiskIOStatsLegacy\<close> has the same fields under other JSON names; Go's conversion between
  the two types copies the fields, so both are one record here.
\<close>

type_synonym DiskIOStatsLegacy = DiskIOStats

definition DiskIOStats_zero :: DiskIOStats where
  "DiskIOStats_zero = \<lparr>io_N = 0, io_ReadIOs = 0, io_ReadMerges = 0, io_ReadSectors = 0, io_ReadTicks = 0,
     io_WriteIOs = 0, io_WriteMerges = 0, io_WriteSectors = 0, io_WriteTicks = 0, io_CurrentIOs = 0,
     io_TotalTicks = 0, io_ReqTicks = 0, io_DiscardIOs = 0, io_DiscardMerges = 0,
     io_DiscardSectors = 0, io_DiscardTicks = 0, io_FlushIOs = 0, io_FlushTicks = 0\<rparr>"

definition DiskIOStats_Add :: "DiskIOStats \<Rightarrow> DiskIOStats \<Rightarrow> DiskIOStats" where
  "DiskIOStats_Add d other = d\<lparr>
     io_N := io_N d + io_N other,
     io_ReadIOs := io_ReadIOs d + io_ReadIOs other,
     io_ReadMerges := io_ReadMerges d + io_ReadMerges other,
     io_ReadSectors := io_ReadSectors d + io_ReadSectors other,
     io_ReadTicks := io_ReadTicks d + io_ReadTicks other,
     io_WriteIOs := io_WriteIOs d + io_WriteIOs other,
     io_WriteMerges := io_WriteMerges d + io_WriteMerges other,
     io_WriteSectors := io_WriteSectors d + io_WriteSectors other,
     io_WriteTicks := io_WriteTicks d + io_WriteTicks other,
     io_CurrentIOs := io_CurrentIOs d + io_CurrentIOs other,
     io_TotalTicks := io_TotalTicks d + io_TotalTicks other,
     io_ReqTicks := io_ReqTicks d + io_ReqTicks other,
     io_DiscardIOs := io_DiscardIOs d + io_DiscardIOs other,
     io_DiscardMerges := io_DiscardMerges d + io_DiscardMerges other,
     io_DiscardSectors := io_DiscardSectors d + io_DiscardSectors other,
     io_DiscardTicks := io_DiscardTicks d + io_DiscardTicks other,
     io_FlushIOs := io_FlushIOs d + io_FlushIOs other,
     io_FlushTicks := io_FlushTicks d + io_FlushTicks other\<rparr>"

interpretation diskio: merge_comm "\<lambda>_. True" "\<lambda>_. 0" 1 DiskIOStats_zero DiskIOStats_Add
  by unfold_locales
    (simp_all add: DiskIOStats_Add_def DiskIOStats_zero_def add.commute add.assoc)

subsection \<open>CacheStats (info-commands.go)\<close>

record CacheStats =
  cs_N :: i64
  cs_Capacity :: i64
  cs_Used :: i64
  cs_Hits :: i64
  cs_Misses :: i64
  cs_DelHits :: i64
  cs_DelMisses :: i64
  cs_Collisions :: i64

definition CacheStats_zero :: CacheStats where
  "CacheStats_zero = \<lparr>cs_N = 0, cs_Capacity = 0, cs_Used = 0, cs_Hits = 0, cs_Misses = 0,
     cs_DelHits = 0, cs_DelMisses = 0, cs_Collisions = 0\<rparr>"

definition CacheStats_Merge :: "CacheStats \<Rightarrow> CacheStats \<Rightarrow> CacheStats" where
  "CacheStats_Merge c other = c\<lparr>
     cs_N := cs_N c + cs_N other,
     cs_Capacity := cs_Capacity c + cs_Capacity other,
     cs_Used := cs_Used c + cs_Used other,
     cs_Hits := cs_Hits c + cs_Hits other,
     cs_Misses := cs_Misses c + cs_Misses other,
     cs_DelHits := cs_DelHits c + cs_DelHits other,
     cs_DelMisses := cs_DelMisses c + cs_DelMisses other,
     cs_Collisions := cs_Collisions c + cs_Collisions other\<rparr>"

interpretation cache: merge_comm "\<lambda>_. True" "\<lambda>_. 0" 1 CacheStats_zero CacheStats_Merge
  by unfold_locales
    (simp_all add: CacheStats_Merge_def CacheStats_zero_def add.commute add.assoc)

subsection \<open>TotalMinMaxUint64 and DriveSpaceInfo (metrics.go)\<close>

record TotalMinMaxUint64 =
  tm_Total :: u64
  tm_Min :: u64
  tm_Max :: u64

definition TotalMinMaxUint64_SetAll :: "TotalMinMaxUint64 \<Rightarrow> u64 \<Rightarrow> TotalMinMaxUint64" where
  "TotalMinMaxUint64_SetAll t v = t\<lparr>tm_Total := v, tm_Min := v, tm_Max := v\<rparr>"

definition TotalMinMaxUint64_Merge :: "TotalMinMaxUint64 \<Rightarrow> TotalMinMaxUint64 \<Rightarrow> i64 \<Rightarrow> TotalMinMaxUint64" where
  "TotalMinMaxUint64_Merge t other tCnt =
    (let t = t\<lparr>tm_Total := tm_Total t + tm_Total other\<rparr>;
         t = (if tCnt = 0 \<or> tm_Min t > tm_Min other then t\<lparr>tm_Min := tm_Min other\<rparr> else t)
     in t\<lparr>tm_Max := max (tm_Max t) (tm_Max other)\<rparr>)"

definition TotalMinMaxUint64_zero :: TotalMinMaxUint64 where
  "TotalMinMaxUint64_zero = \<lparr>tm_Total = 0, tm_Min = 0, tm_Max = 0\<rparr>"

record DriveSpaceInfo =
  ds_N :: i64
  ds_Free :: TotalMinMaxUint64
  ds_Used :: TotalMinMaxUint64
  ds_UsedInodes :: TotalMinMaxUint64
  ds_FreeInodes :: TotalMinMaxUint64

definition DriveSpaceInfo_zero :: DriveSpaceInfo where
  "DriveSpaceInfo_zero = \<lparr>ds_N = 0, ds_Free = TotalMinMaxUint64_zero, ds_Used = TotalMinMaxUint64_zero,
     ds_UsedInodes = TotalMinMaxUint64_zero, ds_FreeInodes = TotalMinMaxUint64_zero\<rparr>"

text \<open>The count passed on is the one after the addition, as in the source.\<close>

definition DriveSpaceInfo_Merge :: "DriveSpaceInfo \<Rightarrow> DriveSpaceInfo \<Rightarrow> DriveSpaceInfo" where
  "DriveSpaceInfo_Merge d other =
    (let d = d\<lparr>ds_N := ds_N d + ds_N other\<rparr>;
         d = d\<lparr>ds_Free := TotalMinMaxUint64_Merge (ds_Free d) (ds_Free other) (ds_N d)\<rparr>;
         d = d\<lparr>ds_Used := TotalMinMaxUint64_Merge (ds_Used d) (ds_Used other) (ds_N d)\<rparr>;
         d = d\<lparr>ds_UsedInodes := TotalMinMaxUint64_Merge (ds_UsedInodes d) (ds_UsedInodes other) (ds_N d)\<rparr>;
         d = d\<lparr>ds_FreeInodes := TotalMinMaxUint64_Merge (ds_FreeInodes d) (ds_FreeInodes other) (ds_N d)\<rparr>
     in d)"

lemma TotalMinMaxUint64_Merge_sel [simp]:
  "tm_Total (TotalMinMaxUint64_Merge t u n) = tm_Total t + tm_Total u"
  "tm_Min (TotalMinMaxUint64_Merge t u n) = (if n = 0 then tm_Min u else min (tm_Min t) (tm_Min u))"
  "tm_Max (TotalMinMaxUint64_Merge t u n) = max (tm_Max t) (tm_Max u)"
  by (auto simp: TotalMinMaxUint64_Merge_def Let_def min_def)

lemma TotalMinMaxUint64_zero_sel [simp]:
  "tm_Total TotalMinMaxUint64_zero = 0" "tm_Min TotalMinMaxUint64_zero = 0" "tm_Max TotalMinMaxUint64_zero = 0"
  by (simp_all add: TotalMinMaxUint64_zero_def)

lemma DriveSpaceInfo_Merge_sel [simp]:
  "ds_N (DriveSpaceInfo_Merge d e) = ds_N d + ds_N e"
  "ds_Free (DriveSpaceInfo_Merge d e) = TotalMinMaxUint64_Merge (ds_Free d) (ds_Free e) (ds_N d + ds_N e)"
  "ds_Used (DriveSpaceInfo_Merge d e) = TotalMinMaxUint64_Merge (ds_Used d) (ds_Used e) (ds_N d + ds_N e)"
  "ds_UsedInodes (DriveSpaceInfo_Merge d e) =
     TotalMinMaxUint64_Merge (ds_UsedInodes d) (ds_UsedInodes e) (ds_N d + ds_N e)"
  "ds_FreeInodes (DriveSpaceInfo_Merge d e) =
     TotalMinMaxUint64_Merge (ds_FreeInodes d) (ds_FreeInodes e) (ds_N d + ds_N e)"
  by (simp_all add: DriveSpaceInfo_Merge_def Let_def)

lemma TotalMinMaxUint64_Merge_comm:
  "n \<noteq> 0 \<Longrightarrow> TotalMinMaxUint64_Merge t u n = TotalMinMaxUint64_Merge u t n"
  by (rule TotalMinMaxUint64.equality) (auto simp: add.commute max.commute min_def)

lemma TotalMinMaxUint64_Merge_assoc:
  "n \<noteq> 0 \<Longrightarrow> m \<noteq> 0 \<Longrightarrow> k \<noteq> 0 \<Longrightarrow> l \<noteq> 0 \<Longrightarrow>
   TotalMinMaxUint64_Merge (TotalMinMaxUint64_Merge t u n) v m =
   TotalMinMaxUint64_Merge t (TotalMinMaxUint64_Merge u v k) l"
  by (rule TotalMinMaxUint64.equality) (simp_all add: add.assoc min.assoc max.assoc)

subsection \<open>procfsNetDevLine (external.go) and InterfaceStats (metrics.go)\<close>

record procfsNetDevLine =
  nd_Name :: string
  nd_RxBytes :: u64
  nd_RxPackets :: u64
  nd_RxErrors :: u64
  nd_RxDropped :: u64
  nd_RxFIFO :: u64
  nd_RxFrame :: u64
  nd_RxCompressed :: u64
  nd_RxMulticast :: u64
  nd_TxBytes :: u64
  nd_TxPackets :: u64
  nd_TxErrors :: u64
  nd_TxDropped :: u64
  nd_TxFIFO :: u64
  nd_TxCollisions :: u64
  nd_TxCarrier :: u64
  nd_TxCompressed :: u64

definition procfsNetDevLine_zero :: procfsNetDevLine where
  "procfsNetDevLine_zero = \<lparr>nd_Name = [], nd_RxBytes = 0, nd_RxPackets = 0, nd_RxErrors = 0,
     nd_RxDropped = 0, nd_RxFIFO = 0, nd_RxFrame = 0, nd_RxCompressed = 0, nd_RxMulticast = 0,
     nd_TxBytes = 0, nd_TxPackets = 0, nd_TxErrors = 0, nd_TxDropped = 0, nd_TxFIFO = 0,
     nd_TxCollisions = 0, nd_TxCarrier = 0, nd_TxCompressed = 0\<rparr>"

text \<open>\<open>cmp.Or\<close> returns its first argument that is not the zero value.\<close>

definition cmp_Or :: "string \<Rightarrow> string \<Rightarrow> string" where
  "cmp_Or a b = (if a \<noteq> [] then a else b)"

definition procfsNetDevLine_add :: "procfsNetDevLine \<Rightarrow> procfsNetDevLine \<Rightarrow> procfsNetDevLine" where
  "procfsNetDevLine_add p other = \<lparr>
     nd_Name = cmp_Or (nd_Name p) (nd_Name other),
     nd_RxBytes = nd_RxBytes p + nd_RxBytes other,
     nd_RxPackets = nd_RxPackets p + nd_RxPackets other,
     nd_RxErrors = nd_RxErrors p + nd_RxErrors other,
     nd_RxDropped = nd_RxDropped p + nd_RxDropped other,
     nd_RxFIFO = nd_RxFIFO p + nd_RxFIFO other,
     nd_RxFrame = nd_RxFrame p + nd_RxFrame other,
     nd_RxCompressed = nd_RxCompressed p + nd_RxCompressed other,
     nd_RxMulticast = nd_RxMulticast p + nd_RxMulticast other,
     nd_TxBytes = nd_TxBytes p + nd_TxBytes other,
     nd_TxPackets = nd_TxPackets p + nd_TxPackets other,
     nd_TxErrors = nd_TxErrors p + nd_TxErrors other,
     nd_TxDropped = nd_TxDropped p + nd_TxDropped other,
     nd_TxFIFO = nd_TxFIFO p + nd_TxFIFO other,
     nd_TxCollisions = nd_TxCollisions p + nd_TxCollisions other,
     nd_TxCarrier = nd_TxCarrier p + nd_TxCarrier other,
     nd_TxCompressed = nd_TxCompressed p + nd_TxCompressed other\<rparr>"

interpretation netdev: merge_laws "\<lambda>_. True" "\<lambda>_. 0" 1 procfsNetDevLine_zero procfsNetDevLine_add
  by unfold_locales
    (simp_all add: procfsNetDevLine_add_def procfsNetDevLine_zero_def cmp_Or_def)

record InterfaceStats =
  is_N :: i64
  is_NetDevLine :: procfsNetDevLine

definition InterfaceStats_zero :: InterfaceStats where
  "InterfaceStats_zero = \<lparr>is_N = 0, is_NetDevLine = procfsNetDevLine_zero\<rparr>"

text \<open>The source passes the receiver's \<open>N\<close> on and leaves the argument's out.\<close>

definition InterfaceStats_add :: "InterfaceStats \<Rightarrow> InterfaceStats \<Rightarrow> InterfaceStats" where
  "InterfaceStats_add n other = \<lparr>is_N = is_N n,
     is_NetDevLine = procfsNetDevLine_add (is_NetDevLine n) (is_NetDevLine other)\<rparr>"

lemma InterfaceStats_add_zero_left:
  "InterfaceStats_add InterfaceStats_zero x = x\<lparr>is_N := 0\<rparr>"
  by (rule InterfaceStats.equality)
    (simp_all add: InterfaceStats_add_def InterfaceStats_zero_def netdev.zero_left)

end
