(* ===== verification/Go_Text.thy ===== *)
theory Go_Text
  imports Go_Base
begin

text \<open>
  The parts of Go's \<open>strconv\<close>, \<open>strings\<close> and \<open>time\<close> that the request builders use: decimal
  numbers, booleans, joining, comparison without case, and \<open>Duration.String\<close>. A Go string is
  the list of its bytes.
\<close>

subsection \<open>Decimal numbers\<close>

definition digit :: "nat \<Rightarrow> char" where
  "digit d = char_of (48 + d)"

fun fmt_nat :: "nat \<Rightarrow> string" where
  "fmt_nat n = (if n < 10 then [digit n] else fmt_nat (n div 10) @ [digit (n mod 10)])"

declare fmt_nat.simps [simp del]

definition fmt_int :: "int \<Rightarrow> string" where
  "fmt_int i = (if i < 0 then CHR ''-'' # fmt_nat (nat (- i)) else fmt_nat (nat i))"

definition FormatBool :: "bool \<Rightarrow> string" where
  "FormatBool b = (if b then ''true'' else ''false'')"

fun parse_digits :: "nat \<Rightarrow> string \<Rightarrow> nat option" where
  "parse_digits acc [] = Some acc"
| "parse_digits acc (c # cs) = (let n = of_char c in
     if 48 \<le> n \<and> n \<le> (57 :: nat) then parse_digits (acc * 10 + (n - 48)) cs else None)"

definition parse_nat :: "string \<Rightarrow> nat option" where
  "parse_nat s = (if s = [] then None else parse_digits 0 s)"

lemma of_char_digit [simp]: "d < 10 \<Longrightarrow> of_char (digit d) = (48 + d :: nat)"
  by (simp add: digit_def)

lemma parse_digits_append:
  "parse_digits acc (xs @ ys) = (case parse_digits acc xs of None \<Rightarrow> None | Some a \<Rightarrow> parse_digits a ys)"
  by (induction acc xs rule: parse_digits.induct) (simp_all add: Let_def)

lemma parse_digits_fmt_nat: "parse_digits 0 (fmt_nat n) = Some n"
proof (induction n rule: fmt_nat.induct)
  case (1 n)
  show ?case
  proof (cases "n < 10")
    case True
    then show ?thesis by (simp add: fmt_nat.simps [of n])
  next
    case False
    then show ?thesis
      using 1 by (simp add: fmt_nat.simps [of n] parse_digits_append)
  qed
qed

lemma fmt_nat_not_Nil [simp]: "fmt_nat n \<noteq> []"
  by (subst fmt_nat.simps) simp

lemma parse_fmt_nat [simp]: "parse_nat (fmt_nat n) = Some n"
  by (simp add: parse_nat_def parse_digits_fmt_nat)

lemma fmt_nat_inj: "fmt_nat m = fmt_nat n \<Longrightarrow> m = n"
  by (metis option.inject parse_fmt_nat)

lemma fmt_nat_digits: "c \<in> set (fmt_nat n) \<Longrightarrow> 48 \<le> (of_char c :: nat) \<and> of_char c \<le> (57 :: nat)"
proof (induction n rule: fmt_nat.induct)
  case (1 n)
  then show ?case by (subst (asm) (2) fmt_nat.simps) (auto split: if_splits)
qed

subsection \<open>Joining and comparing\<close>

fun join :: "string \<Rightarrow> string list \<Rightarrow> string" where
  "join sep [] = []"
| "join sep [x] = x"
| "join sep (x # y # zs) = x @ sep @ join sep (y # zs)"

definition ascii_lower :: "char \<Rightarrow> char" where
  "ascii_lower c = (let n = of_char c in if 65 \<le> n \<and> n \<le> (90 :: nat) then char_of (n + 32) else c)"

text \<open>
  \<open>strings.EqualFold(s, t)\<close> for an ASCII \<open>t\<close>: besides the two cases of a letter, the Kelvin
  sign (bytes E2 84 AA) folds to k and the long s (C5 BF) to s.
\<close>

fun fold_case :: "string \<Rightarrow> string" where
  "fold_case [] = []"
| "fold_case [c] = [ascii_lower c]"
| "fold_case [c, d] = (if c = CHR 0xC5 \<and> d = CHR 0xBF then ''s'' else [ascii_lower c, ascii_lower d])"
| "fold_case (c # d # e # cs) =
    (if c = CHR 0xE2 \<and> d = CHR 0x84 \<and> e = CHR 0xAA then CHR ''k'' # fold_case cs
     else if c = CHR 0xC5 \<and> d = CHR 0xBF then CHR ''s'' # fold_case (e # cs)
     else ascii_lower c # fold_case (d # e # cs))"

definition EqualFold :: "string \<Rightarrow> string \<Rightarrow> bool" where
  "EqualFold s t \<longleftrightarrow> fold_case s = fold_case t"

lemma EqualFold_refl [simp]: "EqualFold s s"
  by (simp add: EqualFold_def)

lemma EqualFold_sym: "EqualFold s t \<longleftrightarrow> EqualFold t s"
  by (auto simp: EqualFold_def)

lemma EqualFold_trans: "EqualFold s t \<Longrightarrow> EqualFold t u \<Longrightarrow> EqualFold s u"
  by (simp add: EqualFold_def)

subsection \<open>Duration.String\<close>

text \<open>The fraction of \<open>v\<close> over \<open>10 ^ prec\<close>, without trailing zeros.\<close>

fun frac_digits :: "nat \<Rightarrow> nat \<Rightarrow> string" where
  "frac_digits 0 v = []"
| "frac_digits (Suc p) v =
    (let rest = frac_digits p (v div 10)
     in rest @ [digit (v mod 10)])"

definition drop_zeros :: "string \<Rightarrow> string" where
  "drop_zeros s = rev (dropWhile (\<lambda>c. c = CHR ''0'') (rev s))"

definition fmtFrac :: "nat \<Rightarrow> nat \<Rightarrow> string" where
  "fmtFrac v prec = (let s = drop_zeros (frac_digits prec v) in if s = [] then [] else CHR ''.'' # s)"

definition Duration_String :: "duration \<Rightarrow> string" where
  "Duration_String d =
    (let u = nat \<bar>sint d\<bar>;
         sign = (if sint d < 0 then ''-'' else [])
     in if u = 0 then ''0s''
     else if u < 1000 then sign @ fmt_nat u @ ''ns''
     else if u < 1000000 then sign @ fmt_nat (u div 1000) @ fmtFrac u 3 @ [CHR 0xC2, CHR 0xB5] @ ''s''
     else if u < 1000000000 then sign @ fmt_nat (u div 1000000) @ fmtFrac u 6 @ ''ms''
     else
       let secs = u div 1000000000;
           mins = secs div 60;
           hours = mins div 60
       in sign @ (if hours > 0 then fmt_nat hours @ ''h'' else [])
          @ (if mins > 0 then fmt_nat (mins mod 60) @ ''m'' else [])
          @ fmt_nat (secs mod 60) @ fmtFrac u 9 @ ''s'')"

end
