(* ===== verification/Node_Metrics.thy ===== *)
theory Node_Metrics
  imports Counters Go_Text
begin

text \<open>
  The metrics of a node in \<open>metrics.go\<close>: scanner, operating system, batch jobs, site resync,
  network, memory, CPU and Go runtime, with \<open>BucketScanInfo\<close> (scanner.go), \<open>NodeCommon\<close>
  (health.go) and \<open>CatalogDataFile\<close> (batch-job-catalog.go). \<open>None\<close> is a panic of the method; a
  method is modelled on a receiver that is not nil (see \<open>Realtime\<close>).
\<close>

text \<open>\<open>for k, v := range src { dst[k] += v }\<close>, with \<open>dst\<close> allocated when \<open>src\<close> has entries.\<close>

definition add_counts :: "('k, 'a::{plus,zero}) gomap \<Rightarrow> ('k, 'a) gomap \<Rightarrow> ('k, 'a) gomap option" where
  "add_counts d s = gm_accum (+) 0 (gm_make_if (gm_nonempty s) d) s"

definition merge_actions :: "('k, TimedAction) gomap \<Rightarrow> ('k, TimedAction) gomap \<Rightarrow> ('k, TimedAction) gomap option" where
  "merge_actions d s = gm_accum TimedAction_Merge TimedAction_zero (gm_make_if (gm_nonempty s) d) s"

lemma add_counts_returns [no_panic]: "\<exists>m. add_counts d s = Some m"
  by (simp add: add_counts_def gm_accum_make_if)

lemma merge_actions_returns [no_panic]: "\<exists>m. merge_actions d s = Some m"
  by (simp add: merge_actions_def gm_accum_make_if)

text \<open>The count of a key, zero where the map has none.\<close>

definition count_of :: "('k, 'a::zero) gomap \<Rightarrow> 'k \<Rightarrow> 'a" where
  "count_of m k = (case gm_get m k of None \<Rightarrow> 0 | Some v \<Rightarrow> v)"

lemma count_of_add_counts:
  fixes d :: "('k, 'a::monoid_add) gomap"
  shows "add_counts d s = Some m \<Longrightarrow> count_of m k = count_of d k + count_of s k"
  unfolding add_counts_def
  by (drule gm_get_accum [where k = k]) (simp add: count_of_def split: option.splits)

lemma gm_get_add_counts_None:
  "add_counts d s = Some m \<Longrightarrow> gm_get m k = None \<longleftrightarrow> gm_get d k = None \<and> gm_get s k = None"
  unfolding add_counts_def
  by (drule gm_get_accum [where k = k]) (auto split: option.splits)

subsection \<open>ScannerMetrics\<close>

record BucketScanInfo =
  bs_Pool :: i64
  bs_Set :: i64
  bs_Cycle :: u64
  bs_Ongoing :: bool
  bs_LastUpdate :: gotime
  bs_LastStarted :: gotime
  bs_LastError :: string
  bs_Completed :: "gotime list"

record ScannerMetrics =
  sm_CollectedAt :: gotime
  sm_OngoingBuckets :: i64
  sm_PerBucketStats :: "(string, BucketScanInfo list) gomap"
  sm_LifeTimeOps :: "(string, u64) gomap"
  sm_LifeTimeILM :: "(string, u64) gomap"
  sm_LastMinuteActions :: "(string, TimedAction) gomap"
  sm_LastMinuteILM :: "(string, TimedAction) gomap"
  sm_ActivePaths :: "string list"
  sm_ExcessivePrefixes :: "string list"

definition ScannerMetrics_zero :: ScannerMetrics where
  "ScannerMetrics_zero = \<lparr>
     sm_CollectedAt = 0, sm_OngoingBuckets = 0, sm_PerBucketStats = None, sm_LifeTimeOps = None,
     sm_LifeTimeILM = None, sm_LastMinuteActions = None, sm_LastMinuteILM = None,
     sm_ActivePaths = [], sm_ExcessivePrefixes = []\<rparr>"

text \<open>
  The prefixes are collected in a map and listed in its iteration order before they are
  sorted: the result is the sorted list of the distinct prefixes.
\<close>

definition ScannerMetrics_Merge :: "ScannerMetrics \<Rightarrow> ScannerMetrics option \<Rightarrow> ScannerMetrics option" where
  "ScannerMetrics_Merge s other = (case other of None \<Rightarrow> Some s | Some other \<Rightarrow> do {
     let s = (if Before (sm_CollectedAt s) (sm_CollectedAt other)
              then s\<lparr>sm_CollectedAt := sm_CollectedAt other\<rparr> else s);
     let s = (if sm_OngoingBuckets s <s sm_OngoingBuckets other
              then s\<lparr>sm_OngoingBuckets := sm_OngoingBuckets other\<rparr> else s);
     perBucket \<leftarrow> gm_range (\<lambda>cur otherSt. if otherSt = [] then None
         else (case cur of None \<Rightarrow> Some otherSt | Some _ \<Rightarrow> None))
       (gm_make_if True (sm_PerBucketStats s)) (sm_PerBucketStats other);
     ops \<leftarrow> add_counts (sm_LifeTimeOps s) (sm_LifeTimeOps other);
     actions \<leftarrow> merge_actions (sm_LastMinuteActions s) (sm_LastMinuteActions other);
     ilm \<leftarrow> add_counts (sm_LifeTimeILM s) (sm_LifeTimeILM other);
     lastIlm \<leftarrow> merge_actions (sm_LastMinuteILM s) (sm_LastMinuteILM other);
     let s = s\<lparr>sm_PerBucketStats := perBucket, sm_LifeTimeOps := ops, sm_LastMinuteActions := actions,
               sm_LifeTimeILM := ilm, sm_LastMinuteILM := lastIlm,
               sm_ActivePaths := sort (sm_ActivePaths s @ sm_ActivePaths other)\<rparr>;
     Some (if sm_ExcessivePrefixes other \<noteq> []
           then s\<lparr>sm_ExcessivePrefixes :=
                   sort (remdups (sm_ExcessivePrefixes s @ sm_ExcessivePrefixes other))\<rparr>
           else s)
   })"

subsection \<open>SensorMetrics and OSMetrics\<close>

record 'f SensorMetrics =
  sn_MinTemp :: 'f
  sn_MaxTemp :: 'f
  sn_TotalTemp :: 'f
  sn_Count :: i64
  sn_ExceedsCritical :: i64

definition SensorMetrics_zero :: "'f::zero SensorMetrics" where
  "SensorMetrics_zero = \<lparr>
     sn_MinTemp = 0, sn_MaxTemp = 0, sn_TotalTemp = 0, sn_Count = 0, sn_ExceedsCritical = 0\<rparr>"

text \<open>The body of the sensor loop in \<open>OSMetrics.Merge\<close>.\<close>

definition SensorMetrics_merge :: "('f::{plus,ord}) SensorMetrics \<Rightarrow> 'f SensorMetrics \<Rightarrow> 'f SensorMetrics" where
  "SensorMetrics_merge existing otherSensor =
    (let existing = (if sn_Count existing = 0
           then existing\<lparr>sn_MinTemp := sn_MinTemp otherSensor, sn_MaxTemp := sn_MaxTemp otherSensor\<rparr>
           else
             let existing = (if sn_MinTemp otherSensor < sn_MinTemp existing
                   then existing\<lparr>sn_MinTemp := sn_MinTemp otherSensor\<rparr> else existing)
             in if sn_MaxTemp otherSensor > sn_MaxTemp existing
                then existing\<lparr>sn_MaxTemp := sn_MaxTemp otherSensor\<rparr> else existing)
     in existing\<lparr>sn_TotalTemp := sn_TotalTemp existing + sn_TotalTemp otherSensor,
                 sn_Count := sn_Count existing + sn_Count otherSensor,
                 sn_ExceedsCritical := sn_ExceedsCritical existing + sn_ExceedsCritical otherSensor\<rparr>)"

record 'f OSMetrics =
  os_CollectedAt :: gotime
  os_LifeTimeOps :: "(string, u64) gomap"
  os_LastMinuteOperations :: "(string, TimedAction) gomap"
  os_Sensors :: "(string, 'f SensorMetrics) gomap"

definition OSMetrics_zero :: "'f OSMetrics" where
  "OSMetrics_zero = \<lparr>
     os_CollectedAt = 0, os_LifeTimeOps = None, os_LastMinuteOperations = None, os_Sensors = None\<rparr>"

definition OSMetrics_Merge ::
  "('f::{plus,zero,ord}) OSMetrics \<Rightarrow> 'f OSMetrics option \<Rightarrow> 'f OSMetrics option" where
  "OSMetrics_Merge o' other = (case other of None \<Rightarrow> Some o' | Some other \<Rightarrow> do {
     let o' = (if Before (os_CollectedAt o') (os_CollectedAt other)
               then o'\<lparr>os_CollectedAt := os_CollectedAt other\<rparr> else o');
     ops \<leftarrow> add_counts (os_LifeTimeOps o') (os_LifeTimeOps other);
     operations \<leftarrow> merge_actions (os_LastMinuteOperations o') (os_LastMinuteOperations other);
     sensors \<leftarrow> gm_accum SensorMetrics_merge SensorMetrics_zero
       (gm_make_if (gm_nonempty (os_Sensors other)) (os_Sensors o')) (os_Sensors other);
     Some (o'\<lparr>os_LifeTimeOps := ops, os_LastMinuteOperations := operations, os_Sensors := sensors\<rparr>)
   })"

subsection \<open>BatchJobMetrics\<close>

record ReplicateInfo =
  ri_Bucket :: string
  ri_Object :: string
  ri_Objects :: i64
  ri_ObjectsFailed :: i64
  ri_DeleteMarkers :: i64
  ri_DeleteMarkersFailed :: i64
  ri_BytesTransferred :: i64
  ri_BytesFailed :: i64

record ExpirationInfo =
  ei_Bucket :: string
  ei_Object :: string
  ei_Objects :: i64
  ei_ObjectsFailed :: i64
  ei_DeleteMarkers :: i64
  ei_DeleteMarkersFailed :: i64

record KeyRotationInfo =
  ki_Bucket :: string
  ki_Object :: string
  ki_Objects :: i64
  ki_ObjectsFailed :: i64

record CatalogDataFile =
  cdf_Key :: string
  cdf_Size :: u64
  cdf_MD5Checksum :: string

record CatalogInfo =
  ci_Bucket :: string
  ci_LastBucketScanned :: string
  ci_LastObjectScanned :: string
  ci_LastBucketMatched :: string
  ci_LastObjectMatched :: string
  ci_ObjectsScannedCount :: u64
  ci_ObjectsMatchedCount :: u64
  ci_RecordsWrittenCount :: u64
  ci_OutputObjectsCount :: u64
  ci_ManifestPathBucket :: string
  ci_ManifestPathObject :: string
  ci_ErrorMsg :: string
  ci_LastObjectWritten :: string
  ci_OutputFiles :: "CatalogDataFile list"

record JobMetric =
  jm_JobID :: string
  jm_JobType :: string
  jm_StartTime :: gotime
  jm_LastUpdate :: gotime
  jm_RetryAttempts :: i64
  jm_Complete :: bool
  jm_Failed :: bool
  jm_Status :: string
  jm_Replicate :: "ReplicateInfo option"
  jm_KeyRotate :: "KeyRotationInfo option"
  jm_Expired :: "ExpirationInfo option"
  jm_Catalog :: "CatalogInfo option"

record BatchJobMetrics =
  bj_CollectedAt :: gotime
  bj_Jobs :: "(string, JobMetric) gomap"

definition BatchJobMetrics_zero :: BatchJobMetrics where
  "BatchJobMetrics_zero = \<lparr>
     bj_CollectedAt = 0, bj_Jobs = None\<rparr>"

definition BatchJobMetrics_Merge :: "BatchJobMetrics \<Rightarrow> BatchJobMetrics option \<Rightarrow> BatchJobMetrics option" where
  "BatchJobMetrics_Merge o' other = (case other of None \<Rightarrow> Some o' | Some other \<Rightarrow>
    if \<not> gm_nonempty (bj_Jobs other) then Some o'
    else do {
      let o' = (if Before (bj_CollectedAt o') (bj_CollectedAt other)
                then o'\<lparr>bj_CollectedAt := bj_CollectedAt other\<rparr> else o');
      jobs \<leftarrow> gm_range (\<lambda>exists v. case exists of None \<Rightarrow> Some v
          | Some exists \<Rightarrow> if Before (jm_LastUpdate exists) (jm_LastUpdate v) then Some v else None)
        (gm_make_if True (bj_Jobs o')) (bj_Jobs other);
      Some (o'\<lparr>bj_Jobs := jobs\<rparr>)
    })"

subsection \<open>SiteResyncMetrics\<close>

record SiteResyncMetrics =
  sr_CollectedAt :: gotime
  sr_ResyncStatus :: string
  sr_StartTime :: gotime
  sr_LastUpdate :: gotime
  sr_NumBuckets :: i64
  sr_ResyncID :: string
  sr_DeplID :: string
  sr_ReplicatedSize :: i64
  sr_ReplicatedCount :: i64
  sr_FailedSize :: i64
  sr_FailedCount :: i64
  sr_FailedBuckets :: "string list"
  sr_Bucket :: string
  sr_Object :: string

definition SiteResyncMetrics_zero :: SiteResyncMetrics where
  "SiteResyncMetrics_zero = \<lparr>
     sr_CollectedAt = 0, sr_ResyncStatus = [], sr_StartTime = 0, sr_LastUpdate = 0,
     sr_NumBuckets = 0, sr_ResyncID = [], sr_DeplID = [], sr_ReplicatedSize = 0,
     sr_ReplicatedCount = 0, sr_FailedSize = 0, sr_FailedCount = 0, sr_FailedBuckets = [],
     sr_Bucket = [], sr_Object = []\<rparr>"

text \<open>
  \<open>strings.ToLower\<close> on the bytes of ASCII letters. A character outside ASCII never lowers to a
  letter of ``completed'', so the comparison in \<open>Complete\<close> sees no difference.
\<close>

definition SiteResyncMetrics_Complete :: "SiteResyncMetrics \<Rightarrow> bool" where
  "SiteResyncMetrics_Complete o' \<longleftrightarrow> map ascii_lower (sr_ResyncStatus o') = ''completed''"

definition SiteResyncMetrics_Merge :: "SiteResyncMetrics \<Rightarrow> SiteResyncMetrics option \<Rightarrow> SiteResyncMetrics" where
  "SiteResyncMetrics_Merge o' other = (case other of None \<Rightarrow> o' | Some other \<Rightarrow>
     if Before (sr_CollectedAt o') (sr_CollectedAt other) then other else o')"

subsection \<open>NetMetrics\<close>

record NetMetrics =
  nm_CollectedAt :: gotime
  nm_Interfaces :: "(string, InterfaceStats) gomap"
  nm_InterfaceName :: string
  nm_NetStats :: procfsNetDevLine

definition NetMetrics_zero :: NetMetrics where
  "NetMetrics_zero = \<lparr>
     nm_CollectedAt = 0, nm_Interfaces = None, nm_InterfaceName = [],
     nm_NetStats = procfsNetDevLine_zero\<rparr>"

definition NetMetrics_Merge :: "NetMetrics \<Rightarrow> NetMetrics option \<Rightarrow> NetMetrics option" where
  "NetMetrics_Merge n other = (case other of None \<Rightarrow> Some n | Some other \<Rightarrow> do {
     let n = (if Before (nm_CollectedAt n) (nm_CollectedAt other)
              then n\<lparr>nm_CollectedAt := nm_CollectedAt other\<rparr> else n);
     ifs \<leftarrow> gm_accum InterfaceStats_add InterfaceStats_zero
       (gm_make_if (gm_nonempty (nm_Interfaces other)) (nm_Interfaces n)) (nm_Interfaces other);
     Some (n\<lparr>nm_Interfaces := ifs,
             nm_NetStats := procfsNetDevLine_add (nm_NetStats n) (nm_NetStats other)\<rparr>)
   })"

subsection \<open>MemInfo and MemMetrics\<close>

record NodeCommon =
  nc_Addr :: string
  nc_Error :: string

definition NodeCommon_zero :: NodeCommon where
  "NodeCommon_zero = \<lparr>
     nc_Addr = [], nc_Error = []\<rparr>"

record MemInfo =
  mi_NodeCommon :: NodeCommon
  mi_Total :: u64
  mi_Used :: u64
  mi_Free :: u64
  mi_Available :: u64
  mi_Shared :: u64
  mi_Cache :: u64
  mi_Buffers :: u64
  mi_SwapSpaceTotal :: u64
  mi_SwapSpaceFree :: u64
  mi_Limit :: u64

definition MemInfo_zero :: MemInfo where
  "MemInfo_zero = \<lparr>
     mi_NodeCommon = NodeCommon_zero, mi_Total = 0, mi_Used = 0, mi_Free = 0, mi_Available = 0,
     mi_Shared = 0, mi_Cache = 0, mi_Buffers = 0, mi_SwapSpaceTotal = 0, mi_SwapSpaceFree = 0,
     mi_Limit = 0\<rparr>"

definition MemInfo_Merge :: "MemInfo \<Rightarrow> MemInfo option \<Rightarrow> MemInfo" where
  "MemInfo_Merge m other = (case other of None \<Rightarrow> m | Some other \<Rightarrow>
    (let m = (if mi_Total m = 0 \<and> nc_Addr (mi_NodeCommon m) = []
              then m\<lparr>mi_NodeCommon := mi_NodeCommon other\<rparr>
              else if mi_NodeCommon m \<noteq> mi_NodeCommon other
              then m\<lparr>mi_NodeCommon := NodeCommon_zero\<rparr> else m)
     in m\<lparr>
       mi_Total := mi_Total m + mi_Total other,
       mi_Used := mi_Used m + mi_Used other,
       mi_Free := mi_Free m + mi_Free other,
       mi_Available := mi_Available m + mi_Available other,
       mi_Shared := mi_Shared m + mi_Shared other,
       mi_Cache := mi_Cache m + mi_Cache other,
       mi_Buffers := mi_Buffers m + mi_Buffers other,
       mi_SwapSpaceTotal := mi_SwapSpaceTotal m + mi_SwapSpaceTotal other,
       mi_SwapSpaceFree := mi_SwapSpaceFree m + mi_SwapSpaceFree other,
       mi_Limit := mi_Limit m + mi_Limit other\<rparr>))"

record MemMetrics =
  mem_CollectedAt :: gotime
  mem_Nodes :: i64
  mem_Info :: MemInfo

definition MemMetrics_zero :: MemMetrics where
  "MemMetrics_zero = \<lparr>
     mem_CollectedAt = 0, mem_Nodes = 0, mem_Info = MemInfo_zero\<rparr>"

definition MemMetrics_Merge :: "MemMetrics \<Rightarrow> MemMetrics option \<Rightarrow> MemMetrics" where
  "MemMetrics_Merge m other = (case other of None \<Rightarrow> m | Some other \<Rightarrow>
    (let m = m\<lparr>mem_Nodes := mem_Nodes m + mem_Nodes other\<rparr>;
         m = (if Before (mem_CollectedAt m) (mem_CollectedAt other)
              then m\<lparr>mem_CollectedAt := mem_CollectedAt other\<rparr> else m)
     in m\<lparr>mem_Info := MemInfo_Merge (mem_Info m) (Some (mem_Info other))\<rparr>))"

subsection \<open>CPUMetrics\<close>

text \<open>The two statistics records are the local copies of \<open>external.go\<close>.\<close>

record 'f cpuTimesStat =
  ct_CPU :: string
  ct_User :: 'f
  ct_System :: 'f
  ct_Idle :: 'f
  ct_Nice :: 'f
  ct_Iowait :: 'f
  ct_Irq :: 'f
  ct_Softirq :: 'f
  ct_Steal :: 'f
  ct_Guest :: 'f
  ct_GuestNice :: 'f

definition cpuTimesStat_zero :: "'f::zero cpuTimesStat" where
  "cpuTimesStat_zero = \<lparr>
     ct_CPU = [], ct_User = 0, ct_System = 0, ct_Idle = 0, ct_Nice = 0, ct_Iowait = 0,
     ct_Irq = 0, ct_Softirq = 0, ct_Steal = 0, ct_Guest = 0, ct_GuestNice = 0\<rparr>"

record 'f loadAvgStat =
  la_Load1 :: 'f
  la_Load5 :: 'f
  la_Load15 :: 'f

definition loadAvgStat_zero :: "'f::zero loadAvgStat" where
  "loadAvgStat_zero = \<lparr>
     la_Load1 = 0, la_Load5 = 0, la_Load15 = 0\<rparr>"

record 'f CPUMetrics =
  cm_CollectedAt :: gotime
  cm_Nodes :: i64
  cm_TimesStat :: "'f cpuTimesStat"
  cm_TimesCount :: i64
  cm_LoadStat :: "'f loadAvgStat"
  cm_LoadStatCount :: i64
  cm_CPUCount :: i64
  cm_CPUByModel :: "(string, i64) gomap"
  cm_TotalMhz :: 'f
  cm_TotalCores :: i64
  cm_TotalCacheSize :: i64
  cm_FreqStatsCount :: i64
  cm_GovernorFreq :: "(string, i64) gomap"
  cm_TotalCurrentFreq :: u64
  cm_TotalScalingCurrentFreq :: u64
  cm_MinCPUInfoFreq :: u64
  cm_MaxCPUInfoFreq :: u64
  cm_MinScalingFreq :: u64
  cm_MaxScalingFreq :: u64

definition CPUMetrics_zero :: "'f::zero CPUMetrics" where
  "CPUMetrics_zero = \<lparr>
     cm_CollectedAt = 0, cm_Nodes = 0, cm_TimesStat = cpuTimesStat_zero, cm_TimesCount = 0,
     cm_LoadStat = loadAvgStat_zero, cm_LoadStatCount = 0, cm_CPUCount = 0, cm_CPUByModel = None,
     cm_TotalMhz = 0, cm_TotalCores = 0, cm_TotalCacheSize = 0, cm_FreqStatsCount = 0,
     cm_GovernorFreq = None, cm_TotalCurrentFreq = 0, cm_TotalScalingCurrentFreq = 0,
     cm_MinCPUInfoFreq = 0, cm_MaxCPUInfoFreq = 0, cm_MinScalingFreq = 0, cm_MaxScalingFreq = 0\<rparr>"

definition cpuTimesStat_merge :: "('f::plus) cpuTimesStat \<Rightarrow> 'f cpuTimesStat \<Rightarrow> 'f cpuTimesStat" where
  "cpuTimesStat_merge m other = m\<lparr>
     ct_User := ct_User m + ct_User other,
     ct_System := ct_System m + ct_System other,
     ct_Idle := ct_Idle m + ct_Idle other,
     ct_Nice := ct_Nice m + ct_Nice other,
     ct_Iowait := ct_Iowait m + ct_Iowait other,
     ct_Irq := ct_Irq m + ct_Irq other,
     ct_Softirq := ct_Softirq m + ct_Softirq other,
     ct_Steal := ct_Steal m + ct_Steal other,
     ct_Guest := ct_Guest m + ct_Guest other,
     ct_GuestNice := ct_GuestNice m + ct_GuestNice other\<rparr>"

definition loadAvgStat_merge :: "('f::plus) loadAvgStat \<Rightarrow> 'f loadAvgStat \<Rightarrow> 'f loadAvgStat" where
  "loadAvgStat_merge m other = m\<lparr>
     la_Load1 := la_Load1 m + la_Load1 other,
     la_Load5 := la_Load5 m + la_Load5 other,
     la_Load15 := la_Load15 m + la_Load15 other\<rparr>"

text \<open>The rule for the two minima: a frequency of zero is not set.\<close>

definition min_freq :: "i64 \<Rightarrow> u64 \<Rightarrow> u64 \<Rightarrow> u64" where
  "min_freq n mine other = (if other > 0 then (if n = 0 \<or> other < mine then other else mine) else mine)"

definition CPUMetrics_Merge ::
  "('f::plus) CPUMetrics \<Rightarrow> 'f CPUMetrics option \<Rightarrow> 'f CPUMetrics option" where
  "CPUMetrics_Merge m other = (case other of None \<Rightarrow> Some m | Some other \<Rightarrow> do {
     let m = m\<lparr>cm_Nodes := cm_Nodes m + cm_Nodes other\<rparr>;
     let m = (if Before (cm_CollectedAt m) (cm_CollectedAt other)
              then m\<lparr>cm_CollectedAt := cm_CollectedAt other\<rparr> else m);
     let m = m\<lparr>
       cm_TimesStat := cpuTimesStat_merge (cm_TimesStat m) (cm_TimesStat other),
       cm_TimesCount := cm_TimesCount m + cm_TimesCount other,
       cm_LoadStat := loadAvgStat_merge (cm_LoadStat m) (cm_LoadStat other),
       cm_LoadStatCount := cm_LoadStatCount m + cm_LoadStatCount other,
       cm_CPUCount := cm_CPUCount m + cm_CPUCount other\<rparr>;
     models \<leftarrow> add_counts (cm_CPUByModel m) (cm_CPUByModel other);
     let m = m\<lparr>cm_CPUByModel := models,
       cm_TotalMhz := cm_TotalMhz m + cm_TotalMhz other,
       cm_TotalCores := cm_TotalCores m + cm_TotalCores other,
       cm_TotalCacheSize := cm_TotalCacheSize m + cm_TotalCacheSize other\<rparr>;
     governors \<leftarrow> add_counts (cm_GovernorFreq m) (cm_GovernorFreq other);
     Some (m\<lparr>cm_GovernorFreq := governors,
       cm_TotalCurrentFreq := cm_TotalCurrentFreq m + cm_TotalCurrentFreq other,
       cm_TotalScalingCurrentFreq := cm_TotalScalingCurrentFreq m + cm_TotalScalingCurrentFreq other,
       cm_MinCPUInfoFreq := min_freq (cm_FreqStatsCount m) (cm_MinCPUInfoFreq m) (cm_MinCPUInfoFreq other),
       cm_MaxCPUInfoFreq := max (cm_MaxCPUInfoFreq other) (cm_MaxCPUInfoFreq m),
       cm_MinScalingFreq := min_freq (cm_FreqStatsCount m) (cm_MinScalingFreq m) (cm_MinScalingFreq other),
       cm_MaxScalingFreq := (if cm_MaxScalingFreq other > cm_MaxScalingFreq m
                             then cm_MaxScalingFreq other else cm_MaxScalingFreq m),
       cm_FreqStatsCount := cm_FreqStatsCount m + cm_FreqStatsCount other\<rparr>)
   })"

subsection \<open>RuntimeMetrics\<close>

record 'f localF64H =
  lh_Counts :: "u64 list"
  lh_Buckets :: "'f list"

definition localF64H_zero :: "'f localF64H" where
  "localF64H_zero = \<lparr>
     lh_Counts = [], lh_Buckets = []\<rparr>"

text \<open>
  The body of the histogram loop; \<open>existing.Counts[i] += count\<close> panics behind the end of
  \<open>existing.Counts\<close>. The additions go to the slice that the map entry shares, so the entry
  changes without being stored again.
\<close>

definition localF64H_merge :: "'f localF64H option \<Rightarrow> 'f localF64H \<Rightarrow> 'f localF64H option" where
  "localF64H_merge entry v =
    (let existing = (case entry of None \<Rightarrow> localF64H_zero | Some e \<Rightarrow> e)
     in if lh_Buckets existing = [] then Some v
     else if length (lh_Buckets existing) = length (lh_Buckets v)
     then (if length (lh_Counts existing) < length (lh_Counts v) then None
       else Some (existing\<lparr>lh_Counts := map2 (+) (lh_Counts existing) (lh_Counts v)
                     @ drop (length (lh_Counts v)) (lh_Counts existing)\<rparr>))
     else Some existing)"

record 'f RuntimeMetrics =
  go_UintMetrics :: "(string, u64) gomap"
  go_FloatMetrics :: "(string, 'f) gomap"
  go_HistMetrics :: "(string, 'f localF64H) gomap"
  go_N :: i64

definition RuntimeMetrics_zero :: "'f RuntimeMetrics" where
  "RuntimeMetrics_zero = \<lparr>
     go_UintMetrics = None, go_FloatMetrics = None, go_HistMetrics = None, go_N = 0\<rparr>"

definition RuntimeMetrics_Merge ::
  "('f::{plus,zero}) RuntimeMetrics \<Rightarrow> 'f RuntimeMetrics option \<Rightarrow> 'f RuntimeMetrics option" where
  "RuntimeMetrics_Merge m other = (case other of None \<Rightarrow> Some m | Some other \<Rightarrow> do {
     uints \<leftarrow> gm_accum (+) 0 (gm_make_if True (go_UintMetrics m)) (go_UintMetrics other);
     floats \<leftarrow> gm_accum (+) 0 (gm_make_if True (go_FloatMetrics m)) (go_FloatMetrics other);
     hists \<leftarrow> gm_range_try localF64H_merge (gm_make_if True (go_HistMetrics m)) (go_HistMetrics other);
     Some (m\<lparr>go_UintMetrics := uints, go_FloatMetrics := floats, go_HistMetrics := hists,
             go_N := go_N m + go_N other\<rparr>)
   })"

subsection \<open>Merging never panics\<close>

lemma ScannerMetrics_Merge_returns [no_panic]: "\<exists>r. ScannerMetrics_Merge s other = Some r"
proof (cases other)
  case (Some q)
  obtain a where
    "gm_range (\<lambda>cur otherSt. if otherSt = [] then None else (case cur of None \<Rightarrow> Some otherSt | Some _ \<Rightarrow> None))
       (gm_make_if True (sm_PerBucketStats s)) (sm_PerBucketStats q) = Some a"
    using gm_range_make by metis
  moreover obtain b where "add_counts (sm_LifeTimeOps s) (sm_LifeTimeOps q) = Some b"
    using add_counts_returns by blast
  moreover obtain c where "merge_actions (sm_LastMinuteActions s) (sm_LastMinuteActions q) = Some c"
    using merge_actions_returns by blast
  moreover obtain d where "add_counts (sm_LifeTimeILM s) (sm_LifeTimeILM q) = Some d"
    using add_counts_returns by blast
  moreover obtain e where "merge_actions (sm_LastMinuteILM s) (sm_LastMinuteILM q) = Some e"
    using merge_actions_returns by blast
  ultimately show ?thesis using Some by (simp add: ScannerMetrics_Merge_def Let_def)
qed (simp add: ScannerMetrics_Merge_def)

lemma OSMetrics_Merge_returns [no_panic]: "\<exists>r. OSMetrics_Merge s other = Some r"
proof (cases other)
  case (Some q)
  obtain a where "add_counts (os_LifeTimeOps s) (os_LifeTimeOps q) = Some a"
    using add_counts_returns by blast
  moreover obtain b where
    "merge_actions (os_LastMinuteOperations s) (os_LastMinuteOperations q) = Some b"
    using merge_actions_returns by blast
  moreover obtain c where "gm_accum SensorMetrics_merge SensorMetrics_zero
       (gm_make_if (gm_nonempty (os_Sensors q)) (os_Sensors s)) (os_Sensors q) = Some c"
    using gm_accum_make_if by metis
  ultimately show ?thesis using Some by (simp add: OSMetrics_Merge_def Let_def)
qed (simp add: OSMetrics_Merge_def)

lemma BatchJobMetrics_Merge_returns [no_panic]: "\<exists>r. BatchJobMetrics_Merge s other = Some r"
proof (cases other)
  case (Some q)
  obtain a where "gm_range (\<lambda>exists v. case exists of None \<Rightarrow> Some v
          | Some exists \<Rightarrow> if Before (jm_LastUpdate exists) (jm_LastUpdate v) then Some v else None)
        (gm_make_if True (bj_Jobs s)) (bj_Jobs q) = Some a"
    using gm_range_make by metis
  then show ?thesis using Some by (simp add: BatchJobMetrics_Merge_def Let_def)
qed (simp add: BatchJobMetrics_Merge_def)

lemma NetMetrics_Merge_returns [no_panic]: "\<exists>r. NetMetrics_Merge s other = Some r"
proof (cases other)
  case (Some q)
  obtain a where "gm_accum InterfaceStats_add InterfaceStats_zero
       (gm_make_if (gm_nonempty (nm_Interfaces q)) (nm_Interfaces s)) (nm_Interfaces q) = Some a"
    using gm_accum_make_if by metis
  then show ?thesis using Some by (simp add: NetMetrics_Merge_def Let_def)
qed (simp add: NetMetrics_Merge_def)

lemma CPUMetrics_Merge_returns [no_panic]: "\<exists>r. CPUMetrics_Merge s other = Some r"
proof (cases other)
  case (Some q)
  obtain a b where "add_counts (cm_CPUByModel s) (cm_CPUByModel q) = Some a"
    "add_counts (cm_GovernorFreq s) (cm_GovernorFreq q) = Some b"
    using add_counts_returns by blast
  then show ?thesis using Some by (simp add: CPUMetrics_Merge_def Let_def)
qed (simp add: CPUMetrics_Merge_def)

text \<open>
  The histogram loop returns exactly when no two histograms with equally many buckets have
  more counts in the argument than in the receiver.
\<close>

definition hist_fit :: "'f localF64H option \<Rightarrow> 'f localF64H \<Rightarrow> bool" where
  "hist_fit e v \<longleftrightarrow> (\<forall>x. e = Some x \<longrightarrow> lh_Buckets x \<noteq> [] \<longrightarrow>
     length (lh_Buckets x) = length (lh_Buckets v) \<longrightarrow> length (lh_Counts v) \<le> length (lh_Counts x))"

lemma localF64H_merge_returns: "localF64H_merge e v \<noteq> None \<longleftrightarrow> hist_fit e v"
  by (cases e) (auto simp: localF64H_merge_def Let_def hist_fit_def localF64H_zero_def)

lemma gm_range_try_panics:
  assumes "gm_get s k = Some w" "f (gm_get d k) w = None"
  shows "gm_range_try f d s = None"
proof -
  obtain fs where s: "s = Some fs" and l: "fmlookup fs k = Some w"
    using assms(1) by (auto simp: gm_get_def split: option.splits)
  have "\<not> fmpred (\<lambda>k w. f (gm_get d k) w \<noteq> None) fs"
    using l assms(2) by (auto simp: fmpred_iff)
  then show ?thesis by (simp add: gm_range_try_def s)
qed

lemma RuntimeMetrics_Merge_panics_iff:
  "RuntimeMetrics_Merge m (Some other) = None \<longleftrightarrow>
   (\<exists>k v. gm_get (go_HistMetrics other) k = Some v \<and> \<not> hist_fit (gm_get (go_HistMetrics m) k) v)"
    (is "?L \<longleftrightarrow> ?R")
proof -
  obtain a b where "gm_accum (+) 0 (gm_make_if True (go_UintMetrics m)) (go_UintMetrics other) = Some a"
    "gm_accum (+) 0 (gm_make_if True (go_FloatMetrics m)) (go_FloatMetrics other) = Some b"
    unfolding gm_accum_def using gm_range_make by metis
  then have L: "?L \<longleftrightarrow> gm_range_try localF64H_merge (gm_make_if True (go_HistMetrics m)) (go_HistMetrics other) = None"
    by (auto simp: RuntimeMetrics_Merge_def split: bind_splits)
  show ?thesis
  proof
    assume ?R
    then obtain k v where "gm_get (go_HistMetrics other) k = Some v"
      "localF64H_merge (gm_get (gm_make_if True (go_HistMetrics m)) k) v = None"
      using localF64H_merge_returns by fastforce
    then show ?L unfolding L by (rule gm_range_try_panics)
  next
    assume l: ?L
    show ?R
    proof (rule ccontr)
      assume r: "\<not> ?R"
      have "\<exists>t. gm_range_try localF64H_merge (gm_make_if (gm_nonempty (go_HistMetrics other))
          (gm_make_if True (go_HistMetrics m))) (go_HistMetrics other) = Some t"
        by (rule gm_range_try_returns) (use r localF64H_merge_returns in fastforce)
      then show False using l L by simp
    qed
  qed
qed

text \<open>Histograms of the runtime have one more bucket boundary than counts.\<close>

definition hist_ok :: "('k, 'f localF64H) gomap \<Rightarrow> bool" where
  "hist_ok m \<longleftrightarrow> (\<forall>k h. gm_get m k = Some h \<longrightarrow> length (lh_Buckets h) = Suc (length (lh_Counts h)))"

lemma RuntimeMetrics_Merge_returns:
  assumes "hist_ok (go_HistMetrics m)" "hist_ok (go_HistMetrics other)"
  shows "\<exists>r. RuntimeMetrics_Merge m (Some other) = Some r"
proof -
  have "hist_fit (gm_get (go_HistMetrics m) k) v" if "gm_get (go_HistMetrics other) k = Some v" for k v
    using assms that by (fastforce simp: hist_ok_def hist_fit_def)
  then have "RuntimeMetrics_Merge m (Some other) \<noteq> None"
    using RuntimeMetrics_Merge_panics_iff [of m other] by blast
  then show ?thesis by simp
qed

subsection \<open>What the merges compute\<close>

lemma ScannerMetrics_Merge_sel:
  assumes "ScannerMetrics_Merge s (Some other) = Some r"
  shows "sm_CollectedAt r = max (sm_CollectedAt s) (sm_CollectedAt other)"
    and "sm_ActivePaths r = sort (sm_ActivePaths s @ sm_ActivePaths other)"
    and "sm_ExcessivePrefixes r = (if sm_ExcessivePrefixes other = [] then sm_ExcessivePrefixes s
       else sort (remdups (sm_ExcessivePrefixes s @ sm_ExcessivePrefixes other)))"
    and "add_counts (sm_LifeTimeOps s) (sm_LifeTimeOps other) = Some (sm_LifeTimeOps r)"
    and "add_counts (sm_LifeTimeILM s) (sm_LifeTimeILM other) = Some (sm_LifeTimeILM r)"
    and "merge_actions (sm_LastMinuteActions s) (sm_LastMinuteActions other) = Some (sm_LastMinuteActions r)"
    and "merge_actions (sm_LastMinuteILM s) (sm_LastMinuteILM other) = Some (sm_LastMinuteILM r)"
  using assms by (auto simp: ScannerMetrics_Merge_def Let_def max_def split: bind_splits if_splits)

lemma sort_append_comm: "sort (xs @ ys) = sort (ys @ xs)"
  by (rule properties_for_sort) simp_all

lemma sort_remdups_comm: "sort (remdups (xs @ ys)) = sort (remdups (ys @ xs))"
  by (rule sorted_distinct_set_unique) auto

text \<open>The counters and paths of the scanner do not depend on the order of the merge.\<close>

lemma ScannerMetrics_Merge_comm:
  assumes "ScannerMetrics_Merge a (Some b) = Some r" "ScannerMetrics_Merge b (Some a) = Some r'"
    and "sm_ExcessivePrefixes a \<noteq> []" "sm_ExcessivePrefixes b \<noteq> []"
  shows "sm_CollectedAt r = sm_CollectedAt r' \<and> sm_ActivePaths r = sm_ActivePaths r' \<and>
    sm_ExcessivePrefixes r = sm_ExcessivePrefixes r' \<and>
    count_of (sm_LifeTimeOps r) k = count_of (sm_LifeTimeOps r') k \<and>
    count_of (sm_LifeTimeILM r) k = count_of (sm_LifeTimeILM r') k"
proof -
  note r = ScannerMetrics_Merge_sel [OF assms(1)] and r' = ScannerMetrics_Merge_sel [OF assms(2)]
  show ?thesis
    using assms(3,4) r(1-3) r'(1-3) sort_append_comm [of "sm_ActivePaths a"]
      sort_remdups_comm [of "sm_ExcessivePrefixes a"]
      count_of_add_counts [OF r(4), of k] count_of_add_counts [OF r'(4), of k]
      count_of_add_counts [OF r(5), of k] count_of_add_counts [OF r'(5), of k]
    by (simp add: add.commute max.commute)
qed

lemma merge_actions_comm:
  assumes "merge_actions d s = Some m" "merge_actions s d = Some m'"
    and "\<And>v. gm_get d k = Some v \<Longrightarrow> TimedAction_wf v" "\<And>v. gm_get s k = Some v \<Longrightarrow> TimedAction_wf v"
    and "\<And>v w. gm_get d k = Some v \<Longrightarrow> gm_get s k = Some w \<Longrightarrow> TimedAction_weight v + TimedAction_weight w < 2 ^ 64"
  shows "gm_get m k = gm_get m' k"
proof -
  have "gm_get m k = (case (gm_get d k, gm_get s k) of (x, None) \<Rightarrow> x | (None, Some w) \<Rightarrow> Some w
      | (Some v, Some w) \<Rightarrow> Some (TimedAction_Merge v w))"
    using timed.accum_get_wf [OF assms(1) [unfolded merge_actions_def], of k] assms(3,4) by simp
  moreover have "gm_get m' k = (case (gm_get s k, gm_get d k) of (x, None) \<Rightarrow> x | (None, Some w) \<Rightarrow> Some w
      | (Some v, Some w) \<Rightarrow> Some (TimedAction_Merge v w))"
    using timed.accum_get_wf [OF assms(2) [unfolded merge_actions_def], of k] assms(3,4) by simp
  moreover have "\<forall>v w. gm_get d k = Some v \<longrightarrow> gm_get s k = Some w \<longrightarrow>
      TimedAction_Merge v w = TimedAction_Merge w v"
    by (intro allI impI timed.add_comm) (use assms(3-5) in simp_all)
  ultimately show ?thesis by (cases "gm_get d k"; cases "gm_get s k") simp_all
qed

text \<open>Sensors: the first reading is taken as it is, later ones are folded in.\<close>

lemma SensorMetrics_merge_first:
  "sn_Count e = 0 \<Longrightarrow> sn_TotalTemp e = 0 \<Longrightarrow> sn_ExceedsCritical e = 0 \<Longrightarrow>
   SensorMetrics_merge e (v :: ('f::{monoid_add,ord}) SensorMetrics) = v"
  by (rule SensorMetrics.equality) (simp_all add: SensorMetrics_merge_def)

lemma SensorMetrics_merge_later:
  "sn_Count e \<noteq> 0 \<Longrightarrow> SensorMetrics_merge e (v :: ('f::{plus,linorder}) SensorMetrics) =
   \<lparr>sn_MinTemp = min (sn_MinTemp e) (sn_MinTemp v), sn_MaxTemp = max (sn_MaxTemp e) (sn_MaxTemp v),
    sn_TotalTemp = sn_TotalTemp e + sn_TotalTemp v, sn_Count = sn_Count e + sn_Count v,
    sn_ExceedsCritical = sn_ExceedsCritical e + sn_ExceedsCritical v\<rparr>"
  by (rule SensorMetrics.equality) (auto simp: SensorMetrics_merge_def Let_def min_def max_def)

lemma SensorMetrics_merge_comm:
  fixes e v :: "('f::{ab_semigroup_add,linorder}) SensorMetrics"
  shows "sn_Count e \<noteq> 0 \<Longrightarrow> sn_Count v \<noteq> 0 \<Longrightarrow> SensorMetrics_merge e v = SensorMetrics_merge v e"
  by (simp add: SensorMetrics_merge_later add.commute min.commute max.commute)

text \<open>Batch jobs: every job has the latest update of the two sides.\<close>

definition latest_job :: "JobMetric option \<Rightarrow> JobMetric option \<Rightarrow> JobMetric option" where
  "latest_job a b = (case (a, b) of (None, _) \<Rightarrow> b | (Some _, None) \<Rightarrow> a
     | (Some x, Some y) \<Rightarrow> if jm_LastUpdate x < jm_LastUpdate y then b else a)"

lemma BatchJobMetrics_Merge_job:
  assumes "BatchJobMetrics_Merge a (Some b) = Some r"
  shows "gm_get (bj_Jobs r) k = latest_job (gm_get (bj_Jobs a) k) (gm_get (bj_Jobs b) k)"
proof (cases "gm_nonempty (bj_Jobs b)")
  case True
  then have "gm_range (\<lambda>exists v. case exists of None \<Rightarrow> Some v
          | Some exists \<Rightarrow> if Before (jm_LastUpdate exists) (jm_LastUpdate v) then Some v else None)
        (gm_make_if True (bj_Jobs a)) (bj_Jobs b) = Some (bj_Jobs r)"
    using assms by (auto simp: BatchJobMetrics_Merge_def Let_def split: bind_splits if_splits)
  from gm_get_range [OF this, of k] show ?thesis
    by (simp add: latest_job_def split: option.splits)
next
  case False
  then show ?thesis
    using assms by (auto simp: BatchJobMetrics_Merge_def gm_nonempty_iff latest_job_def split: option.splits)
qed

lemma latest_job_assoc: "latest_job (latest_job a b) c = latest_job a (latest_job b c)"
  by (auto simp: latest_job_def split: option.splits)

lemma latest_job_comm:
  "(\<And>x y. a = Some x \<Longrightarrow> b = Some y \<Longrightarrow> jm_LastUpdate x = jm_LastUpdate y \<Longrightarrow> x = y) \<Longrightarrow>
   latest_job a b = latest_job b a"
  by (auto simp: latest_job_def split: option.splits)

text \<open>Network: the statistics are added, the number of merged interfaces is not.\<close>

lemma NetMetrics_Merge_interface:
  assumes "NetMetrics_Merge n (Some other) = Some r"
  shows "gm_get (nm_Interfaces r) k = (case gm_get (nm_Interfaces other) k of
      None \<Rightarrow> gm_get (nm_Interfaces n) k
    | Some v \<Rightarrow> Some (InterfaceStats_add (case gm_get (nm_Interfaces n) k of None \<Rightarrow> InterfaceStats_zero
        | Some e \<Rightarrow> e) v))"
proof -
  have "gm_accum InterfaceStats_add InterfaceStats_zero
       (gm_make_if (gm_nonempty (nm_Interfaces other)) (nm_Interfaces n)) (nm_Interfaces other) = Some (nm_Interfaces r)"
    using assms by (auto simp: NetMetrics_Merge_def Let_def split: bind_splits if_splits)
  from gm_get_accum [OF this, of k] show ?thesis by (simp split: option.split)
qed

text \<open>CPU: the minima depend on the order once a node reports frequencies without a minimum.\<close>

lemma min_freq_first: "min_freq 0 0 x = x"
  by (cases "x = 0") (auto simp: min_freq_def word_neq_0_conv)

lemma min_freq_set:
  "n \<noteq> 0 \<Longrightarrow> 0 < a \<Longrightarrow> 0 < b \<Longrightarrow> min_freq n a b = min a b"
  by (auto simp: min_freq_def min_def)

lemma min_freq_lost: "n \<noteq> 0 \<Longrightarrow> min_freq n 0 b = 0"
  by (simp add: min_freq_def)

lemma CPUMetrics_Merge_min:
  "CPUMetrics_Merge m (Some other) = Some r \<Longrightarrow>
   cm_MinCPUInfoFreq r = min_freq (cm_FreqStatsCount m) (cm_MinCPUInfoFreq m) (cm_MinCPUInfoFreq other) \<and>
   cm_FreqStatsCount r = cm_FreqStatsCount m + cm_FreqStatsCount other \<and>
   add_counts (cm_CPUByModel m) (cm_CPUByModel other) = Some (cm_CPUByModel r) \<and>
   add_counts (cm_GovernorFreq m) (cm_GovernorFreq other) = Some (cm_GovernorFreq r)"
  by (auto simp: CPUMetrics_Merge_def Let_def split: bind_splits if_splits)

end
