(* ===== verification/Process_Metrics.thy ===== *)
theory Process_Metrics
  imports Merge_Laws
begin

text \<open>
  \<open>ProcessMetrics\<close> of \<open>metrics.go\<close> and its parts. \<open>ProcessMetrics_Merge\<close> is the method
  \<open>Merge\<close>; each \<open>_merge\<close> of a part is the block of that method with the part's comment.
  Every part is a commutative monoid of counters, and so is the whole.
\<close>

record ProcessMemoryInfo =
  pi_RSS :: u64
  pi_VMS :: u64
  pi_HWM :: u64
  pi_Data :: u64
  pi_Stack :: u64
  pi_Locked :: u64
  pi_Swap :: u64
  pi_Count :: i64
  pi_Shared :: u64

definition ProcessMemoryInfo_zero :: ProcessMemoryInfo where
  "ProcessMemoryInfo_zero = \<lparr>
     pi_RSS = 0, pi_VMS = 0, pi_HWM = 0, pi_Data = 0, pi_Stack = 0, pi_Locked = 0, pi_Swap = 0,
     pi_Count = 0, pi_Shared = 0\<rparr>"

definition ProcessMemoryInfo_merge :: "ProcessMemoryInfo \<Rightarrow> ProcessMemoryInfo \<Rightarrow> ProcessMemoryInfo" where
  "ProcessMemoryInfo_merge m other = m\<lparr>
     pi_RSS := pi_RSS m + pi_RSS other,
     pi_VMS := pi_VMS m + pi_VMS other,
     pi_HWM := pi_HWM m + pi_HWM other,
     pi_Data := pi_Data m + pi_Data other,
     pi_Stack := pi_Stack m + pi_Stack other,
     pi_Locked := pi_Locked m + pi_Locked other,
     pi_Swap := pi_Swap m + pi_Swap other,
     pi_Count := pi_Count m + pi_Count other,
     pi_Shared := pi_Shared m + pi_Shared other\<rparr>"

interpretation procmem: merge_comm "\<lambda>_. True" "\<lambda>_. 0" 1 ProcessMemoryInfo_zero ProcessMemoryInfo_merge
  by unfold_locales (simp_all add: ProcessMemoryInfo_merge_def ProcessMemoryInfo_zero_def add_ac)

record ProcessIOCounters =
  pio_ReadCount :: u64
  pio_WriteCount :: u64
  pio_ReadBytes :: u64
  pio_WriteBytes :: u64
  pio_Count :: i64

definition ProcessIOCounters_zero :: ProcessIOCounters where
  "ProcessIOCounters_zero = \<lparr>
     pio_ReadCount = 0, pio_WriteCount = 0, pio_ReadBytes = 0, pio_WriteBytes = 0, pio_Count = 0\<rparr>"

definition ProcessIOCounters_merge :: "ProcessIOCounters \<Rightarrow> ProcessIOCounters \<Rightarrow> ProcessIOCounters" where
  "ProcessIOCounters_merge m other = m\<lparr>
     pio_ReadCount := pio_ReadCount m + pio_ReadCount other,
     pio_WriteCount := pio_WriteCount m + pio_WriteCount other,
     pio_ReadBytes := pio_ReadBytes m + pio_ReadBytes other,
     pio_WriteBytes := pio_WriteBytes m + pio_WriteBytes other,
     pio_Count := pio_Count m + pio_Count other\<rparr>"

interpretation procio: merge_comm "\<lambda>_. True" "\<lambda>_. 0" 1 ProcessIOCounters_zero ProcessIOCounters_merge
  by unfold_locales (simp_all add: ProcessIOCounters_merge_def ProcessIOCounters_zero_def add_ac)

record ProcessCtxSwitches =
  pcs_Voluntary :: i64
  pcs_Involuntary :: i64
  pcs_Count :: i64

definition ProcessCtxSwitches_zero :: ProcessCtxSwitches where
  "ProcessCtxSwitches_zero = \<lparr>
     pcs_Voluntary = 0, pcs_Involuntary = 0, pcs_Count = 0\<rparr>"

definition ProcessCtxSwitches_merge :: "ProcessCtxSwitches \<Rightarrow> ProcessCtxSwitches \<Rightarrow> ProcessCtxSwitches" where
  "ProcessCtxSwitches_merge m other = m\<lparr>
     pcs_Voluntary := pcs_Voluntary m + pcs_Voluntary other,
     pcs_Involuntary := pcs_Involuntary m + pcs_Involuntary other,
     pcs_Count := pcs_Count m + pcs_Count other\<rparr>"

interpretation procctx: merge_comm "\<lambda>_. True" "\<lambda>_. 0" 1 ProcessCtxSwitches_zero ProcessCtxSwitches_merge
  by unfold_locales (simp_all add: ProcessCtxSwitches_merge_def ProcessCtxSwitches_zero_def add_ac)

record ProcessPageFaults =
  ppf_MinorFaults :: u64
  ppf_MajorFaults :: u64
  ppf_ChildMinorFaults :: u64
  ppf_ChildMajorFaults :: u64
  ppf_Count :: i64

definition ProcessPageFaults_zero :: ProcessPageFaults where
  "ProcessPageFaults_zero = \<lparr>
     ppf_MinorFaults = 0, ppf_MajorFaults = 0, ppf_ChildMinorFaults = 0,
     ppf_ChildMajorFaults = 0, ppf_Count = 0\<rparr>"

definition ProcessPageFaults_merge :: "ProcessPageFaults \<Rightarrow> ProcessPageFaults \<Rightarrow> ProcessPageFaults" where
  "ProcessPageFaults_merge m other = m\<lparr>
     ppf_MinorFaults := ppf_MinorFaults m + ppf_MinorFaults other,
     ppf_MajorFaults := ppf_MajorFaults m + ppf_MajorFaults other,
     ppf_ChildMinorFaults := ppf_ChildMinorFaults m + ppf_ChildMinorFaults other,
     ppf_ChildMajorFaults := ppf_ChildMajorFaults m + ppf_ChildMajorFaults other,
     ppf_Count := ppf_Count m + ppf_Count other\<rparr>"

interpretation procpf: merge_comm "\<lambda>_. True" "\<lambda>_. 0" 1 ProcessPageFaults_zero ProcessPageFaults_merge
  by unfold_locales (simp_all add: ProcessPageFaults_merge_def ProcessPageFaults_zero_def add_ac)

record 'f ProcessCPUTimes =
  pct_User :: 'f
  pct_System :: 'f
  pct_Idle :: 'f
  pct_Nice :: 'f
  pct_Iowait :: 'f
  pct_Irq :: 'f
  pct_Softirq :: 'f
  pct_Steal :: 'f
  pct_Guest :: 'f
  pct_GuestNice :: 'f
  pct_Count :: i64

definition ProcessCPUTimes_zero :: "'f::zero ProcessCPUTimes" where
  "ProcessCPUTimes_zero = \<lparr>
     pct_User = 0, pct_System = 0, pct_Idle = 0, pct_Nice = 0, pct_Iowait = 0, pct_Irq = 0,
     pct_Softirq = 0, pct_Steal = 0, pct_Guest = 0, pct_GuestNice = 0, pct_Count = 0\<rparr>"

definition ProcessCPUTimes_merge :: "('f::plus) ProcessCPUTimes \<Rightarrow> 'f ProcessCPUTimes \<Rightarrow> 'f ProcessCPUTimes" where
  "ProcessCPUTimes_merge m other = m\<lparr>
     pct_User := pct_User m + pct_User other,
     pct_System := pct_System m + pct_System other,
     pct_Idle := pct_Idle m + pct_Idle other,
     pct_Nice := pct_Nice m + pct_Nice other,
     pct_Iowait := pct_Iowait m + pct_Iowait other,
     pct_Irq := pct_Irq m + pct_Irq other,
     pct_Softirq := pct_Softirq m + pct_Softirq other,
     pct_Steal := pct_Steal m + pct_Steal other,
     pct_Guest := pct_Guest m + pct_Guest other,
     pct_GuestNice := pct_GuestNice m + pct_GuestNice other,
     pct_Count := pct_Count m + pct_Count other\<rparr>"

interpretation proccpu: merge_comm "\<lambda>_. True" "\<lambda>_. 0" 1 "ProcessCPUTimes_zero :: ('f::comm_monoid_add) ProcessCPUTimes" ProcessCPUTimes_merge
  by unfold_locales (simp_all add: ProcessCPUTimes_merge_def ProcessCPUTimes_zero_def add_ac)

record ProcessMemoryMaps =
  pmm_TotalSize :: u64
  pmm_TotalRSS :: u64
  pmm_TotalPSS :: u64
  pmm_TotalSharedClean :: u64
  pmm_TotalSharedDirty :: u64
  pmm_TotalPrivateClean :: u64
  pmm_TotalPrivateDirty :: u64
  pmm_TotalReferenced :: u64
  pmm_TotalAnonymous :: u64
  pmm_TotalSwap :: u64
  pmm_Count :: i64

definition ProcessMemoryMaps_zero :: ProcessMemoryMaps where
  "ProcessMemoryMaps_zero = \<lparr>
     pmm_TotalSize = 0, pmm_TotalRSS = 0, pmm_TotalPSS = 0, pmm_TotalSharedClean = 0,
     pmm_TotalSharedDirty = 0, pmm_TotalPrivateClean = 0, pmm_TotalPrivateDirty = 0,
     pmm_TotalReferenced = 0, pmm_TotalAnonymous = 0, pmm_TotalSwap = 0, pmm_Count = 0\<rparr>"

definition ProcessMemoryMaps_merge :: "ProcessMemoryMaps \<Rightarrow> ProcessMemoryMaps \<Rightarrow> ProcessMemoryMaps" where
  "ProcessMemoryMaps_merge m other = m\<lparr>
     pmm_TotalSize := pmm_TotalSize m + pmm_TotalSize other,
     pmm_TotalRSS := pmm_TotalRSS m + pmm_TotalRSS other,
     pmm_TotalPSS := pmm_TotalPSS m + pmm_TotalPSS other,
     pmm_TotalSharedClean := pmm_TotalSharedClean m + pmm_TotalSharedClean other,
     pmm_TotalSharedDirty := pmm_TotalSharedDirty m + pmm_TotalSharedDirty other,
     pmm_TotalPrivateClean := pmm_TotalPrivateClean m + pmm_TotalPrivateClean other,
     pmm_TotalPrivateDirty := pmm_TotalPrivateDirty m + pmm_TotalPrivateDirty other,
     pmm_TotalReferenced := pmm_TotalReferenced m + pmm_TotalReferenced other,
     pmm_TotalAnonymous := pmm_TotalAnonymous m + pmm_TotalAnonymous other,
     pmm_TotalSwap := pmm_TotalSwap m + pmm_TotalSwap other,
     pmm_Count := pmm_Count m + pmm_Count other\<rparr>"

interpretation procmaps: merge_comm "\<lambda>_. True" "\<lambda>_. 0" 1 ProcessMemoryMaps_zero ProcessMemoryMaps_merge
  by unfold_locales (simp_all add: ProcessMemoryMaps_merge_def ProcessMemoryMaps_zero_def add_ac)

record 'f ProcessMetrics =
  pm_CollectedAt :: gotime
  pm_Nodes :: i64
  pm_TotalCPUPercent :: 'f
  pm_TotalNumConnections :: i64
  pm_TotalRunningSecs :: 'f
  pm_TotalNumFDs :: i64
  pm_TotalNumThreads :: i64
  pm_TotalNice :: i64
  pm_Count :: i64
  pm_BackgroundProcesses :: i64
  pm_RunningProcesses :: i64
  pm_MemInfo :: ProcessMemoryInfo
  pm_IOCounters :: ProcessIOCounters
  pm_NumCtxSwitches :: ProcessCtxSwitches
  pm_PageFaults :: ProcessPageFaults
  pm_CPUTimes :: "'f ProcessCPUTimes"
  pm_MemMaps :: ProcessMemoryMaps

definition ProcessMetrics_zero :: "'f::zero ProcessMetrics" where
  "ProcessMetrics_zero = \<lparr>
     pm_CollectedAt = 0, pm_Nodes = 0, pm_TotalCPUPercent = 0, pm_TotalNumConnections = 0,
     pm_TotalRunningSecs = 0, pm_TotalNumFDs = 0, pm_TotalNumThreads = 0, pm_TotalNice = 0,
     pm_Count = 0, pm_BackgroundProcesses = 0, pm_RunningProcesses = 0,
     pm_MemInfo = ProcessMemoryInfo_zero, pm_IOCounters = ProcessIOCounters_zero,
     pm_NumCtxSwitches = ProcessCtxSwitches_zero, pm_PageFaults = ProcessPageFaults_zero,
     pm_CPUTimes = ProcessCPUTimes_zero, pm_MemMaps = ProcessMemoryMaps_zero\<rparr>"

definition ProcessMetrics_Merge ::
  "('f::plus) ProcessMetrics \<Rightarrow> 'f ProcessMetrics option \<Rightarrow> 'f ProcessMetrics" where
  "ProcessMetrics_Merge m other = (case other of None \<Rightarrow> m | Some other \<Rightarrow>
    (let m = (if After (pm_CollectedAt other) (pm_CollectedAt m)
              then m\<lparr>pm_CollectedAt := pm_CollectedAt other\<rparr> else m)
     in m\<lparr>
       pm_Nodes := pm_Nodes m + pm_Nodes other,
       pm_TotalCPUPercent := pm_TotalCPUPercent m + pm_TotalCPUPercent other,
       pm_TotalNumConnections := pm_TotalNumConnections m + pm_TotalNumConnections other,
       pm_TotalRunningSecs := pm_TotalRunningSecs m + pm_TotalRunningSecs other,
       pm_TotalNumFDs := pm_TotalNumFDs m + pm_TotalNumFDs other,
       pm_TotalNumThreads := pm_TotalNumThreads m + pm_TotalNumThreads other,
       pm_TotalNice := pm_TotalNice m + pm_TotalNice other,
       pm_Count := pm_Count m + pm_Count other,
       pm_BackgroundProcesses := pm_BackgroundProcesses m + pm_BackgroundProcesses other,
       pm_RunningProcesses := pm_RunningProcesses m + pm_RunningProcesses other,
       pm_MemInfo := ProcessMemoryInfo_merge (pm_MemInfo m) (pm_MemInfo other),
       pm_IOCounters := ProcessIOCounters_merge (pm_IOCounters m) (pm_IOCounters other),
       pm_NumCtxSwitches := ProcessCtxSwitches_merge (pm_NumCtxSwitches m) (pm_NumCtxSwitches other),
       pm_PageFaults := ProcessPageFaults_merge (pm_PageFaults m) (pm_PageFaults other),
       pm_CPUTimes := ProcessCPUTimes_merge (pm_CPUTimes m) (pm_CPUTimes other),
       pm_MemMaps := ProcessMemoryMaps_merge (pm_MemMaps m) (pm_MemMaps other)\<rparr>))"

lemma ProcessMetrics_Merge_sel [simp]:
  "pm_CollectedAt (ProcessMetrics_Merge m (Some other)) = max (pm_CollectedAt m) (pm_CollectedAt other)"
  "pm_Nodes (ProcessMetrics_Merge m (Some other)) = pm_Nodes m + pm_Nodes other"
  "pm_TotalCPUPercent (ProcessMetrics_Merge m (Some other)) = pm_TotalCPUPercent m + pm_TotalCPUPercent other"
  "pm_TotalNumConnections (ProcessMetrics_Merge m (Some other)) = pm_TotalNumConnections m + pm_TotalNumConnections other"
  "pm_TotalRunningSecs (ProcessMetrics_Merge m (Some other)) = pm_TotalRunningSecs m + pm_TotalRunningSecs other"
  "pm_TotalNumFDs (ProcessMetrics_Merge m (Some other)) = pm_TotalNumFDs m + pm_TotalNumFDs other"
  "pm_TotalNumThreads (ProcessMetrics_Merge m (Some other)) = pm_TotalNumThreads m + pm_TotalNumThreads other"
  "pm_TotalNice (ProcessMetrics_Merge m (Some other)) = pm_TotalNice m + pm_TotalNice other"
  "pm_Count (ProcessMetrics_Merge m (Some other)) = pm_Count m + pm_Count other"
  "pm_BackgroundProcesses (ProcessMetrics_Merge m (Some other)) = pm_BackgroundProcesses m + pm_BackgroundProcesses other"
  "pm_RunningProcesses (ProcessMetrics_Merge m (Some other)) = pm_RunningProcesses m + pm_RunningProcesses other"
  "pm_MemInfo (ProcessMetrics_Merge m (Some other)) = ProcessMemoryInfo_merge (pm_MemInfo m) (pm_MemInfo other)"
  "pm_IOCounters (ProcessMetrics_Merge m (Some other)) = ProcessIOCounters_merge (pm_IOCounters m) (pm_IOCounters other)"
  "pm_NumCtxSwitches (ProcessMetrics_Merge m (Some other)) = ProcessCtxSwitches_merge (pm_NumCtxSwitches m) (pm_NumCtxSwitches other)"
  "pm_PageFaults (ProcessMetrics_Merge m (Some other)) = ProcessPageFaults_merge (pm_PageFaults m) (pm_PageFaults other)"
  "pm_CPUTimes (ProcessMetrics_Merge m (Some other)) = ProcessCPUTimes_merge (pm_CPUTimes m) (pm_CPUTimes other)"
  "pm_MemMaps (ProcessMetrics_Merge m (Some other)) = ProcessMemoryMaps_merge (pm_MemMaps m) (pm_MemMaps other)"
  by (simp_all add: ProcessMetrics_Merge_def Let_def max_def)

lemma ProcessMetrics_zero_sel [simp]:
  "pm_CollectedAt ProcessMetrics_zero = 0" "pm_Nodes ProcessMetrics_zero = 0"
  "pm_TotalCPUPercent ProcessMetrics_zero = 0" "pm_TotalNumConnections ProcessMetrics_zero = 0"
  "pm_TotalRunningSecs ProcessMetrics_zero = 0" "pm_TotalNumFDs ProcessMetrics_zero = 0"
  "pm_TotalNumThreads ProcessMetrics_zero = 0" "pm_TotalNice ProcessMetrics_zero = 0"
  "pm_Count ProcessMetrics_zero = 0" "pm_BackgroundProcesses ProcessMetrics_zero = 0"
  "pm_RunningProcesses ProcessMetrics_zero = 0"
  "pm_MemInfo ProcessMetrics_zero = ProcessMemoryInfo_zero"
  "pm_IOCounters ProcessMetrics_zero = ProcessIOCounters_zero"
  "pm_NumCtxSwitches ProcessMetrics_zero = ProcessCtxSwitches_zero"
  "pm_PageFaults ProcessMetrics_zero = ProcessPageFaults_zero"
  "pm_CPUTimes ProcessMetrics_zero = ProcessCPUTimes_zero"
  "pm_MemMaps ProcessMetrics_zero = ProcessMemoryMaps_zero"
  by (simp_all add: ProcessMetrics_zero_def)

lemmas process_parts_comm = procmem.add_comm procio.add_comm procctx.add_comm procpf.add_comm
  proccpu.add_comm procmaps.add_comm

lemmas process_parts_assoc = procmem.add_assoc procio.add_assoc procctx.add_assoc procpf.add_assoc
  proccpu.add_assoc procmaps.add_assoc

lemmas process_parts_zero = procmem.zero_left procio.zero_left procctx.zero_left procpf.zero_left
  proccpu.zero_left procmaps.zero_left procmem.zero_right procio.zero_right procctx.zero_right
  procpf.zero_right proccpu.zero_right procmaps.zero_right

definition ProcessMetrics_wf :: "'f ProcessMetrics \<Rightarrow> bool" where
  "ProcessMetrics_wf m \<longleftrightarrow> 0 \<le> pm_CollectedAt m"

interpretation process: merge_comm ProcessMetrics_wf "\<lambda>_. 0" 1
  "ProcessMetrics_zero :: ('f::comm_monoid_add) ProcessMetrics" "\<lambda>m other. ProcessMetrics_Merge m (Some other)"
proof unfold_locales
  fix a b c :: "'f ProcessMetrics"
  show "ProcessMetrics_Merge a (Some b) = ProcessMetrics_Merge b (Some a)"
    by (rule ProcessMetrics.equality)
      (simp_all only: ProcessMetrics_Merge_sel, simp_all add: process_parts_comm add.commute max.commute)
  show "ProcessMetrics_Merge (ProcessMetrics_Merge a (Some b)) (Some c) =
      ProcessMetrics_Merge a (Some (ProcessMetrics_Merge b (Some c)))"
    by (rule ProcessMetrics.equality)
      (simp_all only: ProcessMetrics_Merge_sel, simp_all add: process_parts_assoc add.assoc max.assoc)
  assume wf: "ProcessMetrics_wf a"
  show "ProcessMetrics_Merge ProcessMetrics_zero (Some a) = a"
    by (rule ProcessMetrics.equality)
      (simp_all only: ProcessMetrics_Merge_sel ProcessMetrics_zero_sel,
        use wf in \<open>simp_all add: process_parts_zero ProcessMetrics_wf_def\<close>)
  show "ProcessMetrics_Merge a (Some ProcessMetrics_zero) = a"
    by (rule ProcessMetrics.equality)
      (simp_all only: ProcessMetrics_Merge_sel ProcessMetrics_zero_sel,
        use wf in \<open>simp_all add: process_parts_zero ProcessMetrics_wf_def\<close>)
qed (simp_all add: ProcessMetrics_wf_def)

end
