(* ===== verification/Disk_Metrics.thy ===== *)
theory Disk_Metrics
  imports Counters Segmented
begin

text \<open>
  \<open>DiskMetric\<close> and \<open>DriveHealInfo\<close> of \<open>metrics.go\<close>: the metrics of one or more drives. \<open>None\<close>
  is a panic. The receiver is not nil (see \<open>Realtime\<close>). The argument is a value here; the one
  place where the method writes through it is \<open>DiskMetric_Merge_arg\<close>.
\<close>

record DriveHealInfo =
  dh_ItemsHealed :: u64
  dh_ItemsFailed :: u64
  dh_HealID :: string
  dh_Finished :: bool
  dh_Started :: gotime
  dh_Updated :: gotime

record 'f DiskMetric =
  dm_CollectedAt :: gotime
  dm_NDisks :: i64
  dm_DiskIdx :: "i64 option"
  dm_SetIdx :: "i64 option"
  dm_PoolIdx :: "i64 option"
  dm_State :: "(string, i64) gomap"
  dm_Offline :: i64
  dm_Hanging :: i64
  dm_Healing :: i64
  dm_HealingInfo :: "DriveHealInfo option"
  dm_Cache :: "CacheStats option"
  dm_Space :: DriveSpaceInfo
  dm_LifetimeOps :: "(string, 'f DiskAction) gomap"
  dm_LastMinute :: "(string, 'f DiskAction) gomap"
  dm_LastDaySegmented :: "(string, 'f DiskAction Segmented) gomap"
  dm_IOStats :: "DiskIOStatsLegacy option"
  dm_IOStatsMinute :: DiskIOStats
  dm_IOStatsDay :: "DiskIOStats Segmented"

definition DiskMetric_zero :: "'f DiskMetric" where
  "DiskMetric_zero = \<lparr>
     dm_CollectedAt = 0, dm_NDisks = 0, dm_DiskIdx = None, dm_SetIdx = None, dm_PoolIdx = None,
     dm_State = None, dm_Offline = 0, dm_Hanging = 0, dm_Healing = 0, dm_HealingInfo = None,
     dm_Cache = None, dm_Space = DriveSpaceInfo_zero, dm_LifetimeOps = None,
     dm_LastMinute = None, dm_LastDaySegmented = None, dm_IOStats = None,
     dm_IOStatsMinute = DiskIOStats_zero, dm_IOStatsDay = Segmented_zero\<rparr>"

text \<open>
  The rule for the three indices: \<open>n\<close> is the number of disks of the receiver, \<open>lost\<close> that the
  index above has been dropped.
\<close>

definition merge_idx :: "i64 \<Rightarrow> bool \<Rightarrow> i64 option \<Rightarrow> i64 option \<Rightarrow> i64 option" where
  "merge_idx n lost d other =
    (if d = None \<and> n = 0 \<and> other \<noteq> None then other
     else if other = None \<or> (d \<noteq> None \<and> other \<noteq> None \<and> d \<noteq> other) \<or> lost then None else d)"

definition DiskMetric_Merge ::
  "('f::{plus,zero,inf,sup}) DiskMetric \<Rightarrow> 'f DiskMetric option \<Rightarrow> 'f DiskMetric option" where
  "DiskMetric_Merge d other = (case other of None \<Rightarrow> Some d | Some other \<Rightarrow>
    if dm_NDisks d = 0 then Some other
    else do {
      let d = d\<lparr>dm_CollectedAt := latest (dm_CollectedAt d) (dm_CollectedAt other)\<rparr>;
      let d = d\<lparr>dm_PoolIdx := merge_idx (dm_NDisks d) False (dm_PoolIdx d) (dm_PoolIdx other)\<rparr>;
      let d = d\<lparr>dm_SetIdx := merge_idx (dm_NDisks d) (dm_PoolIdx d = None) (dm_SetIdx d) (dm_SetIdx other)\<rparr>;
      let d = d\<lparr>dm_DiskIdx := merge_idx (dm_NDisks d) (dm_SetIdx d = None) (dm_DiskIdx d) (dm_DiskIdx other)\<rparr>;
      state \<leftarrow> gm_accum (+) 0 (gm_make_if (gm_nonempty (dm_State other)) (dm_State d)) (dm_State other);
      let d = d\<lparr>dm_State := state,
        dm_NDisks := dm_NDisks d + dm_NDisks other,
        dm_Offline := dm_Offline d + dm_Offline other,
        dm_Healing := dm_Healing d + dm_Healing other,
        dm_Hanging := dm_Hanging d + dm_Hanging other\<rparr>;
      let d = d\<lparr>dm_Cache := (case dm_Cache other of None \<Rightarrow> dm_Cache d
        | Some oc \<Rightarrow> Some (CacheStats_Merge (case dm_Cache d of None \<Rightarrow> oc | Some c \<Rightarrow> c) oc))\<rparr>;
      let d = d\<lparr>dm_Space := DriveSpaceInfo_Merge (dm_Space d) (dm_Space other)\<rparr>;
      lifetime \<leftarrow> gm_accum DiskAction_Add DiskAction_zero
        (gm_make_if (gm_nonempty (dm_LifetimeOps other)) (dm_LifetimeOps d)) (dm_LifetimeOps other);
      lastMin \<leftarrow> gm_accum DiskAction_Add DiskAction_zero
        (gm_make_if (gm_nonempty (dm_LastMinute other)) (dm_LastMinute d)) (dm_LastMinute other);
      lastDay \<leftarrow> gm_range_try (\<lambda>t v. Segmented_Add DiskAction_Add DiskAction_zero
          (case t of None \<Rightarrow> Segmented_zero | Some t \<Rightarrow> t) (Some v))
        (gm_make_if (gm_nonempty (dm_LastDaySegmented other)) (dm_LastDaySegmented d)) (dm_LastDaySegmented other);
      let d = d\<lparr>dm_LifetimeOps := lifetime, dm_LastMinute := lastMin, dm_LastDaySegmented := lastDay\<rparr>;
      let d = d\<lparr>dm_IOStats := (case dm_IOStats other of None \<Rightarrow> dm_IOStats d
        | Some ob \<Rightarrow> Some (DiskIOStats_Add
            (case dm_IOStats d of None \<Rightarrow> DiskIOStats_zero | Some a \<Rightarrow> a) ob))\<rparr>;
      let d = d\<lparr>dm_IOStatsMinute := DiskIOStats_Add (dm_IOStatsMinute d) (dm_IOStatsMinute other)\<rparr>;
      ioDay \<leftarrow> Segmented_Add DiskIOStats_Add DiskIOStats_zero (dm_IOStatsDay d) (Some (dm_IOStatsDay other));
      Some (d\<lparr>dm_IOStatsDay := ioDay\<rparr>)
    })"

text \<open>
  The argument after the call: where the receiver has no cache statistics, it takes the
  argument's pointer and then merges the argument into it, that is, into itself.
\<close>

definition DiskMetric_Merge_arg :: "'f DiskMetric \<Rightarrow> 'f DiskMetric \<Rightarrow> 'f DiskMetric" where
  "DiskMetric_Merge_arg d other = (case dm_Cache other of None \<Rightarrow> other
    | Some oc \<Rightarrow> if dm_NDisks d \<noteq> 0 \<and> dm_Cache d = None
        then other\<lparr>dm_Cache := Some (CacheStats_Merge oc oc)\<rparr> else other)"

definition DiskMetric_LifetimeTotal ::
  "('f::{plus,zero,inf,sup}) DiskMetric \<Rightarrow> string list \<Rightarrow> 'f DiskAction" where
  "DiskMetric_LifetimeTotal d ks = add_all DiskAction_Add (gm_vals (dm_LifetimeOps d) ks) DiskAction_zero"

subsection \<open>What the merge computes\<close>

lemma DiskMetric_Merge_first: "dm_NDisks d = 0 \<Longrightarrow> DiskMetric_Merge d (Some other) = Some other"
  by (simp add: DiskMetric_Merge_def)

text \<open>An index survives only where both sides have it and agree.\<close>

lemma merge_idx_same: "n \<noteq> 0 \<Longrightarrow> merge_idx n lost d other = (if d = other \<and> \<not> lost then d else None)"
  by (cases d; cases other) (auto simp: merge_idx_def)

lemma DiskMetric_Merge_sel:
  fixes d :: "('f::{plus,zero,inf,sup}) DiskMetric"
  assumes n: "dm_NDisks d \<noteq> 0" and r: "DiskMetric_Merge d (Some other) = Some r"
  shows "dm_NDisks r = dm_NDisks d + dm_NDisks other"
    and "dm_PoolIdx r = (if dm_PoolIdx d = dm_PoolIdx other then dm_PoolIdx d else None)"
    and "dm_SetIdx r = (if dm_SetIdx d = dm_SetIdx other \<and> dm_PoolIdx r \<noteq> None then dm_SetIdx d else None)"
    and "dm_DiskIdx r = (if dm_DiskIdx d = dm_DiskIdx other \<and> dm_SetIdx r \<noteq> None then dm_DiskIdx d else None)"
    and "dm_Cache r = (case dm_Cache other of None \<Rightarrow> dm_Cache d
      | Some oc \<Rightarrow> Some (CacheStats_Merge (case dm_Cache d of None \<Rightarrow> oc | Some c \<Rightarrow> c) oc))"
    and "dm_HealingInfo r = dm_HealingInfo d"
    and "dm_Space r = DriveSpaceInfo_Merge (dm_Space d) (dm_Space other)"
    and "gm_accum DiskAction_Add DiskAction_zero
        (gm_make_if (gm_nonempty (dm_LifetimeOps other)) (dm_LifetimeOps d)) (dm_LifetimeOps other) =
      Some (dm_LifetimeOps r)"
    and "gm_accum (+) 0 (gm_make_if (gm_nonempty (dm_State other)) (dm_State d)) (dm_State other) =
      Some (dm_State r)"
  using r n by (auto simp: DiskMetric_Merge_def Let_def bind_eq_Some_conv merge_idx_same
      cong: option.case_cong)

definition segs_fit :: "('k, 'f DiskAction Segmented) gomap \<Rightarrow> ('k, 'f DiskAction Segmented) gomap \<Rightarrow> bool" where
  "segs_fit d s \<longleftrightarrow> (\<forall>k e v. gm_get d k = Some e \<longrightarrow> gm_get s k = Some v \<longrightarrow>
     (\<exists>iv lo hi. in_window iv lo hi e \<and> in_window iv lo hi v))"

text \<open>The merge returns when the series of the two sides lie in common windows.\<close>

lemma DiskMetric_Merge_returns:
  fixes d :: "('f::{plus,zero,inf,sup}) DiskMetric"
  assumes "segs_fit (dm_LastDaySegmented d) (dm_LastDaySegmented other)"
    and "in_window iv lo hi (dm_IOStatsDay d)" "in_window iv lo hi (dm_IOStatsDay other)"
  shows "\<exists>r. DiskMetric_Merge d (Some other) = Some r"
proof -
  obtain a where "gm_accum (+) 0 (gm_make_if (gm_nonempty (dm_State other)) (dm_State d)) (dm_State other) = Some a"
    using gm_accum_make_if by metis
  moreover obtain b where "gm_accum DiskAction_Add DiskAction_zero
      (gm_make_if (gm_nonempty (dm_LifetimeOps other)) (dm_LifetimeOps d)) (dm_LifetimeOps other) = Some b"
    using gm_accum_make_if by metis
  moreover obtain c where "gm_accum DiskAction_Add DiskAction_zero
      (gm_make_if (gm_nonempty (dm_LastMinute other)) (dm_LastMinute d)) (dm_LastMinute other) = Some c"
    using gm_accum_make_if by metis
  moreover have "\<exists>e. gm_range_try (\<lambda>t v. Segmented_Add DiskAction_Add DiskAction_zero
          (case t of None \<Rightarrow> Segmented_zero | Some t \<Rightarrow> t) (Some v))
        (gm_make_if (gm_nonempty (dm_LastDaySegmented other)) (dm_LastDaySegmented d))
        (dm_LastDaySegmented other) = Some e"
  proof (rule gm_range_try_returns)
    fix k v assume v: "gm_get (dm_LastDaySegmented other) k = Some v"
    show "Segmented_Add DiskAction_Add DiskAction_zero
        (case gm_get (dm_LastDaySegmented d) k of None \<Rightarrow> Segmented_zero | Some t \<Rightarrow> t) (Some v) \<noteq> None"
    proof (cases "gm_get (dm_LastDaySegmented d) k")
      case (Some e)
      then obtain iv lo hi where "in_window iv lo hi e" "in_window iv lo hi v"
        using assms(1) v unfolding segs_fit_def by blast
      then obtain r where "Segmented_Add DiskAction_Add DiskAction_zero e (Some v) = Some r"
        by (rule in_window_Add)
      then show ?thesis using Some by simp
    qed (simp add: Segmented_Add_def Segmented_zero_def)
  qed
  moreover obtain f where "Segmented_Add DiskIOStats_Add DiskIOStats_zero (dm_IOStatsDay d)
      (Some (dm_IOStatsDay other)) = Some f"
    by (rule in_window_Add [OF assms(2,3)])
  ultimately show ?thesis
    by (auto simp: DiskMetric_Merge_def Let_def)
qed

text \<open>The lifetime total of merged drives is the sum of their totals.\<close>

lemma DiskMetric_LifetimeTotal_Merge:
  fixes d :: "('f::{lattice,comm_monoid_add}) DiskMetric"
  assumes r: "DiskMetric_Merge d (Some other) = Some r" and n: "dm_NDisks d \<noteq> 0"
    and ord: "gm_order (dm_LifetimeOps r) ks" "gm_order (dm_LifetimeOps d) kd" "gm_order (dm_LifetimeOps other) ko"
    and wf: "\<And>k v. gm_get (dm_LifetimeOps d) k = Some v \<Longrightarrow> DiskAction_wf v"
      "\<And>k v. gm_get (dm_LifetimeOps other) k = Some v \<Longrightarrow> DiskAction_wf v"
    and w: "total_weight DiskAction_weight (gm_vals (dm_LifetimeOps d) kd) +
      total_weight DiskAction_weight (gm_vals (dm_LifetimeOps other) ko) < 2 ^ 64"
  shows "DiskMetric_LifetimeTotal r ks = DiskAction_Add (DiskMetric_LifetimeTotal d kd) (DiskMetric_LifetimeTotal other ko)"
proof -
  let ?d = "gm_make_if (gm_nonempty (dm_LifetimeOps other)) (dm_LifetimeOps d)"
  have "gm_order ?d kd" using ord(2) by simp
  from disk.accum_total [OF DiskMetric_Merge_sel(8) [OF n r] ord(1) this ord(3)] wf w
  show ?thesis by (simp add: DiskMetric_LifetimeTotal_def)
qed

lemma DiskMetric_cache_doubled:
  assumes "dm_NDisks d \<noteq> 0" "dm_Cache d = None" "dm_Cache other = Some c"
    and "DiskMetric_Merge d (Some other) = Some r"
  shows "dm_Cache r = Some (CacheStats_Merge c c) \<and> dm_Cache (DiskMetric_Merge_arg d other) = Some (CacheStats_Merge c c)"
  using DiskMetric_Merge_sel(5) [OF assms(1,4)] assms(1-3) by (simp add: DiskMetric_Merge_arg_def)

end
