(* ===== verification/Realtime.thy ===== *)
theory Realtime
  imports Request_Metrics Node_Metrics Process_Metrics Disk_Metrics
begin

text \<open>
  \<open>Metrics\<close> and \<open>RealtimeMetrics\<close> of \<open>metrics.go\<close>: what a node sends for a metrics request,
  and how the answers of all nodes are merged. \<open>None\<close> is a panic.
\<close>

text \<open>
  The three lines \<open>if r.X == nil && other.X != nil { r.X = &X{} }; r.X.Merge(other.X)\<close>. The
  receiver of the method is nil only when the argument is, and then the method returns.
\<close>

definition merge_ptr :: "'a \<Rightarrow> ('a \<Rightarrow> 'a option \<Rightarrow> 'a option) \<Rightarrow> 'a option \<Rightarrow> 'a option \<Rightarrow> 'a option option" where
  "merge_ptr z merge r other = (case other of None \<Rightarrow> Some r
     | Some _ \<Rightarrow> map_option Some (merge (case r of None \<Rightarrow> z | Some x \<Rightarrow> x) other))"

record 'f Metrics =
  mt_Scanner :: "ScannerMetrics option"
  mt_Disk :: "'f DiskMetric option"
  mt_OS :: "'f OSMetrics option"
  mt_BatchJobs :: "BatchJobMetrics option"
  mt_SiteResync :: "SiteResyncMetrics option"
  mt_Net :: "NetMetrics option"
  mt_Mem :: "MemMetrics option"
  mt_CPU :: "'f CPUMetrics option"
  mt_RPC :: "'f RPCMetrics option"
  mt_Go :: "'f RuntimeMetrics option"
  mt_API :: "'f APIMetrics option"
  mt_Replication :: "'f ReplicationMetrics option"
  mt_Process :: "'f ProcessMetrics option"

definition Metrics_zero :: "'f Metrics" where
  "Metrics_zero = \<lparr>mt_Scanner = None, mt_Disk = None, mt_OS = None, mt_BatchJobs = None,
     mt_SiteResync = None, mt_Net = None, mt_Mem = None, mt_CPU = None, mt_RPC = None, mt_Go = None,
     mt_API = None, mt_Replication = None, mt_Process = None\<rparr>"

definition Metrics_Merge ::
  "('f::{plus,zero,ord,inf,sup}) Metrics \<Rightarrow> 'f Metrics option \<Rightarrow> 'f Metrics option" where
  "Metrics_Merge r other = (case other of None \<Rightarrow> Some r | Some other \<Rightarrow> do {
     scanner \<leftarrow> merge_ptr ScannerMetrics_zero ScannerMetrics_Merge (mt_Scanner r) (mt_Scanner other);
     disk \<leftarrow> merge_ptr DiskMetric_zero DiskMetric_Merge (mt_Disk r) (mt_Disk other);
     os \<leftarrow> merge_ptr OSMetrics_zero OSMetrics_Merge (mt_OS r) (mt_OS other);
     jobs \<leftarrow> merge_ptr BatchJobMetrics_zero BatchJobMetrics_Merge (mt_BatchJobs r) (mt_BatchJobs other);
     resync \<leftarrow> merge_ptr SiteResyncMetrics_zero (\<lambda>a b. Some (SiteResyncMetrics_Merge a b))
       (mt_SiteResync r) (mt_SiteResync other);
     net \<leftarrow> merge_ptr NetMetrics_zero NetMetrics_Merge (mt_Net r) (mt_Net other);
     rpc \<leftarrow> merge_ptr RPCMetrics_zero RPCMetrics_Merge (mt_RPC r) (mt_RPC other);
     go \<leftarrow> merge_ptr RuntimeMetrics_zero RuntimeMetrics_Merge (mt_Go r) (mt_Go other);
     api \<leftarrow> merge_ptr APIMetrics_zero APIMetrics_Merge (mt_API r) (mt_API other);
     repl \<leftarrow> merge_ptr ReplicationMetrics_zero ReplicationMetrics_Merge (mt_Replication r) (mt_Replication other);
     mem \<leftarrow> merge_ptr MemMetrics_zero (\<lambda>a b. Some (MemMetrics_Merge a b)) (mt_Mem r) (mt_Mem other);
     cpu \<leftarrow> merge_ptr CPUMetrics_zero CPUMetrics_Merge (mt_CPU r) (mt_CPU other);
     proc \<leftarrow> merge_ptr ProcessMetrics_zero (\<lambda>a b. Some (ProcessMetrics_Merge a b))
       (mt_Process r) (mt_Process other);
     Some \<lparr>mt_Scanner = scanner, mt_Disk = disk, mt_OS = os, mt_BatchJobs = jobs, mt_SiteResync = resync,
           mt_Net = net, mt_Mem = mem, mt_CPU = cpu, mt_RPC = rpc, mt_Go = go, mt_API = api,
           mt_Replication = repl, mt_Process = proc\<rparr>
   })"

record 'f RealtimeMetrics =
  rl_CollectedAt :: gotime
  rl_Errors :: "string list"
  rl_Hosts :: "string list"
  rl_Aggregated :: "'f Metrics"
  rl_ByHost :: "(string, 'f Metrics) gomap"
  rl_ByDisk :: "(string, 'f DiskMetric) gomap"
  rl_ByDiskSet :: "(i64, (i64, 'f DiskMetric) gomap) gomap"
  rl_Final :: bool

definition RealtimeMetrics_zero :: "'f RealtimeMetrics" where
  "RealtimeMetrics_zero = \<lparr>rl_CollectedAt = 0, rl_Errors = [], rl_Hosts = [], rl_Aggregated = Metrics_zero,
     rl_ByHost = None, rl_ByDisk = None, rl_ByDiskSet = None, rl_Final = False\<rparr>"

text \<open>The inner loop over the sets of a pool; a pool without a map gets one.\<close>

definition merge_pool :: "(i64, ('f::{plus,zero,ord,inf,sup}) DiskMetric) gomap option \<Rightarrow>
  (i64, 'f DiskMetric) gomap \<Rightarrow> (i64, 'f DiskMetric) gomap option" where
  "merge_pool dstp pool = gm_range_try (\<lambda>dsts disks. DiskMetric_Merge
      (case dsts of None \<Rightarrow> DiskMetric_zero | Some d \<Rightarrow> d) (Some disks))
    (gm_make_if True (case dstp of None \<Rightarrow> None | Some m \<Rightarrow> m)) pool"

definition RealtimeMetrics_Merge ::
  "('f::{plus,zero,ord,inf,sup}) RealtimeMetrics \<Rightarrow> 'f RealtimeMetrics option \<Rightarrow> 'f RealtimeMetrics option" where
  "RealtimeMetrics_Merge r other = (case other of None \<Rightarrow> Some r | Some other \<Rightarrow> do {
     let r = r\<lparr>rl_CollectedAt := latest (rl_CollectedAt r) (rl_CollectedAt other)\<rparr>;
     let r = r\<lparr>rl_Errors := rl_Errors r @ rl_Errors other\<rparr>;
     byHost \<leftarrow> gm_copy (gm_make_if (gm_nonempty (rl_ByHost other)) (rl_ByHost r)) (rl_ByHost other);
     aggregated \<leftarrow> Metrics_Merge (rl_Aggregated r) (Some (rl_Aggregated other));
     let r = r\<lparr>rl_ByHost := byHost, rl_Aggregated := aggregated,
               rl_Hosts := sort (rl_Hosts r @ rl_Hosts other)\<rparr>;
     byDisk \<leftarrow> gm_copy (gm_make_if (gm_nonempty (rl_ByDisk other)) (rl_ByDisk r)) (rl_ByDisk other);
     byDiskSet \<leftarrow> gm_range_try merge_pool
       (gm_make_if (gm_nonempty (rl_ByDiskSet other)) (rl_ByDiskSet r)) (rl_ByDiskSet other);
     Some (r\<lparr>rl_ByDisk := byDisk, rl_ByDiskSet := byDiskSet\<rparr>)
   })"

subsection \<open>Rules 2 and 5 of the merge functionality\<close>

lemma merge_ptr_unset [simp]: "merge_ptr z f r None = Some r"
  by (simp add: merge_ptr_def)

lemma merge_ptr_set: "merge_ptr z f r (Some y) = map_option Some (f (case r of None \<Rightarrow> z | Some x \<Rightarrow> x) (Some y))"
  by (simp add: merge_ptr_def)

lemma merge_ptr_returns:
  assumes "\<And>x y. (case r of None \<Rightarrow> z | Some x \<Rightarrow> x) = x \<Longrightarrow> other = Some y \<Longrightarrow> \<exists>q. f x (Some y) = Some q"
  shows "\<exists>q. merge_ptr z f r other = Some q"
proof (cases other)
  case (Some y)
  then obtain q where "f (case r of None \<Rightarrow> z | Some x \<Rightarrow> x) (Some y) = Some q" using assms by blast
  then show ?thesis using Some by (simp add: merge_ptr_set)
qed simp

text \<open>An argument in which nothing is set changes nothing.\<close>

lemma Metrics_Merge_unset: "Metrics_Merge r (Some Metrics_zero) = Some r"
  by (simp add: Metrics_Merge_def Metrics_zero_def)

text \<open>Component by component, the merge is the merge of the component.\<close>

lemma Metrics_Merge_sel:
  assumes "Metrics_Merge m (Some other) = Some r"
  shows "merge_ptr ScannerMetrics_zero ScannerMetrics_Merge (mt_Scanner m) (mt_Scanner other) = Some (mt_Scanner r)"
    and "merge_ptr DiskMetric_zero DiskMetric_Merge (mt_Disk m) (mt_Disk other) = Some (mt_Disk r)"
    and "merge_ptr NetMetrics_zero NetMetrics_Merge (mt_Net m) (mt_Net other) = Some (mt_Net r)"
    and "merge_ptr APIMetrics_zero APIMetrics_Merge (mt_API m) (mt_API other) = Some (mt_API r)"
    and "merge_ptr ProcessMetrics_zero (\<lambda>a b. Some (ProcessMetrics_Merge a b)) (mt_Process m) (mt_Process other)
      = Some (mt_Process r)"
  using assms by (auto simp: Metrics_Merge_def bind_eq_Some_conv)

text \<open>
  What must hold for the merge to return: the series of each pair that is merged lie in a
  common window, and the runtime's histograms have their shape.
\<close>

definition opt_rel :: "('a \<Rightarrow> 'b \<Rightarrow> bool) \<Rightarrow> 'a option \<Rightarrow> 'b option \<Rightarrow> bool" where
  "opt_rel R a b \<longleftrightarrow> (\<forall>x y. a = Some x \<longrightarrow> b = Some y \<longrightarrow> R x y)"

definition disk_fit :: "'f DiskMetric \<Rightarrow> 'f DiskMetric \<Rightarrow> bool" where
  "disk_fit d other \<longleftrightarrow> segs_fit (dm_LastDaySegmented d) (dm_LastDaySegmented other) \<and>
     (\<exists>iv lo hi. in_window iv lo hi (dm_IOStatsDay d) \<and> in_window iv lo hi (dm_IOStatsDay other))"

definition targets_fit :: "'f ReplicationMetrics \<Rightarrow> 'f ReplicationMetrics \<Rightarrow> bool" where
  "targets_fit m other \<longleftrightarrow> (\<forall>k e v. gm_get (rpm_Targets m) k = Some e \<longrightarrow> gm_get (rpm_Targets other) k = Some v \<longrightarrow>
     day_fit (rt_LastDay e) (rt_LastDay v))"

definition metrics_fit :: "'f Metrics \<Rightarrow> 'f Metrics \<Rightarrow> bool" where
  "metrics_fit m other \<longleftrightarrow>
     opt_rel disk_fit (mt_Disk m) (mt_Disk other) \<and>
     opt_rel (\<lambda>a b. series_fit (rm_LastDay a) (rm_LastDay b)) (mt_RPC m) (mt_RPC other) \<and>
     opt_rel (\<lambda>a b. series_fit (am_LastDayAPI a) (am_LastDayAPI b)) (mt_API m) (mt_API other) \<and>
     opt_rel targets_fit (mt_Replication m) (mt_Replication other) \<and>
     opt_rel (\<lambda>a b. \<forall>k v. gm_get (go_HistMetrics b) k = Some v \<longrightarrow> hist_fit (gm_get (go_HistMetrics a) k) v)
       (mt_Go m) (mt_Go other)"

lemma RuntimeMetrics_Merge_fit:
  "\<forall>k v. gm_get (go_HistMetrics b) k = Some v \<longrightarrow> hist_fit (gm_get (go_HistMetrics a) k) v \<Longrightarrow>
   \<exists>q. RuntimeMetrics_Merge a (Some b) = Some q"
  using RuntimeMetrics_Merge_panics_iff [of a b] by (metis option.exhaust)

lemma merge_ptr_fit:
  assumes "opt_rel R r other" and "\<And>x y. R x y \<Longrightarrow> \<exists>q. f x (Some y) = Some q"
    and "\<And>y. \<exists>q. f z (Some y) = Some q"
  shows "\<exists>q. merge_ptr z f r other = Some q"
  by (rule merge_ptr_returns) (use assms in \<open>auto simp: opt_rel_def split: option.splits\<close>)

lemma Metrics_Merge_returns:
  fixes m :: "('f::{plus,zero,ord,inf,sup}) Metrics"
  assumes "metrics_fit m other"
  shows "\<exists>r. Metrics_Merge m (Some other) = Some r"
proof -
  have fit: "opt_rel disk_fit (mt_Disk m) (mt_Disk other)"
    "opt_rel (\<lambda>a b. series_fit (rm_LastDay a) (rm_LastDay b)) (mt_RPC m) (mt_RPC other)"
    "opt_rel (\<lambda>a b. series_fit (am_LastDayAPI a) (am_LastDayAPI b)) (mt_API m) (mt_API other)"
    "opt_rel targets_fit (mt_Replication m) (mt_Replication other)"
    "opt_rel (\<lambda>a b. \<forall>k v. gm_get (go_HistMetrics b) k = Some v \<longrightarrow> hist_fit (gm_get (go_HistMetrics a) k) v)
       (mt_Go m) (mt_Go other)"
    using assms by (simp_all add: metrics_fit_def)
  have "\<exists>q. merge_ptr ScannerMetrics_zero ScannerMetrics_Merge (mt_Scanner m) (mt_Scanner other) = Some q"
    "\<exists>q. merge_ptr OSMetrics_zero OSMetrics_Merge (mt_OS m) (mt_OS other) = Some q"
    "\<exists>q. merge_ptr BatchJobMetrics_zero BatchJobMetrics_Merge (mt_BatchJobs m) (mt_BatchJobs other) = Some q"
    "\<exists>q. merge_ptr NetMetrics_zero NetMetrics_Merge (mt_Net m) (mt_Net other) = Some q"
    "\<exists>q. merge_ptr CPUMetrics_zero CPUMetrics_Merge (mt_CPU m) (mt_CPU other) = Some q"
    by (rule merge_ptr_returns; rule no_panic)+
  moreover have "\<exists>q. merge_ptr SiteResyncMetrics_zero (\<lambda>a b. Some (SiteResyncMetrics_Merge a b))
       (mt_SiteResync m) (mt_SiteResync other) = Some q"
    "\<exists>q. merge_ptr MemMetrics_zero (\<lambda>a b. Some (MemMetrics_Merge a b)) (mt_Mem m) (mt_Mem other) = Some q"
    "\<exists>q. merge_ptr ProcessMetrics_zero (\<lambda>a b. Some (ProcessMetrics_Merge a b)) (mt_Process m) (mt_Process other) = Some q"
    by (rule merge_ptr_returns; simp)+
  moreover have "\<exists>q. merge_ptr DiskMetric_zero DiskMetric_Merge (mt_Disk m) (mt_Disk other) = Some q"
    by (rule merge_ptr_fit [OF fit(1)])
      (auto simp: disk_fit_def DiskMetric_Merge_first DiskMetric_zero_def intro: DiskMetric_Merge_returns)
  moreover have "\<exists>q. merge_ptr RPCMetrics_zero RPCMetrics_Merge (mt_RPC m) (mt_RPC other) = Some q"
    by (rule merge_ptr_fit [OF fit(2)])
      (auto intro!: RPCMetrics_Merge_returns simp: series_fit_def RPCMetrics_zero_def gm_get_def)
  moreover have "\<exists>q. merge_ptr APIMetrics_zero APIMetrics_Merge (mt_API m) (mt_API other) = Some q"
    by (rule merge_ptr_fit [OF fit(3)])
      (auto intro!: APIMetrics_Merge_returns simp: series_fit_def APIMetrics_zero_def gm_get_def)
  moreover have "\<exists>q. merge_ptr ReplicationMetrics_zero ReplicationMetrics_Merge (mt_Replication m)
      (mt_Replication other) = Some q"
    by (rule merge_ptr_fit [OF fit(4)])
      (auto intro!: ReplicationMetrics_Merge_returns simp: targets_fit_def ReplicationMetrics_zero_def gm_get_def)
  moreover have "\<exists>q. merge_ptr RuntimeMetrics_zero RuntimeMetrics_Merge (mt_Go m) (mt_Go other) = Some q"
    by (rule merge_ptr_fit [OF fit(5)])
      (auto intro!: RuntimeMetrics_Merge_fit simp: hist_fit_def RuntimeMetrics_zero_def gm_get_def)
  ultimately show ?thesis by (auto simp: Metrics_Merge_def)
qed

subsection \<open>RealtimeMetrics\<close>

lemma RealtimeMetrics_Merge_sel:
  assumes "RealtimeMetrics_Merge r (Some other) = Some q"
  shows "rl_CollectedAt q = max (rl_CollectedAt r) (rl_CollectedAt other)"
    and "rl_Errors q = rl_Errors r @ rl_Errors other"
    and "rl_Hosts q = sort (rl_Hosts r @ rl_Hosts other)"
    and "Metrics_Merge (rl_Aggregated r) (Some (rl_Aggregated other)) = Some (rl_Aggregated q)"
    and "gm_copy (gm_make_if (gm_nonempty (rl_ByHost other)) (rl_ByHost r)) (rl_ByHost other) = Some (rl_ByHost q)"
    and "gm_range_try merge_pool
       (gm_make_if (gm_nonempty (rl_ByDiskSet other)) (rl_ByDiskSet r)) (rl_ByDiskSet other) = Some (rl_ByDiskSet q)"
    and "rl_Final q = rl_Final r"
  using assms by (auto simp: RealtimeMetrics_Merge_def Let_def bind_eq_Some_conv latest_max)

text \<open>The last answer for a host wins.\<close>

lemma RealtimeMetrics_Merge_host:
  "RealtimeMetrics_Merge r (Some other) = Some q \<Longrightarrow>
   gm_get (rl_ByHost q) h = (case gm_get (rl_ByHost other) h of None \<Rightarrow> gm_get (rl_ByHost r) h | Some v \<Rightarrow> Some v)"
  by (drule RealtimeMetrics_Merge_sel(5), drule gm_get_copy [where k = h]) (simp split: option.splits)

text \<open>The drives of one pool and set.\<close>

definition disk_set :: "'f RealtimeMetrics \<Rightarrow> i64 \<Rightarrow> i64 \<Rightarrow> 'f DiskMetric option" where
  "disk_set r p s = (case gm_get (rl_ByDiskSet r) p of None \<Rightarrow> None | Some pool \<Rightarrow> gm_get pool s)"

lemma merge_pool_get:
  "merge_pool dstp pool = Some q \<Longrightarrow>
   gm_get q s = (case gm_get pool s of None \<Rightarrow> (case dstp of None \<Rightarrow> None | Some m \<Rightarrow> gm_get m s)
     | Some v \<Rightarrow> DiskMetric_Merge (case (case dstp of None \<Rightarrow> None | Some m \<Rightarrow> gm_get m s) of
           None \<Rightarrow> DiskMetric_zero | Some d \<Rightarrow> d) (Some v))"
  unfolding merge_pool_def
  by (drule gm_get_range_try [where k = s]) (auto simp: gm_get_def [of None] split: option.splits)

lemma RealtimeMetrics_Merge_disk_set:
  assumes "RealtimeMetrics_Merge r (Some other) = Some q"
  shows "disk_set q p s = (case disk_set other p s of None \<Rightarrow> disk_set r p s
    | Some v \<Rightarrow> DiskMetric_Merge (case disk_set r p s of None \<Rightarrow> DiskMetric_zero | Some d \<Rightarrow> d) (Some v))"
proof -
  note m = RealtimeMetrics_Merge_sel(6) [OF assms]
  show ?thesis
  proof (cases "gm_get (rl_ByDiskSet other) p")
    case None
    then show ?thesis using gm_get_range_try [OF m, of p] by (simp add: disk_set_def)
  next
    case (Some pool)
    have "merge_pool (gm_get (gm_make_if (gm_nonempty (rl_ByDiskSet other)) (rl_ByDiskSet r)) p) pool \<noteq> None"
    proof
      assume "merge_pool (gm_get (gm_make_if (gm_nonempty (rl_ByDiskSet other)) (rl_ByDiskSet r)) p) pool = None"
      from gm_range_try_panics [where f = merge_pool, OF Some this] show False using m by simp
    qed
    then obtain pq where pq: "merge_pool (gm_get (rl_ByDiskSet r) p) pool = Some pq" by auto
    then have "gm_get (rl_ByDiskSet q) p = Some pq"
      using gm_get_range_try [OF m, of p] Some by simp
    then show ?thesis
      using merge_pool_get [OF pq, of s] Some by (simp add: disk_set_def cong: option.case_cong)
  qed
qed

text \<open>The merge of two answers returns when their metrics and the drives of each set fit.\<close>

definition answers_fit :: "'f RealtimeMetrics \<Rightarrow> 'f RealtimeMetrics \<Rightarrow> bool" where
  "answers_fit r other \<longleftrightarrow> metrics_fit (rl_Aggregated r) (rl_Aggregated other) \<and>
     (\<forall>p s. opt_rel disk_fit (disk_set r p s) (disk_set other p s))"

lemma disk_fit_first:
  fixes v :: "('f::{plus,zero,inf,sup}) DiskMetric"
  assumes "\<forall>x. d = Some x \<longrightarrow> disk_fit x v"
  shows "DiskMetric_Merge (case d of None \<Rightarrow> DiskMetric_zero | Some x \<Rightarrow> x) (Some v) \<noteq> None"
proof (cases d)
  case (Some x)
  then show ?thesis using assms DiskMetric_Merge_returns [of x v] by (auto simp: disk_fit_def)
qed (simp add: DiskMetric_Merge_first DiskMetric_zero_def)

lemma merge_pool_returns:
  fixes pool :: "(i64, ('f::{plus,zero,ord,inf,sup}) DiskMetric) gomap"
  assumes "\<And>s. opt_rel disk_fit (case dstp of None \<Rightarrow> None | Some m \<Rightarrow> gm_get m s) (gm_get pool s)"
  shows "merge_pool dstp pool \<noteq> None"
proof -
  let ?d = "case dstp of None \<Rightarrow> None | Some m \<Rightarrow> m"
  let ?f = "\<lambda>dsts disks. DiskMetric_Merge (case dsts of None \<Rightarrow> DiskMetric_zero | Some d \<Rightarrow> d) (Some disks)"
  have "\<exists>m. gm_range_try ?f (gm_make_if True ?d) pool = Some m"
  proof (rule gm_range_try_make)
    fix s v assume v: "gm_get pool s = Some v"
    have g: "gm_get ?d s = (case dstp of None \<Rightarrow> None | Some m \<Rightarrow> gm_get m s)"
      by (cases dstp) (simp_all add: gm_get_def)
    show "?f (gm_get ?d s) v \<noteq> None"
      using assms [of s] v by (intro disk_fit_first) (simp add: g opt_rel_def)
  qed
  then show ?thesis by (auto simp: merge_pool_def)
qed

lemma RealtimeMetrics_Merge_returns:
  fixes r :: "('f::{plus,zero,ord,inf,sup}) RealtimeMetrics"
  assumes "answers_fit r other"
  shows "\<exists>q. RealtimeMetrics_Merge r (Some other) = Some q"
proof -
  obtain a where a: "Metrics_Merge (rl_Aggregated r) (Some (rl_Aggregated other)) = Some a"
    using Metrics_Merge_returns assms unfolding answers_fit_def by blast
  obtain h where h: "gm_copy (gm_make_if (gm_nonempty (rl_ByHost other)) (rl_ByHost r)) (rl_ByHost other) = Some h"
    using gm_copy_make_if by blast
  obtain d where d: "gm_copy (gm_make_if (gm_nonempty (rl_ByDisk other)) (rl_ByDisk r)) (rl_ByDisk other) = Some d"
    using gm_copy_make_if by blast
  have "\<exists>m. gm_range_try merge_pool (gm_make_if (gm_nonempty (rl_ByDiskSet other)) (rl_ByDiskSet r))
      (rl_ByDiskSet other) = Some m"
  proof (rule gm_range_try_returns)
    fix p pool assume pool: "gm_get (rl_ByDiskSet other) p = Some pool"
    have "opt_rel disk_fit (disk_set r p s) (disk_set other p s)" for s
      using assms by (simp add: answers_fit_def)
    then show "merge_pool (gm_get (rl_ByDiskSet r) p) pool \<noteq> None"
      by (intro merge_pool_returns) (simp add: disk_set_def pool)
  qed
  then show ?thesis using a h d by (auto simp: RealtimeMetrics_Merge_def Let_def)
qed

text \<open>Merging the answers of the nodes one after the other.\<close>

fun RealtimeMetrics_Merge_all :: "('f::{plus,zero,ord,inf,sup}) RealtimeMetrics list \<Rightarrow>
  'f RealtimeMetrics \<Rightarrow> 'f RealtimeMetrics option" where
  "RealtimeMetrics_Merge_all [] r = Some r"
| "RealtimeMetrics_Merge_all (x # xs) r = (case RealtimeMetrics_Merge r (Some x) of None \<Rightarrow> None
     | Some r \<Rightarrow> RealtimeMetrics_Merge_all xs r)"

lemma Merge_all_Hosts:
  "RealtimeMetrics_Merge_all xs r = Some q \<Longrightarrow> sorted (rl_Hosts r) \<Longrightarrow>
   rl_Hosts q = sort (rl_Hosts r @ concat (map rl_Hosts xs))"
proof (induction xs arbitrary: r)
  case (Cons x xs)
  obtain r' where r': "RealtimeMetrics_Merge r (Some x) = Some r'"
    and q: "RealtimeMetrics_Merge_all xs r' = Some q"
    using Cons.prems(1) by (auto split: option.splits)
  have h: "rl_Hosts r' = sort (rl_Hosts r @ rl_Hosts x)" by (rule RealtimeMetrics_Merge_sel(3) [OF r'])
  have "rl_Hosts q = sort (rl_Hosts r' @ concat (map rl_Hosts xs))"
    by (rule Cons.IH [OF q]) (simp add: h)
  also have "\<dots> = sort (rl_Hosts r @ concat (map rl_Hosts (x # xs)))"
    by (rule properties_for_sort) (simp_all add: h)
  finally show ?case .
qed (simp add: sorted_sort_id)

text \<open>The process statistics of an answer, zero when it has none.\<close>

definition process_of :: "('f::zero) RealtimeMetrics \<Rightarrow> 'f ProcessMetrics" where
  "process_of r = (case mt_Process (rl_Aggregated r) of None \<Rightarrow> ProcessMetrics_zero | Some p \<Rightarrow> p)"

lemma Merge_process_of:
  fixes r :: "('f::{lattice,comm_monoid_add}) RealtimeMetrics"
  assumes "RealtimeMetrics_Merge r (Some x) = Some q" and "ProcessMetrics_wf (process_of r)"
  shows "process_of q = ProcessMetrics_Merge (process_of r) (Some (process_of x))"
proof -
  have "merge_ptr ProcessMetrics_zero (\<lambda>a b. Some (ProcessMetrics_Merge a b)) (mt_Process (rl_Aggregated r))
      (mt_Process (rl_Aggregated x)) = Some (mt_Process (rl_Aggregated q))"
    by (rule Metrics_Merge_sel(5) [OF RealtimeMetrics_Merge_sel(4) [OF assms(1)]])
  then show ?thesis
    using process.zero_right [OF assms(2)]
    by (cases "mt_Process (rl_Aggregated x)")
      (auto simp: process_of_def merge_ptr_def split: option.splits)
qed

lemma Merge_all_process_of:
  fixes r :: "('f::{lattice,comm_monoid_add}) RealtimeMetrics"
  shows "RealtimeMetrics_Merge_all xs r = Some q \<Longrightarrow> ProcessMetrics_wf (process_of r) \<Longrightarrow>
    list_all ProcessMetrics_wf (map process_of xs) \<Longrightarrow>
    process_of q = add_all (\<lambda>m other. ProcessMetrics_Merge m (Some other)) (map process_of xs) (process_of r)"
proof (induction xs arbitrary: r)
  case (Cons x xs)
  obtain r' where r': "RealtimeMetrics_Merge r (Some x) = Some r'"
    and q: "RealtimeMetrics_Merge_all xs r' = Some q"
    using Cons.prems(1) by (auto split: option.splits)
  have p: "process_of r' = ProcessMetrics_Merge (process_of r) (Some (process_of x))"
    by (rule Merge_process_of [OF r' Cons.prems(2)])
  then have "ProcessMetrics_wf (process_of r')"
    using process.wf_add [OF Cons.prems(2)] Cons.prems(3) by simp
  from Cons.IH [OF q this] Cons.prems(3) show ?case by (simp add: p)
qed simp

text \<open>Neither the host list nor the process statistics depend on the order of the answers.\<close>

lemma RealtimeMetrics_order:
  fixes xs ys :: "('f::{lattice,comm_monoid_add}) RealtimeMetrics list"
  assumes m: "mset xs = mset ys"
    and q: "RealtimeMetrics_Merge_all xs RealtimeMetrics_zero = Some q"
      "RealtimeMetrics_Merge_all ys RealtimeMetrics_zero = Some q'"
    and wf: "list_all ProcessMetrics_wf (map process_of xs)"
  shows "rl_Hosts q = rl_Hosts q' \<and> process_of q = process_of q'"
proof
  have z: "rl_Hosts (RealtimeMetrics_zero :: 'f RealtimeMetrics) = []"
    "process_of (RealtimeMetrics_zero :: 'f RealtimeMetrics) = ProcessMetrics_zero"
    by (simp_all add: RealtimeMetrics_zero_def process_of_def Metrics_zero_def)
  have "mset (concat (map rl_Hosts xs)) = mset (concat (map rl_Hosts ys))"
    using m by (metis mset_concat mset_map sum_mset_sum_list)
  then have "sort (concat (map rl_Hosts xs)) = sort (concat (map rl_Hosts ys))"
    by (intro properties_for_sort) simp_all
  then show "rl_Hosts q = rl_Hosts q'"
    using Merge_all_Hosts [OF q(1)] Merge_all_Hosts [OF q(2)] z by simp
  have mp: "mset (map process_of xs) = mset (map process_of ys)" using m by simp
  have wf': "list_all ProcessMetrics_wf (map process_of ys)"
    using wf m by (metis list_all_iff list.set_map set_mset_mset)
  have wz: "ProcessMetrics_wf (process_of (RealtimeMetrics_zero :: 'f RealtimeMetrics))"
    by (simp add: z ProcessMetrics_wf_def)
  show "process_of q = process_of q'"
    using process.total_perm [OF mp wf] Merge_all_process_of [OF q(1) wz wf]
      Merge_all_process_of [OF q(2) wz wf'] z(2) by simp
qed

end
