(* ===== verification/Metrics_Properties.thy ===== *)
theory Metrics_Properties
  imports Realtime
begin

text \<open>
  The properties of the metrics components: time series, totals, the merge of drives, nodes and
  answers. Each property is followed by a concrete instance of it. The properties are stated over
  the definitions that model the source; their proofs are the library's lemmas.
\<close>

subsection \<open>Statistics for the instances\<close>

definition ex_api :: "i64 \<Rightarrow> int APIStats" where
  "ex_api n = APIStats_zero\<lparr>as_Nodes := 1, as_Requests := n\<rparr>"

definition ex_disk :: "u64 \<Rightarrow> int DiskAction" where
  "ex_disk n = DiskAction_zero\<lparr>da_Count := n, da_AccTime := 6, da_MinTime := 2, da_MaxTime := 4, da_Bytes := 100\<rparr>"

definition ex_series :: "i64 \<Rightarrow> gotime \<Rightarrow> 'a list \<Rightarrow> 'a Segmented" where
  "ex_series iv t xs = \<lparr>sg_Interval = iv, sg_FirstTime = t, sg_Segments = xs\<rparr>"

lemma ex_series_sel [simp]:
  "sg_Interval (ex_series iv t xs) = iv" "sg_FirstTime (ex_series iv t xs) = t" "sg_Segments (ex_series iv t xs) = xs"
  "seg_step (ex_series iv t xs) = sint iv * 1000000000"
  "seg_end (ex_series iv t xs) = t + int (length xs) * (sint iv * 1000000000)"
  by (simp_all add: ex_series_def seg_step_def seg_end_def)

lemma ex_wf [simp]:
  "APIStats_wf (ex_api 1)" "APIStats_wf (ex_api 2)" "APIStats_wf (ex_api 5)"
  "APIStats_untimed (ex_api 1)" "APIStats_untimed (ex_api 2)"
  "DiskAction_wf (ex_disk 3)" "DiskAction_wf (ex_disk 1)"
  by (simp_all add: ex_api_def ex_disk_def APIStats_wf_def APIStats_untimed_def DiskAction_wf_def)

subsection \<open>Time series\<close>

text \<open>
  C3. Merging two API series of one interval whose slots line up returns, and the result holds, at
  every point of the time line, the merge of what the two series hold there: no slot is lost,
  shifted or counted twice, whatever the two start times and lengths are.
\<close>

theorem API_series_pointwise:
  fixes s t :: "('f::{lattice,comm_monoid_add}) APIStats Segmented"
  assumes "mergeable s t" and "aligned s t"
    and "list_all APIStats_wf (sg_Segments s)" and "list_all APIStats_wf (sg_Segments t)"
  shows "\<exists>r. Segmented_Add (\<lambda>a b. APIStats_Add a (Some b)) APIStats_zero s (Some t) = Some r \<and>
    (\<forall>x. seg_at APIStats_zero r x = APIStats_Merge (seg_at APIStats_zero s x) (seg_at APIStats_zero t x))"
  using Segmented_Add_merged [OF assms(1), of APIStats_Merge APIStats_zero] api.seg_at_Add [OF assms]
  by (simp add: APIStats_Add_Some)

theorem API_series_pointwise_witness:
  "\<exists>r. Segmented_Add (\<lambda>a b. APIStats_Add a (Some b)) APIStats_zero
      (ex_series 900 0 [ex_api 1, ex_api 2]) (Some (ex_series 900 1800000000000 [ex_api 5])) = Some r \<and>
    (\<forall>x. seg_at APIStats_zero r x = APIStats_Merge
      (seg_at APIStats_zero (ex_series 900 0 [ex_api 1, ex_api 2]) x)
      (seg_at APIStats_zero (ex_series 900 1800000000000 [ex_api 5]) x))"
  by (rule API_series_pointwise) (simp_all add: mergeable_def aligned_def)



text \<open>
  C19. Any number of disk series of one interval whose time line fits a \<open>Duration\<close> can be merged one
  after the other without a panic, and the total of the result is the total of all their segments.
\<close>

theorem disk_series_total:
  fixes xs :: "('f::{lattice,comm_monoid_add}) DiskAction Segmented list"
  assumes "\<forall>x\<in>set xs. in_window iv lo hi x \<and> list_all DiskAction_wf (sg_Segments x)"
    and "0 < sint iv" and "hi - lo < 2 ^ 63"
    and "(\<Sum>x\<leftarrow>xs. \<Sum>a\<leftarrow>sg_Segments x. unat (da_Count a)) < 2 ^ 64"
  shows "\<exists>r. Segmented_Add_all DiskAction_Add DiskAction_zero xs Segmented_zero = Some r \<and>
    Segmented_Total DiskAction_Add DiskAction_zero (Some r) =
      add_all DiskAction_Add (concat (map sg_Segments xs)) DiskAction_zero"
  using disk.Segmented_Add_all_total [OF assms(1), of Segmented_zero] assms(2-)
  by (simp add: in_window_def Segmented_zero_def comp_def)

theorem disk_series_total_witness:
  "\<exists>r. Segmented_Add_all DiskAction_Add DiskAction_zero
      [ex_series 900 0 [ex_disk 3, ex_disk 1], ex_series 900 450 [ex_disk 3]] Segmented_zero = Some r \<and>
    Segmented_Total DiskAction_Add DiskAction_zero (Some r) =
      add_all DiskAction_Add [ex_disk 3, ex_disk 1, ex_disk 3] DiskAction_zero"
  using disk_series_total [of "[ex_series 900 0 [ex_disk 3, ex_disk 1], ex_series 900 450 [ex_disk 3]]"
      900 0 2000000000000]
  by (simp add: in_window_def ex_disk_def DiskAction_wf_def)

text \<open>
  Outside of that window the method can panic: for every interval that is a multiple of
  \<open>2 ^ 55\<close> seconds the step in nanoseconds wraps to zero, and merging two series that are not
  the same time line divides by it.
\<close>

theorem series_step_wraps:
  assumes "sg_Interval s = of_nat n * 2 ^ 55" and "sg_Interval s \<noteq> 0" and "sg_Interval t = sg_Interval s"
    and "sg_Segments s \<noteq> []" and "sg_Segments t \<noteq> []"
    and "sg_FirstTime s \<noteq> sg_FirstTime t \<or> length (sg_Segments s) \<noteq> length (sg_Segments t)"
  shows "Segmented_Add add z s (Some t) = None"
proof -
  have "sg_Interval s * 1000000000 = of_nat n * (2 ^ 55 * 1000000000)" by (simp only: assms(1) mult.assoc)
  also have "(2 ^ 55 * 1000000000 :: i64) = 0" by simp
  finally have "sg_Interval s * 1000000000 = 0" by simp
  then show ?thesis using assms(2-) by (auto simp: Segmented_Add_def)
qed

theorem series_step_wraps_witness:
  "Segmented_Add DiskIOStats_Add DiskIOStats_zero (ex_series (2 ^ 55) 0 [DiskIOStats_zero])
     (Some (ex_series (2 ^ 55) 1 [DiskIOStats_zero])) = None"
  by (rule series_step_wraps [where n = 1]) simp_all

subsection \<open>Totals\<close>








text \<open>
  The total of timed actions does not depend on their order: count, times, bytes, and the
  minimum and maximum, which ignore empty entries.
\<close>

theorem timed_actions_order:
  assumes "mset xs = mset ys" and "list_all TimedAction_wf xs" and "(\<Sum>a\<leftarrow>xs. unat (ta_Count a)) < 2 ^ 64"
  shows "add_all TimedAction_Merge xs TimedAction_zero = add_all TimedAction_Merge ys TimedAction_zero"
  by (rule timed.total_perm [OF assms])

theorem timed_actions_order_witness:
  "(let a = \<lparr>ta_Count = 2, ta_AccTime = 10, ta_MinTime = 3, ta_MaxTime = 7, ta_Bytes = 1\<rparr>;
        b = \<lparr>ta_Count = 1, ta_AccTime = 5, ta_MinTime = 5, ta_MaxTime = 5, ta_Bytes = 9\<rparr>
    in add_all TimedAction_Merge [a, TimedAction_zero, b] TimedAction_zero =
       add_all TimedAction_Merge [b, a, TimedAction_zero] TimedAction_zero)"
  unfolding Let_def by (rule timed_actions_order) (simp_all add: TimedAction_wf_def)

text \<open>
  What the replication targets did since the start adds up to the same total for every order
  of the target map.
\<close>

theorem all_targets_order:
  fixes m :: "('f::{lattice,comm_monoid_add}) ReplicationMetrics"
  assumes "gm_order (rpm_Targets m) ks" and "gm_order (rpm_Targets m) ks'"
    and "ReplicationMetrics_AllTargets m ks = Some r" and "ReplicationMetrics_AllTargets m ks' = Some r'"
    and "\<And>k v. gm_get (rpm_Targets m) k = Some v \<Longrightarrow> ReplicationStats_untimed (rt_SinceStart v)"
    and "(\<Sum>v\<leftarrow>gm_vals (rpm_Targets m) ks. nat (sint (rp_Nodes (rt_SinceStart v)))) < 2 ^ 63"
  shows "rt_SinceStart r = rt_SinceStart r'"
  by (rule AllTargets_order [OF assms])

definition ex_targets :: "int ReplicationMetrics" where
  "ex_targets = ReplicationMetrics_zero\<lparr>rpm_Targets := Some (fmap_of_list
     [(''a'', ReplicationTargetStats_zero\<lparr>rt_Nodes := 1, rt_SinceStart := ReplicationStats_zero\<lparr>rp_Nodes := 1, rp_Events := 2, rp_Bytes := 7\<rparr>\<rparr>),
      (''b'', ReplicationTargetStats_zero\<lparr>rt_Nodes := 1, rt_SinceStart := ReplicationStats_zero\<lparr>rp_Nodes := 1, rp_Events := 5\<rparr>\<rparr>)])\<rparr>"

lemma ex_targets_get:
  "gm_get (rpm_Targets ex_targets) k = (if k = ''a'' then Some (ReplicationTargetStats_zero\<lparr>rt_Nodes := 1,
      rt_SinceStart := ReplicationStats_zero\<lparr>rp_Nodes := 1, rp_Events := 2, rp_Bytes := 7\<rparr>\<rparr>)
    else if k = ''b'' then Some (ReplicationTargetStats_zero\<lparr>rt_Nodes := 1,
      rt_SinceStart := ReplicationStats_zero\<lparr>rp_Nodes := 1, rp_Events := 5\<rparr>\<rparr>) else None)"
  by (simp add: ex_targets_def ReplicationMetrics_zero_def gm_get_def fmlookup_of_list)

lemma ex_targets_sum:
  "\<exists>r. ReplicationMetrics_AllTargets ex_targets [''a'', ''b''] = Some r"
  "\<exists>r. ReplicationMetrics_AllTargets ex_targets [''b'', ''a''] = Some r"
  by (simp_all add: ReplicationMetrics_AllTargets_def ex_targets_get ReplicationTargetStats_Merge_def
    ReplicationTargetStats_zero_def)

theorem all_targets_order_witness:
  "\<exists>r r'. ReplicationMetrics_AllTargets ex_targets [''a'', ''b''] = Some r \<and>
    ReplicationMetrics_AllTargets ex_targets [''b'', ''a''] = Some r' \<and> rt_SinceStart r = rt_SinceStart r'"
proof -
  obtain r r' where r: "ReplicationMetrics_AllTargets ex_targets [''a'', ''b''] = Some r"
    "ReplicationMetrics_AllTargets ex_targets [''b'', ''a''] = Some r'"
    using ex_targets_sum by blast
  have "rt_SinceStart r = rt_SinceStart r'"
  proof (rule all_targets_order [OF _ _ r])
    show "ReplicationStats_untimed (rt_SinceStart v)" if "gm_get (rpm_Targets ex_targets) k = Some v" for k v
      using that by (auto simp: ex_targets_get ReplicationTargetStats_zero_def ReplicationStats_untimed_def
        ReplicationStats_wf_def split: if_splits)
  qed (auto simp: gm_order_def ex_targets_get ReplicationTargetStats_zero_def)
  then show ?thesis using r by blast
qed

subsection \<open>Drives\<close>

definition ex_drive :: "i64 option \<Rightarrow> u64 \<Rightarrow> int DiskMetric" where
  "ex_drive i n = DiskMetric_zero\<lparr>dm_NDisks := 1, dm_PoolIdx := Some 0, dm_SetIdx := Some 1, dm_DiskIdx := i,
     dm_LifetimeOps := Some (fmap_of_list [(''ReadAll'', ex_disk n), (''WriteAll'', ex_disk 1)])\<rparr>"

lemma ex_drive_sel [simp]:
  "dm_NDisks (ex_drive i n) = 1" "dm_PoolIdx (ex_drive i n) = Some 0" "dm_SetIdx (ex_drive i n) = Some 1"
  "dm_DiskIdx (ex_drive i n) = i" "dm_LastDaySegmented (ex_drive i n) = None"
  "dm_IOStatsDay (ex_drive i n) = Segmented_zero" "dm_Cache (ex_drive i n) = None"
  "gm_get (dm_LifetimeOps (ex_drive i n)) k = (if k = ''ReadAll'' then Some (ex_disk n)
     else if k = ''WriteAll'' then Some (ex_disk 1) else None)"
  by (simp_all add: ex_drive_def DiskMetric_zero_def gm_get_def fmlookup_of_list)

lemma ex_drive_fit:
  "segs_fit (dm_LastDaySegmented (ex_drive i n)) (dm_LastDaySegmented (ex_drive j m))"
  "in_window 900 0 1 (dm_IOStatsDay (ex_drive i n))"
  by (simp_all add: segs_fit_def gm_get_def in_window_def Segmented_zero_def)

lemma ex_drive_merge: obtains r where "DiskMetric_Merge (ex_drive i n) (Some (ex_drive j m)) = Some r"
  using DiskMetric_Merge_returns [OF ex_drive_fit(1) ex_drive_fit(2) ex_drive_fit(2), of i n j m] by blast

text \<open>
  C35. Merging drives whose series lie in common windows returns; the counts of drives add up, and
  an index survives exactly when both sides have it, agree on it and on all indices above it, so
  a merged metric never names a set or a drive that it does not describe.
\<close>

theorem disk_merge_indices:
  fixes d :: "('f::{plus,zero,inf,sup}) DiskMetric"
  assumes "dm_NDisks d \<noteq> 0" and "segs_fit (dm_LastDaySegmented d) (dm_LastDaySegmented other)"
    and "in_window iv lo hi (dm_IOStatsDay d)" and "in_window iv lo hi (dm_IOStatsDay other)"
  shows "\<exists>r. DiskMetric_Merge d (Some other) = Some r \<and> dm_NDisks r = dm_NDisks d + dm_NDisks other \<and>
    (\<forall>p. dm_PoolIdx r = Some p \<longleftrightarrow> dm_PoolIdx d = Some p \<and> dm_PoolIdx other = Some p) \<and>
    (\<forall>s. dm_SetIdx r = Some s \<longleftrightarrow> dm_PoolIdx r \<noteq> None \<and> dm_SetIdx d = Some s \<and> dm_SetIdx other = Some s) \<and>
    (\<forall>k. dm_DiskIdx r = Some k \<longleftrightarrow> dm_SetIdx r \<noteq> None \<and> dm_DiskIdx d = Some k \<and> dm_DiskIdx other = Some k)"
proof -
  obtain r where r: "DiskMetric_Merge d (Some other) = Some r"
    using DiskMetric_Merge_returns [OF assms(2-4)] by blast
  show ?thesis
    using DiskMetric_Merge_sel(1-4) [OF assms(1) r] r by auto
qed

theorem disk_merge_indices_witness:
  "\<exists>r. DiskMetric_Merge (ex_drive (Some 3) 3) (Some (ex_drive (Some 4) 3)) = Some r \<and>
    dm_NDisks r = 2 \<and> dm_SetIdx r = Some 1 \<and> dm_DiskIdx r = None"
proof -
  have n: "dm_NDisks (ex_drive (Some 3) 3) \<noteq> 0" by simp
  obtain r where r: "DiskMetric_Merge (ex_drive (Some 3) 3) (Some (ex_drive (Some 4) 3)) = Some r"
      "dm_NDisks r = dm_NDisks (ex_drive (Some 3) 3) + dm_NDisks (ex_drive (Some 4) 3)"
    and p: "\<forall>p. dm_PoolIdx r = Some p \<longleftrightarrow> dm_PoolIdx (ex_drive (Some 3) 3) = Some p \<and> dm_PoolIdx (ex_drive (Some 4) 3) = Some p"
    and s: "\<forall>s. dm_SetIdx r = Some s \<longleftrightarrow> dm_PoolIdx r \<noteq> None \<and> dm_SetIdx (ex_drive (Some 3) 3) = Some s \<and>
      dm_SetIdx (ex_drive (Some 4) 3) = Some s"
    and k: "\<forall>k. dm_DiskIdx r = Some k \<longleftrightarrow> dm_SetIdx r \<noteq> None \<and> dm_DiskIdx (ex_drive (Some 3) 3) = Some k \<and>
      dm_DiskIdx (ex_drive (Some 4) 3) = Some k"
    using disk_merge_indices [OF n ex_drive_fit(1) ex_drive_fit(2) ex_drive_fit(2), of "Some 4" 3] by blast
  have "dm_PoolIdx r = Some 0" using p by simp
  then have "dm_SetIdx r = Some 1" using s by simp
  moreover have "dm_DiskIdx r = None" proof (rule ccontr)
    assume "dm_DiskIdx r \<noteq> None"
    then obtain a where "dm_DiskIdx r = Some a" by blast
    then have "dm_DiskIdx (ex_drive (Some 3) 3) = Some a \<and> dm_DiskIdx (ex_drive (Some 4) 3) = Some a"
      using k by blast
    then show False by auto
  qed
  ultimately show ?thesis using r by simp
qed

text \<open>
  C21. The lifetime operations of merged drives are conserved: \<open>LifetimeTotal\<close> of the result is the
  sum of the two totals, in whatever order the three maps are walked.
\<close>

theorem disk_lifetime_conserved:
  fixes d :: "('f::{lattice,comm_monoid_add}) DiskMetric"
  assumes "DiskMetric_Merge d (Some other) = Some r" and "dm_NDisks d \<noteq> 0"
    and "gm_order (dm_LifetimeOps r) ks" and "gm_order (dm_LifetimeOps d) kd" and "gm_order (dm_LifetimeOps other) ko"
    and "\<And>k v. gm_get (dm_LifetimeOps d) k = Some v \<Longrightarrow> DiskAction_wf v"
    and "\<And>k v. gm_get (dm_LifetimeOps other) k = Some v \<Longrightarrow> DiskAction_wf v"
    and "(\<Sum>a\<leftarrow>gm_vals (dm_LifetimeOps d) kd. unat (da_Count a)) + (\<Sum>a\<leftarrow>gm_vals (dm_LifetimeOps other) ko. unat (da_Count a)) < 2 ^ 64"
  shows "DiskMetric_LifetimeTotal r ks = DiskAction_Add (DiskMetric_LifetimeTotal d kd) (DiskMetric_LifetimeTotal other ko)"
  by (rule DiskMetric_LifetimeTotal_Merge [OF assms])

lemma ex_drive_order:
  "gm_order (dm_LifetimeOps (ex_drive i n)) [''ReadAll'', ''WriteAll'']"
  "gm_order (dm_LifetimeOps (ex_drive i n)) [''WriteAll'', ''ReadAll'']"
  by (auto simp: gm_order_def)

lemma ex_drive_wf: "gm_get (dm_LifetimeOps (ex_drive i 3)) k = Some v \<Longrightarrow> DiskAction_wf v"
  by (auto split: if_splits)

lemma ex_drive_order_merged:
  assumes "DiskMetric_Merge (ex_drive None 3) (Some (ex_drive None 3)) = Some r"
  shows "gm_order (dm_LifetimeOps r) [''WriteAll'', ''ReadAll'']"
proof -
  have n: "dm_NDisks (ex_drive None 3) \<noteq> 0" by simp
  show ?thesis
    using gm_get_accum [OF DiskMetric_Merge_sel(8) [OF n assms]] unfolding gm_order_def by simp
qed

lemma ex_drive_weight:
  "(\<Sum>a\<leftarrow>gm_vals (dm_LifetimeOps (ex_drive None 3)) [''ReadAll'', ''WriteAll'']. unat (da_Count a)) = 4"
  "(\<Sum>a\<leftarrow>gm_vals (dm_LifetimeOps (ex_drive None 3)) [''WriteAll'', ''ReadAll'']. unat (da_Count a)) = 4"
  by (simp_all add: ex_disk_def)

theorem disk_lifetime_conserved_witness:
  "\<exists>r. DiskMetric_Merge (ex_drive None 3) (Some (ex_drive None 3)) = Some r \<and>
    DiskMetric_LifetimeTotal r [''WriteAll'', ''ReadAll''] =
      DiskAction_Add (DiskMetric_LifetimeTotal (ex_drive None 3) [''ReadAll'', ''WriteAll''])
        (DiskMetric_LifetimeTotal (ex_drive None 3) [''WriteAll'', ''ReadAll''])"
proof -
  obtain r where r: "DiskMetric_Merge (ex_drive None 3) (Some (ex_drive None 3)) = Some r" by (rule ex_drive_merge)
  have n: "dm_NDisks (ex_drive None 3) \<noteq> 0" by simp
  have "DiskMetric_LifetimeTotal r [''WriteAll'', ''ReadAll''] =
      DiskAction_Add (DiskMetric_LifetimeTotal (ex_drive None 3) [''ReadAll'', ''WriteAll''])
        (DiskMetric_LifetimeTotal (ex_drive None 3) [''WriteAll'', ''ReadAll''])"
  proof (rule disk_lifetime_conserved [OF r n ex_drive_order_merged [OF r] ex_drive_order(1) ex_drive_order(2)])
    show "DiskAction_wf v" if "gm_get (dm_LifetimeOps (ex_drive None 3)) k = Some v" for k v
      by (rule ex_drive_wf [OF that])
    show "DiskAction_wf v" if "gm_get (dm_LifetimeOps (ex_drive None 3)) k = Some v" for k v
      by (rule ex_drive_wf [OF that])
  qed (unfold ex_drive_weight, simp)
  then show ?thesis using r by blast
qed

text \<open>
  A drive without cache statistics that is merged with one that has them takes the other's
  pointer and then merges it into itself: the result counts them twice, and the argument that was
  only to be read has changed too.
\<close>

theorem disk_cache_doubled:
  assumes "dm_NDisks d \<noteq> 0" and "dm_Cache d = None" and "dm_Cache other = Some c"
    and "DiskMetric_Merge d (Some other) = Some r"
  shows "dm_Cache r = Some (CacheStats_Merge c c) \<and>
    dm_Cache (DiskMetric_Merge_arg d other) = Some (CacheStats_Merge c c)"
  by (rule DiskMetric_cache_doubled [OF assms])

theorem disk_cache_doubled_witness:
  "\<exists>c r. dm_Cache r = Some (CacheStats_Merge c c) \<and> cs_Hits c = 5 \<and> cs_Hits (CacheStats_Merge c c) = 10 \<and>
     DiskMetric_Merge (ex_drive None 3) (Some (ex_drive None 3\<lparr>dm_Cache := Some c\<rparr>)) = Some r"
proof -
  let ?c = "CacheStats_zero\<lparr>cs_Hits := 5\<rparr>" and ?d = "ex_drive None 3"
  have "segs_fit (dm_LastDaySegmented ?d) (dm_LastDaySegmented (?d\<lparr>dm_Cache := Some ?c\<rparr>))"
    "in_window 900 0 1 (dm_IOStatsDay (?d\<lparr>dm_Cache := Some ?c\<rparr>))"
    using ex_drive_fit(1) [of None 3 None 3] ex_drive_fit(2) [of None 3] by simp_all
  then obtain r where r: "DiskMetric_Merge ?d (Some (?d\<lparr>dm_Cache := Some ?c\<rparr>)) = Some r"
    using DiskMetric_Merge_returns ex_drive_fit(2) by blast
  have "dm_Cache r = Some (CacheStats_Merge ?c ?c)"
    using disk_cache_doubled [of ?d "?d\<lparr>dm_Cache := Some ?c\<rparr>" ?c r] r by simp
  moreover have "cs_Hits ?c = 5" "cs_Hits (CacheStats_Merge ?c ?c) = 10"
    by (simp_all add: CacheStats_Merge_def)
  ultimately show ?thesis using r by blast
qed

text \<open>
  Merging drive space into the zero value, the first step of every aggregation, loses the
  minimum: the zero of the receiver stays the minimum of each quantity, while totals and maxima
  are right. The method tests the count after it has added the other one.
\<close>

theorem space_first_merge:
  assumes "ds_N other \<noteq> 0"
  shows "tm_Min (ds_Free (DriveSpaceInfo_Merge DriveSpaceInfo_zero other)) = 0 \<and>
    tm_Min (ds_Used (DriveSpaceInfo_Merge DriveSpaceInfo_zero other)) = 0 \<and>
    tm_Max (ds_Free (DriveSpaceInfo_Merge DriveSpaceInfo_zero other)) = tm_Max (ds_Free other) \<and>
    tm_Total (ds_Free (DriveSpaceInfo_Merge DriveSpaceInfo_zero other)) = tm_Total (ds_Free other)"
  using assms by (simp add: DriveSpaceInfo_zero_def)

theorem space_first_merge_witness:
  "(let other = DriveSpaceInfo_zero\<lparr>ds_N := 1, ds_Free := \<lparr>tm_Total = 70, tm_Min = 70, tm_Max = 70\<rparr>\<rparr>;
        r = DriveSpaceInfo_Merge DriveSpaceInfo_zero other
    in tm_Min (ds_Free r) = 0 \<and> tm_Max (ds_Free r) = 70 \<and> tm_Total (ds_Free r) = 70)"
  using space_first_merge [of "DriveSpaceInfo_zero\<lparr>ds_N := 1, ds_Free := \<lparr>tm_Total = 70, tm_Min = 70, tm_Max = 70\<rparr>\<rparr>"]
  by (simp add: Let_def DriveSpaceInfo_zero_def)

subsection \<open>The metrics of a node\<close>

text \<open>
  C36. Merging runtime metrics panics exactly when some histogram of the argument has as many
  buckets as the receiver's histogram of that name, but more counts.
\<close>

theorem runtime_merge_panics:
  "RuntimeMetrics_Merge m (Some other) = None \<longleftrightarrow>
   (\<exists>k x v. gm_get (go_HistMetrics m) k = Some x \<and> gm_get (go_HistMetrics other) k = Some v \<and> lh_Buckets x \<noteq> [] \<and>
      length (lh_Buckets x) = length (lh_Buckets v) \<and> length (lh_Counts x) < length (lh_Counts v))"
  unfolding RuntimeMetrics_Merge_panics_iff hist_fit_def by (auto simp: not_le)

text \<open>
  The scanner's counters, active paths and excessive prefixes do not depend on the order of
  the merge.
\<close>

theorem scanner_merge_order:
  assumes "ScannerMetrics_Merge a (Some b) = Some r" and "ScannerMetrics_Merge b (Some a) = Some r'"
    and "sm_ExcessivePrefixes a \<noteq> []" and "sm_ExcessivePrefixes b \<noteq> []"
  shows "sm_CollectedAt r = sm_CollectedAt r' \<and> sm_ActivePaths r = sm_ActivePaths r' \<and>
    sm_ExcessivePrefixes r = sm_ExcessivePrefixes r' \<and>
    count_of (sm_LifeTimeOps r) k = count_of (sm_LifeTimeOps r') k \<and>
    count_of (sm_LifeTimeILM r) k = count_of (sm_LifeTimeILM r') k"
  by (rule ScannerMetrics_Merge_comm [OF assms])

theorem scanner_merge_order_witness:
  "\<exists>r r'. ScannerMetrics_Merge (ScannerMetrics_zero\<lparr>sm_ExcessivePrefixes := [''a'', ''b'']\<rparr>)
      (Some (ScannerMetrics_zero\<lparr>sm_ExcessivePrefixes := [''c'', ''a'']\<rparr>)) = Some r \<and>
    ScannerMetrics_Merge (ScannerMetrics_zero\<lparr>sm_ExcessivePrefixes := [''c'', ''a'']\<rparr>)
      (Some (ScannerMetrics_zero\<lparr>sm_ExcessivePrefixes := [''a'', ''b'']\<rparr>)) = Some r' \<and>
    sm_ExcessivePrefixes r = sm_ExcessivePrefixes r'"
proof -
  let ?a = "ScannerMetrics_zero\<lparr>sm_ExcessivePrefixes := [''a'', ''b'']\<rparr>"
  let ?b = "ScannerMetrics_zero\<lparr>sm_ExcessivePrefixes := [''c'', ''a'']\<rparr>"
  obtain r r' where "ScannerMetrics_Merge ?a (Some ?b) = Some r" "ScannerMetrics_Merge ?b (Some ?a) = Some r'"
    using ScannerMetrics_Merge_returns by metis
  then show ?thesis using scanner_merge_order [of ?a ?b r r'] by auto
qed

text \<open>
  Merging batch jobs keeps, for every job, the newest update; so three reports can be merged
  in either grouping.
\<close>

theorem batch_jobs_newest:
  assumes "BatchJobMetrics_Merge a (Some b) = Some ab" and "BatchJobMetrics_Merge ab (Some c) = Some l"
    and "BatchJobMetrics_Merge b (Some c) = Some bc" and "BatchJobMetrics_Merge a (Some bc) = Some r"
  shows "gm_get (bj_Jobs l) k = gm_get (bj_Jobs r) k \<and>
    (\<forall>x y z. gm_get (bj_Jobs a) k = Some x \<longrightarrow> gm_get (bj_Jobs b) k = Some y \<longrightarrow> gm_get (bj_Jobs ab) k = Some z \<longrightarrow>
      jm_LastUpdate z = max (jm_LastUpdate x) (jm_LastUpdate y))"
  using BatchJobMetrics_Merge_job [OF assms(1), of k] BatchJobMetrics_Merge_job [OF assms(2), of k]
    BatchJobMetrics_Merge_job [OF assms(3), of k] BatchJobMetrics_Merge_job [OF assms(4), of k]
  by (auto simp: latest_job_assoc) (auto simp: latest_job_def split: if_splits)

definition ex_jobs :: "gotime \<Rightarrow> BatchJobMetrics" where
  "ex_jobs t = BatchJobMetrics_zero\<lparr>bj_Jobs := Some (fmap_of_list [(''job'', \<lparr>jm_JobID = ''job'', jm_JobType = ''expire'',
     jm_StartTime = 0, jm_LastUpdate = t, jm_RetryAttempts = 0, jm_Complete = False, jm_Failed = False,
     jm_Status = [], jm_Replicate = None, jm_KeyRotate = None, jm_Expired = None, jm_Catalog = None\<rparr>)])\<rparr>"

theorem batch_jobs_newest_witness:
  "\<exists>ab l bc r. BatchJobMetrics_Merge (ex_jobs 1) (Some (ex_jobs 3)) = Some ab \<and>
    BatchJobMetrics_Merge ab (Some (ex_jobs 2)) = Some l \<and> BatchJobMetrics_Merge (ex_jobs 3) (Some (ex_jobs 2)) = Some bc \<and>
    BatchJobMetrics_Merge (ex_jobs 1) (Some bc) = Some r \<and> gm_get (bj_Jobs l) ''job'' = gm_get (bj_Jobs r) ''job''"
proof -
  obtain ab where ab: "BatchJobMetrics_Merge (ex_jobs 1) (Some (ex_jobs 3)) = Some ab"
    using BatchJobMetrics_Merge_returns by blast
  moreover obtain l where l: "BatchJobMetrics_Merge ab (Some (ex_jobs 2)) = Some l"
    using BatchJobMetrics_Merge_returns by blast
  moreover obtain bc where bc: "BatchJobMetrics_Merge (ex_jobs 3) (Some (ex_jobs 2)) = Some bc"
    using BatchJobMetrics_Merge_returns by blast
  moreover obtain r where r: "BatchJobMetrics_Merge (ex_jobs 1) (Some bc) = Some r"
    using BatchJobMetrics_Merge_returns by blast
  ultimately show ?thesis using batch_jobs_newest [OF ab l bc r, of "''job''"] by blast
qed

text \<open>
  The counters of a network interface are added up, but not the number \<open>N\<close> of merged
  interfaces: the result keeps the receiver's, zero for an interface that is new to it.
\<close>

theorem net_merge_drops_count:
  assumes "NetMetrics_Merge n (Some other) = Some r" and "gm_get (nm_Interfaces other) k = Some v"
  shows "\<exists>w. gm_get (nm_Interfaces r) k = Some w \<and>
    is_N w = (case gm_get (nm_Interfaces n) k of None \<Rightarrow> 0 | Some e \<Rightarrow> is_N e) \<and>
    nd_RxBytes (is_NetDevLine w) = (case gm_get (nm_Interfaces n) k of None \<Rightarrow> 0 | Some e \<Rightarrow> nd_RxBytes (is_NetDevLine e)) +
      nd_RxBytes (is_NetDevLine v)"
  using NetMetrics_Merge_interface [OF assms(1), of k] assms(2)
  by (auto simp: InterfaceStats_add_def InterfaceStats_zero_def procfsNetDevLine_add_def procfsNetDevLine_zero_def
    split: option.split)

definition ex_net :: NetMetrics where
  "ex_net = NetMetrics_zero\<lparr>nm_Interfaces := Some (fmap_of_list
     [(''eth0'', \<lparr>is_N = 4, is_NetDevLine = procfsNetDevLine_zero\<lparr>nd_RxBytes := 9\<rparr>\<rparr>)])\<rparr>"

theorem net_merge_drops_count_witness:
  "\<exists>r w. NetMetrics_Merge NetMetrics_zero (Some ex_net) = Some r \<and> gm_get (nm_Interfaces r) ''eth0'' = Some w \<and>
     is_N w = 0 \<and> nd_RxBytes (is_NetDevLine w) = 9"
proof -
  obtain r where r: "NetMetrics_Merge NetMetrics_zero (Some ex_net) = Some r"
    using NetMetrics_Merge_returns by blast
  have "gm_get (nm_Interfaces ex_net) ''eth0'' = Some \<lparr>is_N = 4, is_NetDevLine = procfsNetDevLine_zero\<lparr>nd_RxBytes := 9\<rparr>\<rparr>"
    by (simp add: ex_net_def gm_get_def fmlookup_of_list)
  from net_merge_drops_count [OF r this] r show ?thesis
    by (auto simp: NetMetrics_zero_def gm_get_def)
qed

text \<open>
  The minimum CPU frequency of merged nodes: the smaller one when both have reported a
  frequency; but a receiver that has merged a node without one keeps zero for ever, because only
  the count of reports, not the frequency, decides that it is unset.
\<close>

theorem cpu_min_frequency:
  assumes "CPUMetrics_Merge m (Some other) = Some r" and "cm_FreqStatsCount m \<noteq> 0"
  shows "cm_MinCPUInfoFreq r = (if cm_MinCPUInfoFreq m = 0 then 0
    else if cm_MinCPUInfoFreq other = 0 then cm_MinCPUInfoFreq m
    else min (cm_MinCPUInfoFreq m) (cm_MinCPUInfoFreq other))"
  using CPUMetrics_Merge_min [OF assms(1)] assms(2)
  by (auto simp: min_freq_def min_def word_neq_0_conv)

theorem cpu_min_frequency_witness:
  "\<exists>r. CPUMetrics_Merge (CPUMetrics_zero\<lparr>cm_FreqStatsCount := 1\<rparr> :: int CPUMetrics)
      (Some (CPUMetrics_zero\<lparr>cm_FreqStatsCount := 1, cm_MinCPUInfoFreq := 800\<rparr>)) = Some r \<and> cm_MinCPUInfoFreq r = 0"
proof -
  let ?m = "CPUMetrics_zero\<lparr>cm_FreqStatsCount := 1\<rparr> :: int CPUMetrics"
  obtain r where r: "CPUMetrics_Merge ?m (Some (CPUMetrics_zero\<lparr>cm_FreqStatsCount := 1, cm_MinCPUInfoFreq := 800\<rparr>)) = Some r"
    using CPUMetrics_Merge_returns by blast
  show ?thesis using cpu_min_frequency [OF r] r by (simp add: CPUMetrics_zero_def)
qed

end
