(* ===== verification/Estream_Wire.thy ===== *)
theory Estream_Wire
  imports Go_Base
begin

text \<open>
  The wire format of \<open>estream/\<close> (types.go) and the libraries it is built on. A stream is the
  version followed by blocks: an id (int8), the length of the content (uint32) and the
  content. MessagePack (tinylib/msgp), RSA and PKCS1 keys, the authenticated encryption
  (secure-io/sio-go) and the hash (xxhash) are not part of the repository: they are the
  fields of the records \<open>codec\<close> and \<open>crypto\<close>, arguments of every definition that uses them.
\<close>

type_synonym bytes = "byte list"

text \<open>
  Errors: \<open>io.EOF\<close>, \<open>io.ErrUnexpectedEOF\<close>, \<open>ErrNoKey\<close>, the errors the package makes itself with
  their text, an error message that was recorded on the stream, and the errors of a library.
\<close>

datatype err = EOF | UnexpectedEOF | ErrNoKey | ErrorText string | Recorded bytes | LibError nat

subsection \<open>Block ids and checksum types\<close>

type_synonym blockID = i8

definition blockPlainKey :: blockID where "blockPlainKey = 1"
definition blockEncryptedKey :: blockID where "blockEncryptedKey = 2"
definition blockEncStream :: blockID where "blockEncStream = 3"
definition blockPlainStream :: blockID where "blockPlainStream = 4"
definition blockDatablock :: blockID where "blockDatablock = 5"
definition blockEOS :: blockID where "blockEOS = 6"
definition blockEOF :: blockID where "blockEOF = 7"
definition blockError :: blockID where "blockError = 8"

lemmas block_ids = blockPlainKey_def blockEncryptedKey_def blockEncStream_def blockPlainStream_def
  blockDatablock_def blockEOS_def blockEOF_def blockError_def

type_synonym checksumType = byte

definition checksumTypeNone :: checksumType where "checksumTypeNone = 0"
definition checksumTypeXxhash :: checksumType where "checksumTypeXxhash = 1"
definition checksumTypeUnknown :: checksumType where "checksumTypeUnknown = 2"

definition checksumType_valid :: "checksumType \<Rightarrow> bool" where
  "checksumType_valid c \<longleftrightarrow> c \<ge> checksumTypeNone \<and> c < checksumTypeUnknown"

subsection \<open>The codec\<close>

text \<open>
  \<open>put_\<close> functions encode a value (\<open>Append...\<close> and \<open>Writer.Write...\<close>), \<open>get_\<close> functions are those of
  \<open>msgp.Reader\<close> on the rest of the input, \<open>cut_\<close> functions those on a slice (\<open>Read...Bytes\<close>).
\<close>

record codec =
  put_int8 :: "i8 \<Rightarrow> bytes"
  put_u32 :: "u32 \<Rightarrow> bytes"
  put_u8 :: "byte \<Rightarrow> bytes"
  put_bytes :: "bytes \<Rightarrow> bytes"
  put_str :: "bytes \<Rightarrow> bytes"
  get_int8 :: "bytes \<Rightarrow> err + i8 \<times> bytes"
  get_u32 :: "bytes \<Rightarrow> err + u32 \<times> bytes"
  get_bytes :: "bytes \<Rightarrow> err + bytes \<times> bytes"
  get_str :: "bytes \<Rightarrow> err + bytes \<times> bytes"
  cut_u8 :: "bytes \<Rightarrow> err + byte \<times> bytes"
  cut_bytes :: "bytes \<Rightarrow> err + bytes \<times> bytes"
  cut_str :: "bytes \<Rightarrow> err + bytes \<times> bytes"

text \<open>
  What the package relies on: decoding undoes encoding, for the lengths the format has room
  for; decoding takes bytes away; the encoding of bytes is not shorter than the bytes; an empty input is the end of the file.
\<close>

definition codec_ok :: "codec \<Rightarrow> bool" where
  "codec_ok c \<longleftrightarrow>
     (\<forall>x r. get_int8 c (put_int8 c x @ r) = Inr (x, r)) \<and>
     (\<forall>x r. get_u32 c (put_u32 c x @ r) = Inr (x, r)) \<and>
     (\<forall>x r. length x < 2 ^ 32 \<longrightarrow> get_bytes c (put_bytes c x @ r) = Inr (x, r)) \<and>
     (\<forall>x r. length x < 2 ^ 32 \<longrightarrow> get_str c (put_str c x @ r) = Inr (x, r)) \<and>
     (\<forall>x r. cut_u8 c (put_u8 c x @ r) = Inr (x, r)) \<and>
     (\<forall>x r. length x < 2 ^ 32 \<longrightarrow> cut_bytes c (put_bytes c x @ r) = Inr (x, r)) \<and>
     (\<forall>x r. length x < 2 ^ 32 \<longrightarrow> cut_str c (put_str c x @ r) = Inr (x, r)) \<and>
     (\<forall>b x r. get_int8 c b = Inr (x, r) \<longrightarrow> length r < length b) \<and>
     (\<forall>b x r. get_u32 c b = Inr (x, r) \<longrightarrow> length r \<le> length b) \<and>
     (\<forall>b x r. get_bytes c b = Inr (x, r) \<longrightarrow> length x + length r \<le> length b) \<and>
     (\<forall>b x r. get_str c b = Inr (x, r) \<longrightarrow> length r \<le> length b) \<and>
     (\<forall>x. length x \<le> length (put_bytes c x)) \<and>
     (\<forall>x. length x \<le> length (put_str c x)) \<and>
     get_int8 c [] = Inl EOF"

locale msgp =
  fixes c :: codec
  assumes ok: "codec_ok c"
begin

lemma get_put [simp]:
  "get_int8 c (put_int8 c x @ r) = Inr (x, r)"
  "get_u32 c (put_u32 c y @ r) = Inr (y, r)"
  "length s < 4294967296 \<Longrightarrow> get_bytes c (put_bytes c s @ r) = Inr (s, r)"
  "length s < 4294967296 \<Longrightarrow> get_str c (put_str c s @ r) = Inr (s, r)"
  "cut_u8 c (put_u8 c z @ r) = Inr (z, r)"
  "length s < 4294967296 \<Longrightarrow> cut_bytes c (put_bytes c s @ r) = Inr (s, r)"
  "length s < 4294967296 \<Longrightarrow> cut_str c (put_str c s @ r) = Inr (s, r)"
  using ok by (simp_all add: codec_ok_def)

lemma get_put_end [simp]:
  "length s < 4294967296 \<Longrightarrow> get_bytes c (put_bytes c s) = Inr (s, [])"
  "length s < 4294967296 \<Longrightarrow> cut_bytes c (put_bytes c s) = Inr (s, [])"
  "length s < 4294967296 \<Longrightarrow> cut_str c (put_str c s) = Inr (s, [])"
  "cut_u8 c (put_u8 c z) = Inr (z, [])"
  using get_put(3,6,7) [of s "[]"] get_put(5) [of z "[]"] by simp_all

lemma shrink:
  "get_int8 c b = Inr (x, r) \<Longrightarrow> length r < length b"
  "get_u32 c b = Inr (y, r) \<Longrightarrow> length r \<le> length b"
  "get_bytes c b = Inr (s, r) \<Longrightarrow> length r \<le> length b"
  "get_str c b = Inr (s, r) \<Longrightarrow> length r \<le> length b"
  "get_bytes c b = Inr (s, r) \<Longrightarrow> length s + length r \<le> length b"
proof -
  show "get_bytes c b = Inr (s, r) \<Longrightarrow> length s + length r \<le> length b"
    using ok unfolding codec_ok_def by blast
  then show "get_bytes c b = Inr (s, r) \<Longrightarrow> length r \<le> length b" by linarith
qed (use ok in \<open>unfold codec_ok_def, blast\<close>)+

lemma grow:
  "length (put_bytes c x) < n \<Longrightarrow> length x < n"
  "length (put_str c x) < n \<Longrightarrow> length x < n"
  using ok unfolding codec_ok_def by (meson le_less_trans)+

lemma get_empty [simp]: "get_int8 c [] = Inl EOF"
  using ok by (simp add: codec_ok_def)

end

subsection \<open>Cryptography\<close>

text \<open>
  \<open>rsa_enc seed pub m\<close> and \<open>rsa_dec priv m\<close> are \<open>EncryptOAEP\<close> (with the randomness it draws) and
  \<open>DecryptOAEP\<close>; \<open>sio_nonce key\<close> is \<open>AES_256_GCM.Stream(key)\<close> with the nonce size of the stream;
  \<open>es_init\<close>, \<open>es_write\<close> and \<open>es_close\<close> are \<open>EncryptWriter\<close> and its methods, returning what they write to
  the writer below; \<open>sio_open\<close> is all that a \<open>DecryptReader\<close> returns; \<open>xxsum\<close> is the digest.
\<close>

record ('pub, 'priv, 'es) crypto =
  parse_pub :: "bytes \<Rightarrow> err + 'pub"
  marshal_pub :: "'pub \<Rightarrow> bytes"
  rsa_enc :: "nat \<Rightarrow> 'pub \<Rightarrow> bytes \<Rightarrow> err + bytes"
  rsa_dec :: "'priv \<Rightarrow> bytes \<Rightarrow> err + bytes"
  sio_nonce :: "bytes \<Rightarrow> err + nat"
  es_init :: "bytes \<Rightarrow> bytes \<Rightarrow> 'es"
  es_write :: "'es \<Rightarrow> bytes \<Rightarrow> 'es \<times> bytes list"
  es_close :: "'es \<Rightarrow> bytes list"
  sio_open :: "bytes \<Rightarrow> bytes \<Rightarrow> bytes \<Rightarrow> err + bytes"
  xxsum :: "bytes \<Rightarrow> bytes"

subsection \<open>Reading bytes\<close>

text \<open>\<open>io.ReadFull(mr, block)\<close> for a block of \<open>n\<close> bytes, and \<open>io.CopyN(io.Discard, mr, n)\<close>.\<close>

definition ReadFull :: "nat \<Rightarrow> bytes \<Rightarrow> err + bytes \<times> bytes" where
  "ReadFull n b = (if n \<le> length b then Inr (take n b, drop n b)
     else if b = [] then Inl EOF else Inl UnexpectedEOF)"

definition Discard :: "nat \<Rightarrow> bytes \<Rightarrow> err + bytes" where
  "Discard n b = (if n \<le> length b then Inr (drop n b) else Inl EOF)"

lemma ReadFull_append [simp]: "ReadFull (length x) (x @ r) = Inr (x, r)"
  by (simp add: ReadFull_def)

lemma Discard_append [simp]: "Discard (length x) (x @ r) = Inr r"
  by (simp add: Discard_def)

lemma ReadFull_shrink: "ReadFull n b = Inr (x, r) \<Longrightarrow> length r \<le> length b"
  by (auto simp: ReadFull_def split: if_splits)

lemma Discard_shrink: "Discard n b = Inr r \<Longrightarrow> length r \<le> length b"
  by (auto simp: Discard_def split: if_splits)

text \<open>One block as it is on the stream.\<close>

definition wire :: "codec \<Rightarrow> blockID \<Rightarrow> bytes \<Rightarrow> bytes" where
  "wire c i content = put_int8 c i @ put_u32 c (of_nat (length content)) @ content"

end
