(* ===== verification/Estream_Reader.thy ===== *)
theory Estream_Reader
  imports Estream_Wire
begin

text \<open>
  \<open>estream/reader.go\<close>: the stream reader. The input is the list of bytes that are left; a
  loop over blocks is a recursion with fuel, which \<open>NextStream\<close>, \<open>skipDataBlocks\<close> and \<open>Read\<close>
  start with one more than the bytes that are left: every block takes at least one byte
  (\<open>codec_ok\<close>), so \<open>Diverged\<close> never is the result (\<open>NextStream_terminates\<close> and the lemmas
  beside it). A failed read of the codec leaves the input as it is (the library peeks before it
  takes bytes); a short read of a block's content takes all that is left.
\<close>

subsection \<open>State\<close>

record ('pub, 'priv) Reader =
  r_in :: bytes
  r_majorV :: byte
  r_minorV :: byte
  r_err :: "err option"
  r_inStream :: bool
  r_key :: "bytes option"
  r_private :: "'priv option"
  r_privateFn :: "('pub \<Rightarrow> 'priv option) option"
  r_skipEncrypted :: bool
  r_returnNonDec :: bool

definition NewReader :: "bytes \<Rightarrow> err + ('pub, 'priv) Reader" where
  "NewReader b = (case ReadFull 2 b of Inl e \<Rightarrow> Inl e
     | Inr (ver, rest) \<Rightarrow>
         if ver ! 0 \<noteq> 2 then Inl (ErrorText ''unknown stream version'')
         else Inr \<lparr>r_in = rest, r_majorV = ver ! 0, r_minorV = ver ! 1, r_err = None, r_inStream = False,
                   r_key = None, r_private = None, r_privateFn = None, r_skipEncrypted = False,
                   r_returnNonDec = False\<rparr>)"

definition SetPrivateKey :: "'priv option \<Rightarrow> ('pub, 'priv) Reader \<Rightarrow> ('pub, 'priv) Reader" where
  "SetPrivateKey k r = r\<lparr>r_privateFn := None, r_private := k\<rparr>"

definition PrivateKeyProvider :: "('pub \<Rightarrow> 'priv option) option \<Rightarrow> ('pub, 'priv) Reader \<Rightarrow> ('pub, 'priv) Reader" where
  "PrivateKeyProvider fn r = r\<lparr>r_privateFn := fn, r_private := None\<rparr>"

definition SkipEncrypted :: "bool \<Rightarrow> ('pub, 'priv) Reader \<Rightarrow> ('pub, 'priv) Reader" where
  "SkipEncrypted b r = r\<lparr>r_skipEncrypted := b\<rparr>"

definition ReturnNonDecryptable :: "bool \<Rightarrow> ('pub, 'priv) Reader \<Rightarrow> ('pub, 'priv) Reader" where
  "ReturnNonDecryptable b r = r\<lparr>r_returnNonDec := b\<rparr>"

text \<open>
  \<open>setErr\<close> with an error that is not nil. The assignment of \<open>ErrUnexpectedEOF\<close> is overwritten
  by the last one, as in the source.
\<close>

definition Reader_setErr :: "err \<Rightarrow> ('pub, 'priv) Reader \<Rightarrow> ('pub, 'priv) Reader \<times> err" where
  "Reader_setErr e r = (case r_err r of Some old \<Rightarrow> (r, old)
     | None \<Rightarrow>
         (let r = (if e = EOF then r\<lparr>r_err := Some UnexpectedEOF\<rparr> else r)
          in (r\<lparr>r_err := Some e\<rparr>, e)))"

subsection \<open>Streams\<close>

record streamReader =
  sr_h :: bytes
  sr_buf :: bytes
  sr_isEOF :: bool
  sr_check :: checksumType

definition newStreamReader :: "checksumType \<Rightarrow> ('pub, 'priv) Reader \<Rightarrow> streamReader \<times> ('pub, 'priv) Reader" where
  "newStreamReader ct r = (\<lparr>sr_h = [], sr_buf = [], sr_isEOF = False, sr_check = ct\<rparr>, r\<lparr>r_inStream := True\<rparr>)"

text \<open>The reader of a stream: the blocks themselves, the decryption of them, or nil.\<close>

datatype source = Plain streamReader | Decrypt bytes bytes streamReader | NoReader

record Stream =
  st_Reader :: source
  st_Name :: bytes
  st_Extra :: bytes
  st_SentEncrypted :: bool

subsection \<open>Reading blocks\<close>

text \<open>\<open>ReadInt8\<close> and \<open>ReadUint32\<close>: the header every loop starts with.\<close>

definition get_header :: "codec \<Rightarrow> bytes \<Rightarrow> err + blockID \<times> nat \<times> bytes" where
  "get_header c b = (case get_int8 c b of Inl e \<Rightarrow> Inl e
     | Inr (n, b) \<Rightarrow> (case get_u32 c b of Inl e \<Rightarrow> Inl e | Inr (sz, b) \<Rightarrow> Inr (n, unat sz, b)))"

text \<open>\<open>skipDataBlocks\<close>: the error is not recorded in the reader.\<close>

datatype ('pub, 'priv) skipped = SkipDiverged | Skipped "('pub, 'priv) Reader" "err option"

fun skip_loop :: "nat \<Rightarrow> codec \<Rightarrow> ('pub, 'priv) Reader \<Rightarrow> ('pub, 'priv) skipped" where
  "skip_loop 0 c r = SkipDiverged"
| "skip_loop (Suc fuel) c r = (case get_header c (r_in r) of Inl e \<Rightarrow> Skipped r (Some e)
     | Inr (n, sz, b) \<Rightarrow>
         if n = blockError then
           (case get_str c b of Inl e \<Rightarrow> Skipped (r\<lparr>r_in := b\<rparr>) (Some e)
            | Inr (msg, b) \<Rightarrow> Skipped (r\<lparr>r_in := b\<rparr>) (Some (Recorded msg)))
         else (case Discard sz b of Inl e \<Rightarrow> Skipped (r\<lparr>r_in := []\<rparr>) (Some e)
            | Inr b \<Rightarrow>
                (let r = r\<lparr>r_in := b\<rparr>
                 in if n = blockDatablock then skip_loop fuel c r
                 else if n = blockEOS then Skipped (r\<lparr>r_inStream := False\<rparr>) None
                 else if 0 \<le>s n then Skipped r (Some (ErrorText ''unknown block type''))
                 else skip_loop fuel c r)))"

definition skipDataBlocks :: "codec \<Rightarrow> ('pub, 'priv) Reader \<Rightarrow> ('pub, 'priv) skipped" where
  "skipDataBlocks c r = skip_loop (Suc (length (r_in r))) c r"

definition Skip :: "codec \<Rightarrow> Stream \<Rightarrow> ('pub, 'priv) Reader \<Rightarrow> Stream \<times> ('pub, 'priv) skipped" where
  "Skip c s r =
    (let s = (case st_Reader s of
           Plain sr \<Rightarrow> s\<lparr>st_Reader := Plain (sr\<lparr>sr_isEOF := True, sr_buf := []\<rparr>)\<rparr>
         | _ \<Rightarrow> s)
     in (s, skipDataBlocks c r))"

subsection \<open>NextStream\<close>

datatype ('pub, 'priv) next_result = Diverged | NextErr "('pub, 'priv) Reader" err
  | NextStream "('pub, 'priv) Reader" Stream | NextNoKey "('pub, 'priv) Reader" Stream

text \<open>Returning \<open>nil, r.setErr(err)\<close>.\<close>

definition fail :: "err \<Rightarrow> ('pub, 'priv) Reader \<Rightarrow> ('pub, 'priv) next_result" where
  "fail e r = (let (r, e) = Reader_setErr e r in NextErr r e)"

text \<open>The case of \<open>blockEncryptedKey\<close>: \<open>Inr\<close> goes on with the loop.\<close>

definition read_key :: "codec \<Rightarrow> ('pub, 'priv, 'es) crypto \<Rightarrow> bytes \<Rightarrow> ('pub, 'priv) Reader \<Rightarrow>
  ('pub, 'priv) next_result + ('pub, 'priv) Reader" where
  "read_key c cr block r = (case cut_bytes c block of Inl e \<Rightarrow> Inl (fail e r)
     | Inr (publicKey, block) \<Rightarrow>
         (let lenient = r_skipEncrypted r \<or> r_returnNonDec r;
              rest = (\<lambda>r. case cut_bytes c block of Inl e \<Rightarrow> Inl (fail e r)
                | Inr (cipherKey, _) \<Rightarrow> (case r_private r of
                    None \<Rightarrow> if lenient then Inr (r\<lparr>r_key := None\<rparr>)
                        else Inl (fail (ErrorText ''private key has not been set'') r)
                  | Some priv \<Rightarrow> (case rsa_dec cr priv cipherKey of
                      Inl e \<Rightarrow> if r_returnNonDec r then Inr (r\<lparr>r_key := None\<rparr>) else Inl (NextErr r e)
                    | Inr key \<Rightarrow> if length key \<noteq> 32 then Inl (fail (ErrorText ''unexpected key length'') r)
                        else Inr (r\<lparr>r_key := Some key\<rparr>))))
          in case r_privateFn r of None \<Rightarrow> rest r
             | Some fn \<Rightarrow> (case parse_pub cr publicKey of Inl e \<Rightarrow> Inl (fail e r)
                 | Inr pk \<Rightarrow>
                     (let r = r\<lparr>r_private := fn pk\<rparr>
                      in if r_private r = None then
                           (if lenient then Inr (r\<lparr>r_key := None\<rparr>)
                            else Inl (fail (ErrorText ''nil private key returned'') r))
                         else rest r))))"

text \<open>The case of the two stream blocks.\<close>

definition open_stream :: "codec \<Rightarrow> ('pub, 'priv, 'es) crypto \<Rightarrow> blockID \<Rightarrow> bytes \<Rightarrow> ('pub, 'priv) Reader \<Rightarrow>
  ('pub, 'priv) next_result + ('pub, 'priv) Reader" where
  "open_stream c cr n block r = (case cut_str c block of Inl e \<Rightarrow> Inl (fail e r)
     | Inr (name, block) \<Rightarrow> (case cut_bytes c block of Inl e \<Rightarrow> Inl (fail e r)
     | Inr (extra, block) \<Rightarrow> (case cut_u8 c block of Inl e \<Rightarrow> Inl (fail e r)
     | Inr (checksum, block) \<Rightarrow>
         if \<not> checksumType_valid checksum then Inl (fail (ErrorText ''unknown checksum type'') r)
         else if n = blockPlainStream then
           (let (sr, r) = newStreamReader checksum r
            in Inl (NextStream r \<lparr>st_Reader = Plain sr, st_Name = name, st_Extra = extra,
                                  st_SentEncrypted = False\<rparr>))
         else (case r_key r of
             None \<Rightarrow>
               if r_skipEncrypted r then
                 (case skipDataBlocks c r of SkipDiverged \<Rightarrow> Inl Diverged
                  | Skipped r (Some e) \<Rightarrow> Inl (fail e r)
                  | Skipped r None \<Rightarrow> Inr r)
               else Inl (NextNoKey r \<lparr>st_Reader = NoReader, st_Name = name, st_Extra = extra,
                                      st_SentEncrypted = True\<rparr>)
           | Some key \<Rightarrow> (case cut_bytes c block of Inl e \<Rightarrow> Inl (fail e r)
             | Inr (nonce, _) \<Rightarrow> (case sio_nonce cr key of Inl e \<Rightarrow> Inl (fail e r)
             | Inr nonceSize \<Rightarrow>
                 if length nonce \<noteq> nonceSize then Inl (fail (ErrorText ''unexpected nonce length'') r)
                 else
                   (let (sr, r) = newStreamReader checksum r
                    in Inl (NextStream r \<lparr>st_Reader = Decrypt key nonce sr, st_Name = name,
                                          st_Extra = extra, st_SentEncrypted = True\<rparr>))))))))"

text \<open>One block: the \<open>switch\<close> of the loop.\<close>

definition next_block :: "codec \<Rightarrow> ('pub, 'priv, 'es) crypto \<Rightarrow> blockID \<Rightarrow> bytes \<Rightarrow> ('pub, 'priv) Reader \<Rightarrow>
  ('pub, 'priv) next_result + ('pub, 'priv) Reader" where
  "next_block c cr n block r =
    (if n = blockPlainKey then
       (case cut_bytes c block of Inl e \<Rightarrow> Inl (fail e r)
        | Inr (key, _) \<Rightarrow> if length key \<noteq> 32 then Inl (fail (ErrorText ''unexpected key length'') r)
            else Inr (r\<lparr>r_key := Some key\<rparr>))
     else if n = blockEncryptedKey then read_key c cr block r
     else if n = blockPlainStream \<or> n = blockEncStream then open_stream c cr n block r
     else if n = blockEOS then Inl (NextErr r (ErrorText ''end-of-stream without being in stream''))
     else if n = blockEOF then Inl (NextErr r EOF)
     else if n = blockError then
       (case cut_str c block of Inl e \<Rightarrow> Inl (fail e r) | Inr (msg, _) \<Rightarrow> Inl (fail (Recorded msg) r))
     else if 0 \<le>s n then Inl (NextErr r (ErrorText ''unknown block type''))
     else Inr r)"

fun next_loop :: "nat \<Rightarrow> codec \<Rightarrow> ('pub, 'priv, 'es) crypto \<Rightarrow> ('pub, 'priv) Reader \<Rightarrow> ('pub, 'priv) next_result" where
  "next_loop 0 c cr r = Diverged"
| "next_loop (Suc fuel) c cr r = (case get_header c (r_in r) of Inl e \<Rightarrow> fail e r
     | Inr (n, sz, b) \<Rightarrow> (case ReadFull sz b of Inl e \<Rightarrow> fail e (r\<lparr>r_in := []\<rparr>)
       | Inr (block, b) \<Rightarrow> (case next_block c cr n block (r\<lparr>r_in := b\<rparr>) of
           Inl res \<Rightarrow> res | Inr r \<Rightarrow> next_loop fuel c cr r)))"

definition Reader_NextStream :: "codec \<Rightarrow> ('pub, 'priv, 'es) crypto \<Rightarrow> ('pub, 'priv) Reader \<Rightarrow> ('pub, 'priv) next_result" where
  "Reader_NextStream c cr r = (case r_err r of Some e \<Rightarrow> NextErr r e
     | None \<Rightarrow> if r_inStream r then NextErr r (ErrorText ''previous stream not read until EOF'')
         else next_loop (Suc (length (r_in r))) c cr r)"

subsection \<open>Reading a stream\<close>

text \<open>
  \<open>Read\<close> into a buffer of \<open>len\<close> bytes: the bytes it returns and its error. An error of the reader
  that was set earlier is returned with them (\<open>r.up.setErr(nil)\<close>).
\<close>

datatype ('pub, 'priv) read_result = ReadDiverged | Read streamReader "('pub, 'priv) Reader" bytes "err option"

definition read_fail :: "err \<Rightarrow> streamReader \<Rightarrow> ('pub, 'priv) Reader \<Rightarrow> ('pub, 'priv) read_result" where
  "read_fail e sr r = (let (r, e) = Reader_setErr e r in Read sr r [] (Some e))"

fun read_loop :: "nat \<Rightarrow> codec \<Rightarrow> ('pub, 'priv, 'es) crypto \<Rightarrow> nat \<Rightarrow> streamReader \<Rightarrow> ('pub, 'priv) Reader \<Rightarrow>
  ('pub, 'priv) read_result" where
  "read_loop 0 c cr len sr r = ReadDiverged"
| "read_loop (Suc fuel) c cr len sr r =
    (if sr_buf sr \<noteq> [] then Read (sr\<lparr>sr_buf := drop len (sr_buf sr)\<rparr>) r (take len (sr_buf sr)) (r_err r)
     else (case get_header c (r_in r) of Inl e \<Rightarrow> read_fail e sr r
       | Inr (n, sz, b) \<Rightarrow>
           (let r = r\<lparr>r_in := b\<rparr>
            in if n = blockDatablock then
              (case get_bytes c b of Inl e \<Rightarrow> read_fail e sr r
               | Inr (buf, b) \<Rightarrow>
                   (let sr = (if sr_check sr = checksumTypeXxhash then sr\<lparr>sr_h := sr_h sr @ buf\<rparr> else sr)
                    in read_loop fuel c cr len (sr\<lparr>sr_buf := buf\<rparr>) (r\<lparr>r_in := b\<rparr>)))
            else if n = blockEOS then
              (case get_bytes c b of Inl e \<Rightarrow> read_fail e sr r
               | Inr (hash, b) \<Rightarrow>
                   (let r = r\<lparr>r_in := b\<rparr>
                    in if sr_check sr = checksumTypeXxhash \<and> hash \<noteq> xxsum cr (sr_h sr)
                       then read_fail (ErrorText ''checksum mismatch'') sr r
                       else if sr_check sr \<noteq> checksumTypeXxhash \<and> sr_check sr \<noteq> checksumTypeNone
                       then read_fail (ErrorText ''unknown checksum id'') sr r
                       else Read (sr\<lparr>sr_isEOF := True\<rparr>) (r\<lparr>r_inStream := False\<rparr>) [] (Some EOF)))
            else if n = blockError then
              (case get_str c b of Inl e \<Rightarrow> read_fail e sr r
               | Inr (msg, b) \<Rightarrow> read_fail (Recorded msg) sr (r\<lparr>r_in := b\<rparr>))
            else if 0 \<le>s n then Read sr r [] (Some (ErrorText ''unexpected block type''))
            else (case Discard sz b of Inl e \<Rightarrow> read_fail e sr (r\<lparr>r_in := []\<rparr>)
               | Inr b \<Rightarrow> read_loop fuel c cr len sr (r\<lparr>r_in := b\<rparr>)))))"

definition streamReader_Read :: "codec \<Rightarrow> ('pub, 'priv, 'es) crypto \<Rightarrow> nat \<Rightarrow> streamReader \<Rightarrow> ('pub, 'priv) Reader \<Rightarrow>
  ('pub, 'priv) read_result" where
  "streamReader_Read c cr len sr r =
    (if sr_isEOF sr then Read sr r [] (Some EOF)
     else (case r_err r of Some e \<Rightarrow> Read sr r [] (Some e)
       | None \<Rightarrow> read_loop (length (r_in r) + 2) c cr len sr r))"

subsection \<open>Every call returns\<close>

lemma get_header_shrink:
  assumes "codec_ok c" and "get_header c b = Inr (n, sz, b')"
  shows "length b' < length b"
proof -
  note s = msgp.shrink [OF msgp.intro [OF assms(1)]]
  obtain m where "get_int8 c b = Inr (n, m)" and "\<exists>z. get_u32 c m = Inr (z, b')"
    using assms(2) by (auto simp: get_header_def split: sum.splits prod.splits)
  then show ?thesis using s(1) s(2) by fastforce
qed


lemma skip_loop_returns:
  assumes "codec_ok c"
  shows "length (r_in r) < fuel \<Longrightarrow>
    \<exists>r' e. skip_loop fuel c r = Skipped r' e \<and> length (r_in r') \<le> length (r_in r)"
proof (induction fuel arbitrary: r)
  case (Suc fuel)
  note s = msgp.shrink [OF msgp.intro [OF assms]]
  show ?case
  proof (cases "get_header c (r_in r)")
    case (Inr h)
    obtain n sz b where h: "h = (n, sz, b)" by (cases h)
    have b: "length b < length (r_in r)" using get_header_shrink [OF assms] Inr h by blast
    show ?thesis
    proof (cases "n = blockError")
      case True
      show ?thesis
      proof (cases "get_str c b")
        case (Inl e)
        then show ?thesis using \<open>get_header c (r_in r) = Inr h\<close> h b True by simp
      next
        case (Inr p)
        obtain msg b' where p: "p = (msg, b')" by (cases p)
        then have "length b' \<le> length b" using s(4) Inr by blast
        then show ?thesis using \<open>get_header c (r_in r) = Inr h\<close> h b True Inr p by simp
      qed
    next
      case False
      show ?thesis
      proof (cases "Discard sz b")
        case (Inl e)
        then show ?thesis using \<open>get_header c (r_in r) = Inr h\<close> h b False by simp
      next
        case (Inr b')
        then have b': "length b' < length (r_in r)" using b Discard_shrink by fastforce
        have "\<exists>r' e. skip_loop fuel c (r\<lparr>r_in := b'\<rparr>) = Skipped r' e \<and> length (r_in r') \<le> length b'"
          using Suc.IH [of "r\<lparr>r_in := b'\<rparr>"] Suc.prems b' by simp
        then show ?thesis
          using \<open>get_header c (r_in r) = Inr h\<close> h b' False Inr by (auto simp: Let_def)
      qed
    qed
  qed simp
qed simp

lemma skipDataBlocks_returns:
  "codec_ok c \<Longrightarrow> \<exists>r' e. skipDataBlocks c r = Skipped r' e \<and> length (r_in r') \<le> length (r_in r)"
  unfolding skipDataBlocks_def by (rule skip_loop_returns) simp_all

lemma fail_not_Diverged [simp]: "fail e r \<noteq> Diverged"
  by (simp add: fail_def split: prod.split)

lemma read_key_returns:
  "read_key c cr block r \<noteq> Inl Diverged"
  "read_key c cr block r = Inr r' \<Longrightarrow> r_in r' = r_in r"
  by (auto simp: read_key_def Let_def split: sum.splits option.splits if_splits)

lemma open_stream_returns:
  assumes "codec_ok c"
  shows "open_stream c cr n block r \<noteq> Inl Diverged"
    and "open_stream c cr n block r = Inr r' \<Longrightarrow> length (r_in r') \<le> length (r_in r)"
proof -
  obtain q e where q: "skipDataBlocks c r = Skipped q e" "length (r_in q) \<le> length (r_in r)"
    using skipDataBlocks_returns [OF assms] by blast
  show "open_stream c cr n block r \<noteq> Inl Diverged"
    using q(1) by (auto simp: open_stream_def Let_def newStreamReader_def split: sum.splits option.splits if_splits)
  show "open_stream c cr n block r = Inr r' \<Longrightarrow> length (r_in r') \<le> length (r_in r)"
    using q by (auto simp: open_stream_def Let_def newStreamReader_def split: sum.splits option.splits if_splits)
qed

lemma next_block_returns:
  assumes "codec_ok c"
  shows "next_block c cr n block r \<noteq> Inl Diverged"
    and "next_block c cr n block r = Inr r' \<Longrightarrow> length (r_in r') \<le> length (r_in r)"
proof -
  show "next_block c cr n block r \<noteq> Inl Diverged"
    using open_stream_returns(1) [OF assms, of cr n block r] read_key_returns(1) [of c cr block r]
    by (simp add: next_block_def split: sum.split)
  assume n: "next_block c cr n block r = Inr r'"
  consider "n = blockPlainKey" | "n = blockEncryptedKey" | "n = blockPlainStream \<or> n = blockEncStream"
    | "n \<noteq> blockPlainKey" "n \<noteq> blockEncryptedKey" "n \<noteq> blockPlainStream" "n \<noteq> blockEncStream" by blast
  then show "length (r_in r') \<le> length (r_in r)"
  proof cases
    case 2
    then show ?thesis
      using n read_key_returns(2) [of c cr block r r'] by (simp add: next_block_def block_ids)
  next
    case 3
    then show ?thesis
      using n open_stream_returns(2) [OF assms, of cr n block r r']
      by (auto simp: next_block_def block_ids split: if_splits)
  qed (use n in \<open>auto simp: next_block_def split: sum.splits if_splits\<close>)
qed

lemma next_loop_returns:
  assumes "codec_ok c"
  shows "length (r_in r) < fuel \<Longrightarrow> next_loop fuel c cr r \<noteq> Diverged"
proof (induction fuel arbitrary: r)
  case (Suc fuel)
  show ?case
  proof (cases "get_header c (r_in r)")
    case (Inr h)
    obtain n sz b where h: "h = (n, sz, b)" by (cases h)
    have b: "length b < length (r_in r)" using get_header_shrink [OF assms] Inr h by blast
    show ?thesis
    proof (cases "ReadFull sz b")
      case (Inr p)
      obtain block b' where p: "p = (block, b')" by (cases p)
      have b': "length b' \<le> length b" using ReadFull_shrink Inr p by blast
      show ?thesis
      proof (cases "next_block c cr n block (r\<lparr>r_in := b'\<rparr>)")
        case (Inl res)
        then show ?thesis
          using \<open>get_header c (r_in r) = Inr h\<close> h Inr p next_block_returns(1) [OF assms, of cr n block] by auto
      next
        case (Inr r')
        then have "length (r_in r') < fuel"
          using next_block_returns(2) [OF assms Inr] b b' Suc.prems by simp
        then show ?thesis
          using Suc.IH \<open>get_header c (r_in r) = Inr h\<close> h \<open>ReadFull sz b = Inr p\<close> p Inr by simp
      qed
    qed (use Inr h in simp)
  qed simp
qed simp

lemma NextStream_terminates: "codec_ok c \<Longrightarrow> Reader_NextStream c cr r \<noteq> Diverged"
  using next_loop_returns [of c r "Suc (length (r_in r))" cr]
  by (simp add: Reader_NextStream_def del: next_loop.simps split: option.split)

text \<open>More fuel does not change a result.\<close>

lemma next_loop_fuel:
  assumes "codec_ok c"
  shows "length (r_in r) < f \<Longrightarrow> length (r_in r) < g \<Longrightarrow> next_loop f c cr r = next_loop g c cr r"
proof (induction f arbitrary: g r)
  case (Suc f)
  obtain g' where g: "g = Suc g'" using Suc.prems by (cases g) auto
  show ?case
  proof (cases "get_header c (r_in r)")
    case (Inr h)
    obtain n sz b where h: "h = (n, sz, b)" by (cases h)
    have b: "length b < length (r_in r)" using get_header_shrink [OF assms] Inr h by blast
    have "next_loop f c cr r' = next_loop g' c cr r'"
      if "ReadFull sz b = Inr (block, b')" "next_block c cr n block (r\<lparr>r_in := b'\<rparr>) = Inr r'" for block b' r'
      using that next_block_returns(2) [OF assms that(2)] ReadFull_shrink [OF that(1)] b Suc.prems g
      by (intro Suc.IH) auto
    then show ?thesis by (auto simp: g Inr h split: sum.split)
  qed (simp add: g)
qed simp

lemma read_fail_not_Diverged [simp]: "read_fail e sr r \<noteq> ReadDiverged"
  by (simp add: read_fail_def split: prod.split)

text \<open>The two recursive calls of \<open>read_loop\<close> are on a shorter input.\<close>

lemma read_loop_returns:
  assumes "codec_ok c"
  shows "length (r_in r) < fuel \<Longrightarrow> read_loop fuel c cr len sr r \<noteq> ReadDiverged"
proof (induction fuel arbitrary: sr r)
  case (Suc fuel)
  note s = msgp.shrink [OF msgp.intro [OF assms]]
  show ?case
  proof (cases "sr_buf sr \<noteq> []")
    case False
    show ?thesis
    proof (cases "get_header c (r_in r)")
      case (Inr h)
      obtain n sz b where h: "h = (n, sz, b)" by (cases h)
      have b: "length b < length (r_in r)" using get_header_shrink [OF assms] Inr h by blast
      have "read_loop fuel c cr len sr' (r\<lparr>r_in := b'\<rparr>) \<noteq> ReadDiverged" if "length b' \<le> length b" for sr' b'
        using Suc.IH [of "r\<lparr>r_in := b'\<rparr>" sr'] that b Suc.prems by simp
      then show ?thesis
        using Inr h False s(3) [of b] Discard_shrink [of sz b]
        by (auto simp: Let_def split: sum.split prod.split)
    qed (use False in simp)
  qed simp
qed simp

lemma Read_terminates: "codec_ok c \<Longrightarrow> streamReader_Read c cr len sr r \<noteq> ReadDiverged"
  using read_loop_returns [of c r "length (r_in r) + 2" cr len sr]
  by (simp add: streamReader_Read_def del: read_loop.simps split: option.split)

text \<open>A call of \<open>Read\<close> that returns without an error has taken bytes out of the buffer or the input.\<close>

lemma read_fail_in: "read_fail e sr r = Read sr' r' out e' \<Longrightarrow> r_in r' = r_in r \<and> e' \<noteq> None"
  by (cases "r_err r") (auto simp: read_fail_def Reader_setErr_def Let_def dest: sym [of "Some _"] split: if_splits)

lemma read_loop_progress:
  assumes "codec_ok c" and "0 < len"
  shows "read_loop fuel c cr len sr r = Read sr' r' out e \<Longrightarrow> length (r_in r') \<le> length (r_in r) \<and>
    (e = None \<longrightarrow> length (sr_buf sr') + length (r_in r') < length (sr_buf sr) + length (r_in r))"
proof (induction fuel arbitrary: sr r)
  case (Suc fuel)
  note s = msgp.shrink [OF msgp.intro [OF assms(1)]]
  show ?case
  proof (cases "sr_buf sr = []")
    case False
    then have "0 < length (sr_buf sr)" by simp
    then show ?thesis using Suc.prems assms(2) False by auto
  next
    case buf: True
    show ?thesis
    proof (cases "get_header c (r_in r)")
      case (Inl e')
      then show ?thesis using Suc.prems buf by (auto dest: read_fail_in)
    next
      case (Inr h)
      obtain n sz b where h: "get_header c (r_in r) = Inr (n, sz, b)" using Inr by (cases h) auto
      have b: "length b < length (r_in r)" using get_header_shrink [OF assms(1) h] .
      have ih: "length (r_in r') \<le> length b' \<and>
          (e = None \<longrightarrow> length (sr_buf sr') + length (r_in r') < length (sr_buf q) + length b')"
        if "read_loop fuel c cr len q (r\<lparr>r_in := b'\<rparr>) = Read sr' r' out e" for q b'
        using Suc.IH [OF that] by simp
      consider "n = blockDatablock" | "n = blockEOS" | "n = blockError"
        | "n \<noteq> blockDatablock" "n \<noteq> blockEOS" "n \<noteq> blockError" by blast
      then show ?thesis
      proof cases
        case 1
        then show ?thesis
          using Suc.prems buf h b s(5) [of b]
          by (auto simp: Let_def split: sum.splits dest!: read_fail_in ih)
      next
        case 2
        then show ?thesis
          using Suc.prems buf h b s(3) [of b]
          by (auto simp: Let_def block_ids split: sum.splits if_splits dest!: read_fail_in)
      next
        case 3
        then show ?thesis
          using Suc.prems buf h b s(4) [of b]
          by (auto simp: Let_def block_ids split: sum.splits dest!: read_fail_in)
      next
        case 4
        then show ?thesis
          using Suc.prems buf h b Discard_shrink [of sz b]
          by (auto simp: Let_def split: sum.splits if_splits dest!: read_fail_in ih)
      qed
    qed
  qed
qed simp

lemma Read_progress:
  "codec_ok c \<Longrightarrow> 0 < len \<Longrightarrow> streamReader_Read c cr len sr r = Read sr' r' out e \<Longrightarrow>
   length (r_in r') \<le> length (r_in r) \<and>
   (e = None \<longrightarrow> length (sr_buf sr') + length (r_in r') < length (sr_buf sr) + length (r_in r))"
  using read_loop_progress [of c len "length (r_in r) + 2" cr sr r sr' r' out e]
  by (cases "r_err r") (auto simp: streamReader_Read_def dest: sym [of "Some _"] simp del: read_loop.simps split: if_splits)

lemma read_loop_fuel:
  assumes "codec_ok c"
  shows "length (r_in r) < f \<Longrightarrow> length (r_in r) < g \<Longrightarrow>
    read_loop f c cr len sr r = read_loop g c cr len sr r"
proof (induction f arbitrary: g sr r)
  case (Suc f)
  note s = msgp.shrink [OF msgp.intro [OF assms]]
  obtain g' where g: "g = Suc g'" using Suc.prems by (cases g) auto
  show ?case
  proof (cases "sr_buf sr \<noteq> []")
    case False
    show ?thesis
    proof (cases "get_header c (r_in r)")
      case (Inr h)
      obtain n sz b where h: "h = (n, sz, b)" by (cases h)
      have b: "length b < length (r_in r)" using get_header_shrink [OF assms] Inr h by blast
      have "read_loop f c cr len sr' (r\<lparr>r_in := b'\<rparr>) = read_loop g' c cr len sr' (r\<lparr>r_in := b'\<rparr>)"
        if "length b' \<le> length b" for sr' b'
        using Suc.IH [of "r\<lparr>r_in := b'\<rparr>" g' sr'] that b Suc.prems g by simp
      then show ?thesis
        using Inr h False s(3) [of b] Discard_shrink [of sz b]
        by (auto simp: g Let_def split: sum.split prod.split)
    qed (use False g in simp)
  qed (simp add: g)
qed simp

subsection \<open>Errors stay\<close>

text \<open>Once an error is recorded, every call returns it and changes nothing.\<close>

lemma NextStream_sticky: "r_err r = Some e \<Longrightarrow> Reader_NextStream c cr r = NextErr r e"
  by (simp add: Reader_NextStream_def)

lemma Read_sticky: "r_err r = Some e \<Longrightarrow> \<not> sr_isEOF sr \<Longrightarrow> streamReader_Read c cr len sr r = Read sr r [] (Some e)"
  by (simp add: streamReader_Read_def)

lemma Reader_setErr_sets: "r_err (fst (Reader_setErr e r)) = Some (snd (Reader_setErr e r))"
  by (auto simp: Reader_setErr_def Let_def split: option.split)

subsection \<open>Blocks that were written\<close>

context msgp
begin

lemma get_header_wire:
  "length content < 4294967296 \<Longrightarrow> get_header c (wire c i content @ rest) = Inr (i, length content, content @ rest)"
  by (simp add: get_header_def wire_def unat_of_nat)

lemma next_loop_wire:
  assumes "length content < 4294967296" and "length (r_in r) < fuel"
    and "r_in r = wire c i content @ rest"
  shows "next_loop fuel c cr r = (case next_block c cr i content (r\<lparr>r_in := rest\<rparr>) of
    Inl res \<Rightarrow> res | Inr r' \<Rightarrow> next_loop (Suc (length (r_in r'))) c cr r')"
proof -
  obtain f where f: "fuel = Suc f" using assms(2) by (cases fuel) auto
  have h: "get_header c (r_in r) = Inr (i, length content, content @ rest)"
    using get_header_wire [OF assms(1)] assms(3) by simp
  then have lt: "length rest < length (r_in r)"
    using get_header_shrink [OF ok h] by simp
  have "next_loop f c cr r' = next_loop (Suc (length (r_in r'))) c cr r'"
    if "next_block c cr i content (r\<lparr>r_in := rest\<rparr>) = Inr r'" for r'
    using next_block_returns(2) [OF ok that] lt assms(2) f by (intro next_loop_fuel [OF ok]) simp_all
  then show ?thesis by (simp add: f h split: sum.split del: next_loop.simps(2)) (simp add: h split: sum.split)
qed

end

end
