(* ===== verification/Estream_Writer.thy ===== *)
theory Estream_Writer
  imports Estream_Wire
begin

text \<open>
  \<open>estream/writer.go\<close>: the stream writer. The \<open>io.Writer\<close> below is the argument \<open>sink\<close>: its state,
  what a write makes of it, and the error of the write. Random bytes are arguments of the
  calls that draw them. Every operation returns the new state and its error (\<open>None\<close> is nil).
\<close>

type_synonym 's sink = "'s \<Rightarrow> bytes \<Rightarrow> 's \<times> err option"

subsection \<open>State\<close>

record 's Writer =
  w_up :: 's
  w_err :: "err option"
  w_key :: "bytes option"
  w_nonce :: u64
  bw_id :: blockID
  bw_buf :: bytes

definition Writer_setErr :: "err option \<Rightarrow> 's Writer \<Rightarrow> 's Writer \<times> err option" where
  "Writer_setErr e w = (case w_err w of Some old \<Rightarrow> (w, Some old)
     | None \<Rightarrow> (case e of None \<Rightarrow> (w, None) | Some e \<Rightarrow> (w\<lparr>w_err := Some e\<rparr>, Some e)))"

subsection \<open>Blocks (blockWriter)\<close>

text \<open>
  Writing into the block goes through a \<open>msgp.Writer\<close> on a \<open>bytes.Buffer\<close>, whose writes do not
  fail; so does \<open>Flush\<close> in \<open>send\<close>. The length of the content is converted to 32 bits before it
  is compared, as in the source.
\<close>

definition newBlock :: "blockID \<Rightarrow> 's Writer \<Rightarrow> 's Writer" where
  "newBlock i w = w\<lparr>bw_id := i, bw_buf := []\<rparr>"

definition put :: "bytes \<Rightarrow> 's Writer \<Rightarrow> 's Writer" where
  "put b w = w\<lparr>bw_buf := bw_buf w @ b\<rparr>"

definition send :: "codec \<Rightarrow> 's sink \<Rightarrow> 's Writer \<Rightarrow> 's Writer \<times> err option" where
  "send c sink w =
    (if bw_id w = 0 then (w, Some (ErrorText ''blockWriter: no block started''))
     else
       let hdr = put_int8 c (bw_id w);
           blockLen = of_nat (length (bw_buf w)) :: u32
       in if blockLen > 4294967295 then (w, Some (ErrorText ''max block size exceeded''))
       else
         let hdr = hdr @ put_u32 c blockLen;
             (up, e) = sink (w_up w) hdr;
             w = w\<lparr>w_up := up\<rparr>
         in case e of Some e \<Rightarrow> (w, Some e)
            | None \<Rightarrow>
                (let (up, e) = sink (w_up w) (bw_buf w)
                 in (w\<lparr>w_up := up, bw_buf := [], bw_id := 0\<rparr>, e)))"

definition sendBlock :: "codec \<Rightarrow> 's sink \<Rightarrow> 's Writer \<Rightarrow> 's Writer \<times> err option" where
  "sendBlock c sink w = (case w_err w of Some e \<Rightarrow> (w, Some e)
     | None \<Rightarrow> (let (w, e) = send c sink w in Writer_setErr e w))"

subsection \<open>Writer\<close>

definition NewWriter :: "'s sink \<Rightarrow> 's \<Rightarrow> 's Writer" where
  "NewWriter sink s = (let (s, e) = sink s [2, 1]
     in \<lparr>w_up = s, w_err = e, w_key = None, w_nonce = 0, bw_id = 0, bw_buf = []\<rparr>)"

definition Close :: "codec \<Rightarrow> 's sink \<Rightarrow> 's Writer \<Rightarrow> 's Writer \<times> err option" where
  "Close c sink w = (case w_err w of Some e \<Rightarrow> (w, Some e)
     | None \<Rightarrow> sendBlock c sink (newBlock blockEOF w))"

text \<open>\<open>rand\<close> is what reading 32 random bytes gives, \<open>seed\<close> the randomness of the encryption.\<close>

definition AddKeyEncrypted :: "codec \<Rightarrow> ('pub, 'priv, 'es) crypto \<Rightarrow> 's sink \<Rightarrow> err + bytes \<Rightarrow> nat \<Rightarrow> 'pub \<Rightarrow>
  's Writer \<Rightarrow> 's Writer \<times> err option" where
  "AddKeyEncrypted c cr sink rand seed publicKey w = (case w_err w of Some e \<Rightarrow> (w, Some e)
     | None \<Rightarrow> (case rand of Inl e \<Rightarrow> Writer_setErr (Some e) w
       | Inr key \<Rightarrow>
           (let w = w\<lparr>w_key := Some key\<rparr>
            in case rsa_enc cr seed publicKey key of Inl e \<Rightarrow> Writer_setErr (Some e) w
               | Inr cipherKey \<Rightarrow>
                   (let w = newBlock blockEncryptedKey w;
                        w = put (put_bytes c (marshal_pub cr publicKey)) w;
                        w = put (put_bytes c cipherKey) w
                    in sendBlock c sink w))))"

definition AddKeyPlain :: "codec \<Rightarrow> 's sink \<Rightarrow> err + bytes \<Rightarrow> 's Writer \<Rightarrow> 's Writer \<times> err option" where
  "AddKeyPlain c sink rand w = (case w_err w of Some e \<Rightarrow> (w, Some e)
     | None \<Rightarrow> (case rand of Inl e \<Rightarrow> Writer_setErr (Some e) w
       | Inr key \<Rightarrow>
           (let w = w\<lparr>w_key := Some key\<rparr>;
                w = newBlock blockPlainKey w;
                w = put (put_bytes c key) w
            in sendBlock c sink w)))"

definition AddError :: "codec \<Rightarrow> 's sink \<Rightarrow> bytes \<Rightarrow> 's Writer \<Rightarrow> 's Writer \<times> err option" where
  "AddError c sink msg w = (case w_err w of Some e \<Rightarrow> (w, Some e)
     | None \<Rightarrow> sendBlock c sink (put (put_str c msg) (newBlock blockError w)))"

subsection \<open>Streams (streamWriter)\<close>

text \<open>The digest is determined by the bytes written to it.\<close>

record streamWriter =
  sw_h :: bytes
  sw_eosWritten :: bool

definition newStreamWriter :: streamWriter where
  "newStreamWriter = \<lparr>sw_h = [], sw_eosWritten = False\<rparr>"

definition AddUnencryptedStream :: "codec \<Rightarrow> 's sink \<Rightarrow> bytes \<Rightarrow> bytes \<Rightarrow> 's Writer \<Rightarrow>
  's Writer \<times> (err + streamWriter)" where
  "AddUnencryptedStream c sink name extra w = (case w_err w of Some e \<Rightarrow> (w, Inl e)
     | None \<Rightarrow>
         (let w = newBlock blockPlainStream w;
              w = put (put_str c name) w;
              w = put (put_bytes c extra) w;
              w = put (put_u8 c checksumTypeXxhash) w;
              (w, e) = sendBlock c sink w
          in case e of Some e \<Rightarrow> (w, Inl e) | None \<Rightarrow> (w, Inr newStreamWriter)))"

text \<open>\<open>binary.LittleEndian.PutUint64(nonce, n)\<close> into a nonce of \<open>k\<close> bytes (at least 8).\<close>

definition le64 :: "u64 \<Rightarrow> bytes" where
  "le64 n = map (\<lambda>i. ucast (drop_bit (8 * i) n)) [0..<8]"

definition nonce_bytes :: "nat \<Rightarrow> u64 \<Rightarrow> bytes" where
  "nonce_bytes k n = le64 n @ replicate (k - 8) 0"

text \<open>
  \<open>AddEncryptedStream\<close> returns the \<open>closeWrapper\<close> of the encrypting writer on a stream writer;
  both are set in the record until \<open>Close\<close> has run them. A nonce of less than 8 bytes would
  be a panic; \<open>None\<close> is that panic.
\<close>

record 'es closeWrapper =
  cw_up :: "'es option"
  cw_after :: bool
  cw_sw :: streamWriter

definition AddEncryptedStream :: "codec \<Rightarrow> ('pub, 'priv, 'es) crypto \<Rightarrow> 's sink \<Rightarrow> bytes \<Rightarrow> bytes \<Rightarrow> 's Writer \<Rightarrow>
  ('s Writer \<times> (err + 'es closeWrapper)) option" where
  "AddEncryptedStream c cr sink name extra w = (case w_err w of Some e \<Rightarrow> Some (w, Inl e)
     | None \<Rightarrow> (case w_key w of
         None \<Rightarrow> Some (w, Inl (ErrorText ''AddEncryptedStream: No key on stream''))
       | Some key \<Rightarrow>
           (let w = newBlock blockEncStream w;
                w = put (put_str c name) w;
                w = put (put_bytes c extra) w;
                w = put (put_u8 c checksumTypeXxhash) w
            in case sio_nonce cr key of
                 Inl e \<Rightarrow> (let (w, e') = Writer_setErr (Some e) w in Some (w, Inl (case e' of Some x \<Rightarrow> x | None \<Rightarrow> e)))
               | Inr k \<Rightarrow>
                   if k < 8 then None
                   else
                     let nonce = nonce_bytes k (w_nonce w);
                         w = w\<lparr>w_nonce := w_nonce w + 1\<rparr>;
                         w = put (put_bytes c nonce) w;
                         (w, e) = sendBlock c sink w
                     in Some (case e of Some e \<Rightarrow> (w, Inl e)
                        | None \<Rightarrow> (w, Inr \<lparr>cw_up = Some (es_init cr key nonce), cw_after = True,
                                           cw_sw = newStreamWriter\<rparr>)))))"

definition streamWriter_Write :: "codec \<Rightarrow> 's sink \<Rightarrow> bytes \<Rightarrow> streamWriter \<Rightarrow> 's Writer \<Rightarrow>
  streamWriter \<times> 's Writer \<times> err option" where
  "streamWriter_Write c sink b sw w =
    (let w = newBlock blockDatablock w;
         sw = sw\<lparr>sw_h := sw_h sw @ b\<rparr>;
         w = put (put_bytes c b) w;
         (w, e) = sendBlock c sink w
     in (sw, w, e))"

definition streamWriter_Close :: "codec \<Rightarrow> ('pub, 'priv, 'es) crypto \<Rightarrow> 's sink \<Rightarrow> streamWriter \<Rightarrow> 's Writer \<Rightarrow>
  streamWriter \<times> 's Writer \<times> err option" where
  "streamWriter_Close c cr sink sw w =
    (if sw_eosWritten sw then (sw, w, None)
     else
       let w = newBlock blockEOS w;
           w = put (put_bytes c (xxsum cr (sw_h sw))) w;
           sw = sw\<lparr>sw_eosWritten := True\<rparr>;
           (w, e) = sendBlock c sink w
       in (sw, w, e))"

text \<open>What the encrypting writer hands down is written block by block, up to the first error.\<close>

fun write_all :: "codec \<Rightarrow> 's sink \<Rightarrow> bytes list \<Rightarrow> streamWriter \<Rightarrow> 's Writer \<Rightarrow>
  streamWriter \<times> 's Writer \<times> err option" where
  "write_all c sink [] sw w = (sw, w, None)"
| "write_all c sink (b # bs) sw w =
    (case streamWriter_Write c sink b sw w of
       (sw, w, Some e) \<Rightarrow> (sw, w, Some e)
     | (sw, w, None) \<Rightarrow> write_all c sink bs sw w)"

text \<open>A write after \<open>Close\<close> is a nil dereference: \<open>None\<close>.\<close>

definition closeWrapper_Write :: "codec \<Rightarrow> ('pub, 'priv, 'es) crypto \<Rightarrow> 's sink \<Rightarrow> bytes \<Rightarrow> 'es closeWrapper \<Rightarrow>
  's Writer \<Rightarrow> ('es closeWrapper \<times> 's Writer \<times> err option) option" where
  "closeWrapper_Write c cr sink b cw w = (case cw_up cw of None \<Rightarrow> None
     | Some es \<Rightarrow>
         (let (es, chunks) = es_write cr es b;
              (sw, w, e) = write_all c sink chunks (cw_sw cw) w
          in Some (cw\<lparr>cw_up := Some es, cw_sw := sw\<rparr>, w, e)))"

definition closeWrapper_Close :: "codec \<Rightarrow> ('pub, 'priv, 'es) crypto \<Rightarrow> 's sink \<Rightarrow> 'es closeWrapper \<Rightarrow>
  's Writer \<Rightarrow> 'es closeWrapper \<times> 's Writer \<times> err option" where
  "closeWrapper_Close c cr sink cw w =
    (let (cw, w, e) = (case cw_up cw of None \<Rightarrow> (cw, w, None)
           | Some es \<Rightarrow>
               (let (sw, w, e) = write_all c sink (es_close cr es) (cw_sw cw) w
                in case e of Some e \<Rightarrow> (cw\<lparr>cw_sw := sw\<rparr>, w, Some e)
                   | None \<Rightarrow> (cw\<lparr>cw_sw := sw, cw_up := None\<rparr>, w, None)))
     in case e of Some e \<Rightarrow> (cw, w, Some e)
        | None \<Rightarrow>
            if cw_after cw then
              (let (sw, w, e) = streamWriter_Close c cr sink (cw_sw cw) w
               in case e of Some e \<Rightarrow> (cw\<lparr>cw_sw := sw\<rparr>, w, Some e)
                  | None \<Rightarrow> (cw\<lparr>cw_sw := sw, cw_after := False\<rparr>, w, None))
            else (cw, w, None))"

subsection \<open>Runs of the writer\<close>

text \<open>
  The calls a client can make, as steps between states of the writer; the list of each step
  holds the counter of the nonce that a stream was opened with.
\<close>

inductive writer_step :: "codec \<Rightarrow> ('pub, 'priv, 'es) crypto \<Rightarrow> 's sink \<Rightarrow> 's Writer \<Rightarrow> u64 list \<Rightarrow> 's Writer \<Rightarrow> bool"
  for c cr sink where
  step_close: "Close c sink w = (w', e) \<Longrightarrow> writer_step c cr sink w [] w'"
| step_key: "AddKeyEncrypted c cr sink rand seed pub w = (w', e) \<Longrightarrow> writer_step c cr sink w [] w'"
| step_plain_key: "AddKeyPlain c sink rand w = (w', e) \<Longrightarrow> writer_step c cr sink w [] w'"
| step_error: "AddError c sink msg w = (w', e) \<Longrightarrow> writer_step c cr sink w [] w'"
| step_plain: "AddUnencryptedStream c sink name extra w = (w', res) \<Longrightarrow> writer_step c cr sink w [] w'"
| step_enc: "AddEncryptedStream c cr sink name extra w = Some (w', Inr cw) \<Longrightarrow>
    writer_step c cr sink w [w_nonce w] w'"
| step_enc_fails: "AddEncryptedStream c cr sink name extra w = Some (w', Inl e) \<Longrightarrow> writer_step c cr sink w [] w'"
| step_write: "streamWriter_Write c sink b sw w = (sw', w', e) \<Longrightarrow> writer_step c cr sink w [] w'"
| step_eos: "streamWriter_Close c cr sink sw w = (sw', w', e) \<Longrightarrow> writer_step c cr sink w [] w'"

inductive writer_run :: "codec \<Rightarrow> ('pub, 'priv, 'es) crypto \<Rightarrow> 's sink \<Rightarrow> 's Writer \<Rightarrow> u64 list \<Rightarrow> 's Writer \<Rightarrow> bool"
  for c cr sink w where
  run_start: "writer_run c cr sink w [] w"
| run_step: "writer_run c cr sink w ns w1 \<Longrightarrow> writer_step c cr sink w1 ms w2 \<Longrightarrow>
    writer_run c cr sink w (ns @ ms) w2"

inductive_cases writer_stepE: "writer_step c cr sink w ns w'"

lemma newBlock_sel [simp]:
  "w_up (newBlock i w) = w_up w" "w_err (newBlock i w) = w_err w" "w_key (newBlock i w) = w_key w"
  "w_nonce (newBlock i w) = w_nonce w" "bw_id (newBlock i w) = i" "bw_buf (newBlock i w) = []"
  by (simp_all add: newBlock_def)

lemma put_sel [simp]:
  "w_up (put b w) = w_up w" "w_err (put b w) = w_err w" "w_key (put b w) = w_key w"
  "w_nonce (put b w) = w_nonce w" "bw_id (put b w) = bw_id w" "bw_buf (put b w) = bw_buf w @ b"
  by (simp_all add: put_def)

lemma sendBlock_sticky: "w_err w = Some e \<Longrightarrow> sendBlock c sink w = (w, Some e)"
  by (simp add: sendBlock_def)

lemma sendBlock_nonce: "w_nonce (fst (sendBlock c sink w)) = w_nonce w"
  by (auto simp: sendBlock_def send_def Writer_setErr_def Let_def split: option.split prod.split)

lemma sendBlock_error: "snd (sendBlock c sink w) = None \<longleftrightarrow> w_err (fst (sendBlock c sink w)) = None"
  by (auto simp: sendBlock_def send_def Writer_setErr_def Let_def split: option.split prod.split)

text \<open>A recorded error stays, and nothing is written after it.\<close>

lemma writer_step_sticky:
  "writer_step c cr sink w ns w' \<Longrightarrow> w_err w = Some e \<Longrightarrow> w_err w' = Some e \<and> w_up w' = w_up w \<and> ns = []"
  by (induction rule: writer_step.induct)
    (auto simp: Close_def AddKeyEncrypted_def AddKeyPlain_def AddError_def AddUnencryptedStream_def
      AddEncryptedStream_def streamWriter_Write_def streamWriter_Close_def sendBlock_sticky Let_def
      split: if_splits)

lemma writer_run_sticky:
  "writer_run c cr sink w ns w' \<Longrightarrow> w_err w = Some e \<Longrightarrow> w_err w' = Some e \<and> w_up w' = w_up w \<and> ns = []"
proof (induction rule: writer_run.induct)
  case (run_step ns w1 ms w2)
  then show ?case using writer_step_sticky [OF run_step.hyps(2)] by simp
qed simp

subsection \<open>Nonces\<close>

lemma writer_step_nonce:
  "writer_step c cr sink w ns w' \<Longrightarrow> w_err w' = None \<Longrightarrow>
   w_err w = None \<and> w_nonce w' = w_nonce w + of_nat (length ns)"
proof -
  assume s: "writer_step c cr sink w ns w'" and e: "w_err w' = None"
  have w: "w_err w = None"
    using writer_step_sticky [OF s] e by (cases "w_err w") auto
  have n: "w_nonce a = w_nonce b \<and> (x = None \<longleftrightarrow> w_err a = None)" if "sendBlock c sink b = (a, x)" for a b x
    using sendBlock_nonce [of c sink b] sendBlock_error [of c sink b] that by simp
  have "w_nonce w' = w_nonce w + of_nat (length ns)"
    using s w e
    by (cases rule: writer_stepE)
      (auto simp: Close_def AddKeyEncrypted_def AddKeyPlain_def AddError_def AddUnencryptedStream_def
        AddEncryptedStream_def streamWriter_Write_def streamWriter_Close_def Let_def Writer_setErr_def
        dest!: n split: if_splits option.splits sum.splits prod.splits)
  then show ?thesis using w by simp
qed

lemma writer_step_counter: "writer_step c cr sink w ns w' \<Longrightarrow> ns = [] \<or> ns = [w_nonce w]"
  by (induction rule: writer_step.induct) simp_all

text \<open>The counters of the streams of a run follow each other.\<close>

lemma writer_run_nonces:
  "writer_run c cr sink w ns w' \<Longrightarrow> w_err w' = None \<Longrightarrow>
   w_nonce w' = w_nonce w + of_nat (length ns) \<and>
   ns = map (\<lambda>i. w_nonce w + of_nat i) [0..<length ns]"
proof (induction rule: writer_run.induct)
  case (run_step ns w1 ms w2)
  note s = writer_step_nonce [OF run_step.hyps(2) run_step.prems]
  show ?case
    using writer_step_counter [OF run_step.hyps(2)] s run_step.IH by (auto simp: algebra_simps)
qed simp

lemma le64_nth: "i < 8 \<Longrightarrow> le64 n ! i = ucast (drop_bit (8 * i) n)"
  by (simp add: le64_def)

lemma le64_inj: "le64 a = le64 b \<Longrightarrow> a = b"
proof (rule bit_word_eqI)
  fix k assume e: "le64 a = le64 b" and "k < LENGTH(64)"
  then have k: "k div 8 < 8" by simp
  have "bit (ucast (drop_bit (8 * (k div 8)) a) :: byte) (k mod 8) =
      bit (ucast (drop_bit (8 * (k div 8)) b) :: byte) (k mod 8)"
    using e le64_nth [OF k] by metis
  then show "bit a k = bit b k"
    by (simp add: bit_ucast_iff bit_drop_bit_eq)
qed

lemma nonce_bytes_inj: "nonce_bytes k a = nonce_bytes k b \<Longrightarrow> a = b"
  using le64_inj [of a b] by (auto simp: nonce_bytes_def)

lemma distinct_counters:
  "n \<le> 2 ^ 64 \<Longrightarrow> distinct (map (\<lambda>i. nonce_bytes k (s + of_nat i)) [0..<n])"
proof -
  assume n: "n \<le> 2 ^ 64"
  have "i = j" if "of_nat i = (of_nat j :: u64)" "i < n" "j < n" for i j
  proof -
    have "unat (of_nat i :: u64) = i" "unat (of_nat j :: u64) = j"
      using that(2,3) n by (simp_all add: unat_of_nat)
    then show ?thesis using that(1) by metis
  qed
  then show ?thesis
    by (auto simp: distinct_map inj_on_def dest!: nonce_bytes_inj)
qed

end
