(* ===== verification/Estream_Roundtrip.thy ===== *)
theory Estream_Roundtrip
  imports Estream_Reader Estream_Writer
begin

text \<open>
  The writer and the reader of \<open>estream/\<close> against each other. A client of the writer is a list
  of items, written to memory; a client of the reader is the loop of the README: \<open>NextStream\<close>,
  read the stream to its end, until an error. The lemmas follow the bytes block by block; the
  locale \<open>estream\<close> holds what the round trip needs of the libraries.
\<close>

subsection \<open>A client that writes\<close>

datatype 'pub item = ItemPlainKey bytes | ItemKey bytes nat 'pub
  | ItemPlain bytes bytes "bytes list" | ItemEnc bytes bytes "bytes list"

definition mem :: "bytes sink" where
  "mem s b = (s @ b, None)"

fun enc_write_all :: "codec \<Rightarrow> ('pub, 'priv, 'es) crypto \<Rightarrow> 's sink \<Rightarrow> bytes list \<Rightarrow> 'es closeWrapper \<Rightarrow>
  's Writer \<Rightarrow> ('es closeWrapper \<times> 's Writer \<times> err option) option" where
  "enc_write_all c cr sink [] cw w = Some (cw, w, None)"
| "enc_write_all c cr sink (b # bs) cw w = (case closeWrapper_Write c cr sink b cw w of
     None \<Rightarrow> None
   | Some (cw, w, Some e) \<Rightarrow> Some (cw, w, Some e)
   | Some (cw, w, None) \<Rightarrow> enc_write_all c cr sink bs cw w)"

fun write_item :: "codec \<Rightarrow> ('pub, 'priv, 'es) crypto \<Rightarrow> 's sink \<Rightarrow> 'pub item \<Rightarrow> 's Writer \<Rightarrow>
  ('s Writer \<times> err option) option" where
  "write_item c cr sink (ItemPlainKey k) w = Some (AddKeyPlain c sink (Inr k) w)"
| "write_item c cr sink (ItemKey k seed pub) w = Some (AddKeyEncrypted c cr sink (Inr k) seed pub w)"
| "write_item c cr sink (ItemPlain name extra bs) w = Some
    (case AddUnencryptedStream c sink name extra w of
       (w, Inl e) \<Rightarrow> (w, Some e)
     | (w, Inr sw) \<Rightarrow> (case write_all c sink bs sw w of
         (sw, w, Some e) \<Rightarrow> (w, Some e)
       | (sw, w, None) \<Rightarrow> snd (streamWriter_Close c cr sink sw w)))"
| "write_item c cr sink (ItemEnc name extra bs) w =
    (case AddEncryptedStream c cr sink name extra w of
       None \<Rightarrow> None
     | Some (w, Inl e) \<Rightarrow> Some (w, Some e)
     | Some (w, Inr cw) \<Rightarrow> (case enc_write_all c cr sink bs cw w of
         None \<Rightarrow> None
       | Some (cw, w, Some e) \<Rightarrow> Some (w, Some e)
       | Some (cw, w, None) \<Rightarrow> Some (snd (closeWrapper_Close c cr sink cw w))))"

fun write_items :: "codec \<Rightarrow> ('pub, 'priv, 'es) crypto \<Rightarrow> 's sink \<Rightarrow> 'pub item list \<Rightarrow> 's Writer \<Rightarrow>
  ('s Writer \<times> err option) option" where
  "write_items c cr sink [] w = Some (Close c sink w)"
| "write_items c cr sink (it # its) w = (case write_item c cr sink it w of
     None \<Rightarrow> None
   | Some (w, Some e) \<Rightarrow> Some (w, Some e)
   | Some (w, None) \<Rightarrow> write_items c cr sink its w)"

definition write_file :: "codec \<Rightarrow> ('pub, 'priv, 'es) crypto \<Rightarrow> 'pub item list \<Rightarrow> (bytes \<times> err option) option" where
  "write_file c cr its = map_option (\<lambda>(w, e). (w_up w, e)) (write_items c cr mem its (NewWriter mem []))"

subsection \<open>A client that reads\<close>

text \<open>\<open>io.ReadAll\<close> on a stream, with buffers of \<open>len\<close> bytes.\<close>

fun drain :: "nat \<Rightarrow> codec \<Rightarrow> ('pub, 'priv, 'es) crypto \<Rightarrow> nat \<Rightarrow> streamReader \<Rightarrow> ('pub, 'priv) Reader \<Rightarrow>
  (('pub, 'priv) Reader \<times> bytes \<times> err) option" where
  "drain 0 c cr len sr r = None"
| "drain (Suc fuel) c cr len sr r = (case streamReader_Read c cr len sr r of
     ReadDiverged \<Rightarrow> None
   | Read sr r b (Some e) \<Rightarrow> Some (r, b, e)
   | Read sr r b None \<Rightarrow> map_option (\<lambda>(r, b', e). (r, b @ b', e)) (drain fuel c cr len sr r))"

definition read_stream :: "codec \<Rightarrow> ('pub, 'priv, 'es) crypto \<Rightarrow> nat \<Rightarrow> Stream \<Rightarrow> ('pub, 'priv) Reader \<Rightarrow>
  (('pub, 'priv) Reader \<times> (err + bytes)) option" where
  "read_stream c cr len s r =
    (let fuel = length (r_in r) + 2
     in case st_Reader s of
       NoReader \<Rightarrow> None
     | Plain sr \<Rightarrow> map_option (\<lambda>(r, b, e). (r, if e = EOF then Inr b else Inl e)) (drain fuel c cr len sr r)
     | Decrypt key nonce sr \<Rightarrow> map_option (\<lambda>(r, b, e). (r, if e = EOF then sio_open cr key nonce b else Inl e))
         (drain fuel c cr len sr r))"

text \<open>Name, metadata, encryption and content of the streams, and the error that ended the loop.\<close>

type_synonym contents = "(bytes \<times> bytes \<times> bool \<times> bytes) list"

fun read_items :: "nat \<Rightarrow> codec \<Rightarrow> ('pub, 'priv, 'es) crypto \<Rightarrow> nat \<Rightarrow> ('pub, 'priv) Reader \<Rightarrow> (contents \<times> err) option" where
  "read_items 0 c cr len r = None"
| "read_items (Suc fuel) c cr len r = (case Reader_NextStream c cr r of
     Diverged \<Rightarrow> None
   | NextErr r e \<Rightarrow> Some ([], e)
   | NextNoKey r s \<Rightarrow> Some ([], ErrNoKey)
   | NextStream r s \<Rightarrow> (case read_stream c cr len s r of
       None \<Rightarrow> None
     | Some (r, Inl e) \<Rightarrow> Some ([], e)
     | Some (r, Inr b) \<Rightarrow> map_option (\<lambda>(ss, e). ((st_Name s, st_Extra s, st_SentEncrypted s, b) # ss, e))
         (read_items fuel c cr len r)))"

definition read_file :: "codec \<Rightarrow> ('pub, 'priv, 'es) crypto \<Rightarrow> nat \<Rightarrow> 'priv option \<Rightarrow> bytes \<Rightarrow> (contents \<times> err) option" where
  "read_file c cr len priv b = (case NewReader b of
     Inl e \<Rightarrow> Some ([], e)
   | Inr r \<Rightarrow> read_items (length b) c cr len (SetPrivateKey priv r))"

subsection \<open>The blocks of an item\<close>

fun es_steps :: "('pub, 'priv, 'es) crypto \<Rightarrow> 'es \<Rightarrow> bytes list \<Rightarrow> 'es \<times> bytes list" where
  "es_steps cr es [] = (es, [])"
| "es_steps cr es (b # bs) = (let (es, out) = es_write cr es b; (es, outs) = es_steps cr es bs in (es, out @ outs))"

definition seal :: "('pub, 'priv, 'es) crypto \<Rightarrow> bytes \<Rightarrow> bytes \<Rightarrow> bytes list \<Rightarrow> bytes list" where
  "seal cr key nonce bs = (let (es, outs) = es_steps cr (es_init cr key nonce) bs in outs @ es_close cr es)"

type_synonym block = "blockID \<times> bytes"

definition data_blocks :: "codec \<Rightarrow> ('pub, 'priv, 'es) crypto \<Rightarrow> bytes list \<Rightarrow> block list" where
  "data_blocks c cr bs = map (\<lambda>b. (blockDatablock, put_bytes c b)) bs @ [(blockEOS, put_bytes c (xxsum cr (concat bs)))]"

definition stream_head :: "codec \<Rightarrow> bytes \<Rightarrow> bytes \<Rightarrow> bytes" where
  "stream_head c name extra = put_str c name @ put_bytes c extra @ put_u8 c checksumTypeXxhash"

definition item_nonce :: "('pub, 'priv, 'es) crypto \<Rightarrow> bytes \<Rightarrow> u64 \<Rightarrow> bytes" where
  "item_nonce cr key n = (case sio_nonce cr key of Inr k \<Rightarrow> nonce_bytes k n | Inl _ \<Rightarrow> [])"

fun item_blocks :: "codec \<Rightarrow> ('pub, 'priv, 'es) crypto \<Rightarrow> bytes \<Rightarrow> u64 \<Rightarrow> 'pub item \<Rightarrow> block list" where
  "item_blocks c cr key n (ItemPlainKey k) = [(blockPlainKey, put_bytes c k)]"
| "item_blocks c cr key n (ItemKey k seed pub) = (case rsa_enc cr seed pub k of Inl _ \<Rightarrow> []
     | Inr ct \<Rightarrow> [(blockEncryptedKey, put_bytes c (marshal_pub cr pub) @ put_bytes c ct)])"
| "item_blocks c cr key n (ItemPlain name extra bs) =
     (blockPlainStream, stream_head c name extra) # data_blocks c cr bs"
| "item_blocks c cr key n (ItemEnc name extra bs) =
     (blockEncStream, stream_head c name extra @ put_bytes c (item_nonce cr key n))
       # data_blocks c cr (seal cr key (item_nonce cr key n) bs)"

fun key_after :: "bytes option \<Rightarrow> 'pub item \<Rightarrow> bytes option" where
  "key_after key (ItemPlainKey k) = Some k"
| "key_after key (ItemKey k seed pub) = Some k"
| "key_after key _ = key"

fun nonce_after :: "u64 \<Rightarrow> 'pub item \<Rightarrow> u64" where
  "nonce_after n (ItemEnc _ _ _) = n + 1"
| "nonce_after n _ = n"

fun items_blocks :: "codec \<Rightarrow> ('pub, 'priv, 'es) crypto \<Rightarrow> bytes option \<Rightarrow> u64 \<Rightarrow> 'pub item list \<Rightarrow> block list" where
  "items_blocks c cr key n [] = [(blockEOF, [])]"
| "items_blocks c cr key n (it # its) =
     item_blocks c cr (case key of Some k \<Rightarrow> k | None \<Rightarrow> []) n it
       @ items_blocks c cr (key_after key it) (nonce_after n it) its"

definition wires :: "codec \<Rightarrow> block list \<Rightarrow> bytes" where
  "wires c bs = concat (map (\<lambda>(i, b). wire c i b) bs)"

text \<open>What the client asked for, and what should come back.\<close>

fun items_ok :: "'pub \<Rightarrow> bytes option \<Rightarrow> 'pub item list \<Rightarrow> bool" where
  "items_ok pub key [] \<longleftrightarrow> True"
| "items_ok pub key (it # its) \<longleftrightarrow>
     (case it of ItemPlainKey k \<Rightarrow> length k = 32
      | ItemKey k seed p \<Rightarrow> length k = 32 \<and> p = pub
      | ItemPlain _ _ _ \<Rightarrow> True
      | ItemEnc _ _ _ \<Rightarrow> key \<noteq> None) \<and> items_ok pub (key_after key it) its"

fun item_contents :: "'pub item \<Rightarrow> contents" where
  "item_contents (ItemPlain name extra bs) = [(name, extra, False, concat bs)]"
| "item_contents (ItemEnc name extra bs) = [(name, extra, True, concat bs)]"
| "item_contents _ = []"

definition blocks_fit :: "block list \<Rightarrow> bool" where
  "blocks_fit bs \<longleftrightarrow> (\<forall>(i, b) \<in> set bs. length b < 2 ^ 32)"

definition crypto_ok :: "('pub, 'priv, 'es) crypto \<Rightarrow> 'pub \<Rightarrow> 'priv \<Rightarrow> bool" where
  "crypto_ok cr pub priv \<longleftrightarrow>
     (\<forall>seed m. length m = 32 \<longrightarrow> (\<exists>ct. rsa_enc cr seed pub m = Inr ct \<and> rsa_dec cr priv ct = Inr m)) \<and>
     (\<forall>key. length key = 32 \<longrightarrow> (\<exists>k. sio_nonce cr key = Inr k \<and> 8 \<le> k)) \<and>
     (\<forall>key nonce bs. sio_open cr key nonce (concat (seal cr key nonce bs)) = Inr (concat bs))"

lemma wires_simps [simp]:
  "wires c [] = []" "wires c ((i, b) # bs) = wire c i b @ wires c bs" "wires c (bs @ bs') = wires c bs @ wires c bs'"
  by (simp_all add: wires_def)

lemma blocks_fit_simps [simp]:
  "blocks_fit []" "blocks_fit ((i, b) # bs) \<longleftrightarrow> length b < 4294967296 \<and> blocks_fit bs"
  "blocks_fit (bs @ bs') \<longleftrightarrow> blocks_fit bs \<and> blocks_fit bs'"
  by (auto simp: blocks_fit_def)

subsection \<open>What the writer writes\<close>

definition ready :: "'s Writer \<Rightarrow> bool" where
  "ready w \<longleftrightarrow> w_err w = None \<and> bw_id w = 0 \<and> bw_buf w = []"

definition emit :: "codec \<Rightarrow> block list \<Rightarrow> bytes Writer \<Rightarrow> bytes Writer" where
  "emit c bs w = w\<lparr>w_up := w_up w @ wires c bs\<rparr>"

lemma emit_sel [simp]:
  "w_up (emit c bs w) = w_up w @ wires c bs" "w_err (emit c bs w) = w_err w" "w_key (emit c bs w) = w_key w"
  "w_nonce (emit c bs w) = w_nonce w" "ready (emit c bs w) \<longleftrightarrow> ready w"
  by (simp_all add: emit_def ready_def)

lemma emit_emit [simp]: "emit c bs (emit c as w) = emit c (as @ bs) w"
  by (simp add: emit_def)

lemma emit_Nil [simp]: "emit c [] w = w"
  by (simp add: emit_def)

lemma ready_update [simp]:
  "ready (w\<lparr>w_key := k\<rparr>) \<longleftrightarrow> ready w" "ready (w\<lparr>w_nonce := n\<rparr>) \<longleftrightarrow> ready w"
  by (simp_all add: ready_def)

lemma ready_err: "ready w \<Longrightarrow> w_err w = None"
  by (simp add: ready_def)

lemma block_size_never_exceeded: "\<not> (4294967295 :: u32) < x"
proof -
  have "uint x < 2 ^ 32" using uint_lt2p [of x] by simp
  then show ?thesis by (simp add: word_less_def)
qed

lemma sendBlock_mem:
  "w_err w = None \<Longrightarrow> bw_id w \<noteq> 0 \<Longrightarrow>
   sendBlock c mem w = (w\<lparr>w_up := w_up w @ wire c (bw_id w) (bw_buf w), bw_buf := [], bw_id := 0\<rparr>, None)"
  by (simp add: block_size_never_exceeded sendBlock_def send_def mem_def Writer_setErr_def wire_def Let_def)

lemma sendBlock_new:
  "ready w \<Longrightarrow> i \<noteq> 0 \<Longrightarrow> sendBlock c mem (newBlock i w) = (emit c [(i, [])] w, None)"
  "ready w \<Longrightarrow> i \<noteq> 0 \<Longrightarrow> sendBlock c mem (put b (newBlock i w)) = (emit c [(i, b)] w, None)"
  "ready w \<Longrightarrow> i \<noteq> 0 \<Longrightarrow> sendBlock c mem (put b' (put b (newBlock i w))) = (emit c [(i, b @ b')] w, None)"
  "ready w \<Longrightarrow> i \<noteq> 0 \<Longrightarrow>
     sendBlock c mem (put b'' (put b' (put b (newBlock i w)))) = (emit c [(i, b @ b' @ b'')] w, None)"
  by (cases w; simp add: sendBlock_mem ready_def emit_def newBlock_def put_def)+

lemma streamWriter_Write_mem:
  "ready w \<Longrightarrow> streamWriter_Write c mem b sw w =
     (sw\<lparr>sw_h := sw_h sw @ b\<rparr>, emit c [(blockDatablock, put_bytes c b)] w, None)"
  by (simp add: streamWriter_Write_def sendBlock_new block_ids Let_def)

lemma streamWriter_Close_mem:
  "ready w \<Longrightarrow> \<not> sw_eosWritten sw \<Longrightarrow> streamWriter_Close c cr mem sw w =
     (sw\<lparr>sw_eosWritten := True\<rparr>, emit c [(blockEOS, put_bytes c (xxsum cr (sw_h sw)))] w, None)"
  by (simp add: streamWriter_Close_def sendBlock_new block_ids Let_def)

lemma write_all_mem:
  "ready w \<Longrightarrow> write_all c mem bs sw w =
     (sw\<lparr>sw_h := sw_h sw @ concat bs\<rparr>, emit c (map (\<lambda>b. (blockDatablock, put_bytes c b)) bs) w, None)"
  by (induction bs arbitrary: sw w) (simp_all add: streamWriter_Write_mem)

lemma enc_write_all_mem:
  "ready w \<Longrightarrow> cw_up cw = Some es \<Longrightarrow> es_steps cr es bs = (es', outs) \<Longrightarrow>
   enc_write_all c cr mem bs cw w =
     Some (cw\<lparr>cw_up := Some es', cw_sw := cw_sw cw\<lparr>sw_h := sw_h (cw_sw cw) @ concat outs\<rparr>\<rparr>,
           emit c (map (\<lambda>b. (blockDatablock, put_bytes c b)) outs) w, None)"
proof (induction bs arbitrary: cw w es outs)
  case (Cons b bs)
  obtain es1 out outs' where s: "es_write cr es b = (es1, out)" "es_steps cr es1 bs = (es', outs')" "outs = out @ outs'"
    using Cons.prems(3) by (auto simp: Let_def split: prod.splits)
  show ?case
    using Cons.prems(1,2) s Cons.IH [OF _ _ s(2)] by (simp add: closeWrapper_Write_def write_all_mem)
qed simp

lemma closeWrapper_Close_mem:
  "ready w \<Longrightarrow> cw_up cw = Some es \<Longrightarrow> cw_after cw \<Longrightarrow> \<not> sw_eosWritten (cw_sw cw) \<Longrightarrow>
   snd (closeWrapper_Close c cr mem cw w) =
     (emit c (map (\<lambda>b. (blockDatablock, put_bytes c b)) (es_close cr es) @
        [(blockEOS, put_bytes c (xxsum cr (sw_h (cw_sw cw) @ concat (es_close cr es))))]) w, None)"
  by (simp add: closeWrapper_Close_def write_all_mem streamWriter_Close_mem)

lemma write_plain_mem:
  assumes "ready w"
  shows "write_item c cr mem (ItemPlain name extra bs) w =
    Some (emit c (item_blocks c cr k n (ItemPlain name extra bs)) w, None)"
  using assms
  by (simp add: AddUnencryptedStream_def ready_err sendBlock_new block_ids Let_def write_all_mem newStreamWriter_def
    streamWriter_Close_mem data_blocks_def stream_head_def)

subsection \<open>The loop of the reader ends on every input\<close>

definition fresh :: "source \<Rightarrow> bool" where
  "fresh s \<longleftrightarrow> (case s of Plain sr \<Rightarrow> sr_buf sr = [] | Decrypt _ _ sr \<Rightarrow> sr_buf sr = [] | NoReader \<Rightarrow> False)"

lemma fail_not_stream [simp]: "fail e r \<noteq> NextStream r' s"
  by (simp add: fail_def split: prod.split)

lemma read_key_stream: "read_key c cr block r \<noteq> Inl (NextStream r' s)"
  by (auto simp: read_key_def Let_def split: sum.splits option.splits if_splits)

lemma open_stream_stream:
  "open_stream c cr n block r = Inl (NextStream r' s) \<Longrightarrow> r_in r' = r_in r \<and> fresh (st_Reader s)"
  by (auto simp: open_stream_def newStreamReader_def fresh_def
    split: sum.splits option.splits if_splits skipped.splits)

lemma next_block_stream:
  "next_block c cr n block r = Inl (NextStream r' s) \<Longrightarrow> r_in r' = r_in r \<and> fresh (st_Reader s)"
  using open_stream_stream [of c cr n block r r' s] read_key_stream [of c cr block r r' s]
  by (auto simp: next_block_def split: if_splits sum.splits)

lemma next_loop_stream:
  assumes "codec_ok c"
  shows "next_loop fuel c cr r = NextStream r' s \<Longrightarrow> length (r_in r') < length (r_in r) \<and> fresh (st_Reader s)"
proof (induction fuel arbitrary: r)
  case (Suc fuel)
  show ?case
  proof (cases "get_header c (r_in r)")
    case (Inl e)
    then show ?thesis using Suc.prems by simp
  next
    case (Inr h)
    obtain n sz b where h: "get_header c (r_in r) = Inr (n, sz, b)" using Inr by (cases h) auto
    have b: "length b < length (r_in r)" using get_header_shrink [OF assms h] .
    show ?thesis
    proof (cases "ReadFull sz b")
      case (Inl e)
      then show ?thesis using Suc.prems h by simp
    next
      case (Inr p)
      obtain block b' where p: "ReadFull sz b = Inr (block, b')" using Inr by (cases p) auto
      have b': "length b' < length (r_in r)" using ReadFull_shrink [OF p] b by simp
      show ?thesis
      proof (cases "next_block c cr n block (r\<lparr>r_in := b'\<rparr>)")
        case (Inl res)
        then show ?thesis using Suc.prems h p b' next_block_stream [of c cr n block "r\<lparr>r_in := b'\<rparr>" r' s] by simp
      next
        case (Inr q)
        have "length (r_in q) \<le> length b'" using next_block_returns(2) [OF assms Inr] by simp
        then show ?thesis using Suc.prems Suc.IH [of q] h p b' Inr by simp
      qed
    qed
  qed
qed simp

lemma NextStream_stream:
  "codec_ok c \<Longrightarrow> Reader_NextStream c cr r = NextStream r' s \<Longrightarrow>
   length (r_in r') < length (r_in r) \<and> fresh (st_Reader s)"
  using next_loop_stream [of c "Suc (length (r_in r))" cr r r' s]
  by (auto simp: Reader_NextStream_def simp del: next_loop.simps split: option.splits if_splits)

lemma drain_returns:
  assumes "codec_ok c" and "0 < len"
  shows "length (sr_buf sr) + length (r_in r) < fuel \<Longrightarrow>
    \<exists>r' b e. drain fuel c cr len sr r = Some (r', b, e) \<and> length (r_in r') \<le> length (r_in r)"
proof (induction fuel arbitrary: sr r)
  case (Suc fuel)
  obtain sr' r' b e where q: "streamReader_Read c cr len sr r = Read sr' r' b e"
    using Read_terminates [OF assms(1), of cr len sr r] by (cases "streamReader_Read c cr len sr r") auto
  note p = Read_progress [OF assms q]
  show ?case
  proof (cases e)
    case None
    then have "length (sr_buf sr') + length (r_in r') < fuel" using p Suc.prems by simp
    from Suc.IH [OF this] show ?thesis using None p q by fastforce
  qed (use p q in simp)
qed simp

lemma read_stream_returns:
  assumes "codec_ok c" and "0 < len" and "fresh (st_Reader s)"
  shows "\<exists>r' x. read_stream c cr len s r = Some (r', x) \<and> length (r_in r') \<le> length (r_in r)"
proof -
  have d: "\<exists>r' b e. drain (length (r_in r) + 2) c cr len sr r = Some (r', b, e) \<and> length (r_in r') \<le> length (r_in r)"
    if "sr_buf sr = []" for sr
    using drain_returns [OF assms(1,2), of sr r "length (r_in r) + 2" cr] that by simp
  show ?thesis
  proof (cases "st_Reader s")
    case (Plain sr)
    then show ?thesis using d [of sr] assms(3) by (auto simp: fresh_def read_stream_def simp del: drain.simps)
  next
    case (Decrypt key nonce sr)
    then show ?thesis using d [of sr] assms(3) by (auto simp: fresh_def read_stream_def simp del: drain.simps)
  qed (use assms(3) in \<open>simp add: fresh_def\<close>)
qed

lemma read_items_returns:
  assumes "codec_ok c" and "0 < len"
  shows "length (r_in r) < fuel \<Longrightarrow> read_items fuel c cr len r \<noteq> None"
proof (induction fuel arbitrary: r)
  case (Suc fuel)
  show ?case
  proof (cases "Reader_NextStream c cr r")
    case (NextStream r' s)
    note n = NextStream_stream [OF assms(1) NextStream]
    obtain r2 x where x: "read_stream c cr len s r' = Some (r2, x)" "length (r_in r2) \<le> length (r_in r')"
      using read_stream_returns [OF assms] n by blast
    then have "read_items fuel c cr len r2 \<noteq> None" using n Suc by simp
    then show ?thesis using NextStream x by (cases x) auto
  qed (use NextStream_terminates [OF assms(1), of cr r] in simp_all)
qed simp

lemma read_file_returns:
  fixes cr :: "('pub, 'priv, 'es) crypto"
  assumes "codec_ok c" and "0 < len"
  shows "read_file c cr len priv b \<noteq> None"
proof (cases "NewReader b :: err + ('pub, 'priv) Reader")
  case (Inr r)
  then have "length (r_in r) < length b"
    by (auto simp: NewReader_def ReadFull_def split: if_splits sum.splits)
  then show ?thesis using Inr read_items_returns [OF assms, of "SetPrivateKey priv r" "length b" cr]
    by (simp add: read_file_def SetPrivateKey_def)
qed (simp add: read_file_def)

subsection \<open>What the reader reads\<close>

definition opened :: streamReader where
  "opened = \<lparr>sr_h = [], sr_buf = [], sr_isEOF = False, sr_check = checksumTypeXxhash\<rparr>"

context msgp
begin

lemma read_loop_data:
  assumes "length (put_bytes c b) < 4294967296" and "sr_buf sr = []"
    and "r_in r = wire c blockDatablock (put_bytes c b) @ rest" and "length (r_in r) < fuel"
  shows "read_loop fuel c cr len sr r =
    read_loop (length rest + 2) c cr len (sr\<lparr>sr_h := (if sr_check sr = checksumTypeXxhash then sr_h sr @ b else sr_h sr), sr_buf := b\<rparr>)
      (r\<lparr>r_in := rest\<rparr>)"
proof -
  obtain f where f: "fuel = Suc f" using assms(4) by (cases fuel) auto
  have h: "get_header c (r_in r) = Inr (blockDatablock, length (put_bytes c b), put_bytes c b @ rest)"
    using get_header_wire [OF assms(1)] assms(3) by simp
  have g: "get_bytes c (put_bytes c b @ rest) = Inr (b, rest)"
    using grow(1) [OF assms(1)] by simp
  have "length rest < f"
    using get_header_shrink [OF ok h] assms(4) f shrink(3) [OF g] by simp
  then have fuel: "read_loop f c cr len x (r\<lparr>r_in := rest\<rparr>) = read_loop (length rest + 2) c cr len x (r\<lparr>r_in := rest\<rparr>)" for x
    by (intro read_loop_fuel [OF ok]) simp_all
  show ?thesis
    unfolding f
    by (subst read_loop.simps(2)) (simp add: assms(2) h g Let_def fuel del: read_loop.simps)
qed

lemma Read_data:
  assumes "length (put_bytes c b) < 4294967296" and "sr_buf sr = []" and "\<not> sr_isEOF sr" and "r_err r = None"
    and "r_in r = wire c blockDatablock (put_bytes c b) @ rest"
  shows "streamReader_Read c cr len sr r = streamReader_Read c cr len
    (sr\<lparr>sr_h := (if sr_check sr = checksumTypeXxhash then sr_h sr @ b else sr_h sr), sr_buf := b\<rparr>)
      (r\<lparr>r_in := rest\<rparr>)"
  using read_loop_data [OF assms(1,2,5), of "length (r_in r) + 2" cr len] assms(3,4)
  by (simp add: streamReader_Read_def del: read_loop.simps)

lemma Read_eos:
  assumes "length (put_bytes c h) < 4294967296" and "sr_buf sr = []" and "\<not> sr_isEOF sr" and "r_err r = None"
    and "r_in r = wire c blockEOS (put_bytes c h) @ rest" and "sr_check sr = checksumTypeXxhash"
  shows "streamReader_Read c cr len sr r =
    (if h = xxsum cr (sr_h sr) then Read (sr\<lparr>sr_isEOF := True\<rparr>) (r\<lparr>r_in := rest, r_inStream := False\<rparr>) [] (Some EOF)
     else read_fail (ErrorText ''checksum mismatch'') sr (r\<lparr>r_in := rest\<rparr>))"
proof -
  have "get_header c (r_in r) = Inr (blockEOS, length (put_bytes c h), put_bytes c h @ rest)"
    using get_header_wire [OF assms(1)] assms(5) by simp
  then show ?thesis
    using assms grow(1) [OF assms(1)] by (simp add: streamReader_Read_def block_ids Let_def)
qed

lemma Read_buf:
  "sr_buf sr \<noteq> [] \<Longrightarrow> \<not> sr_isEOF sr \<Longrightarrow> r_err r = None \<Longrightarrow> streamReader_Read c cr len sr r =
     Read (sr\<lparr>sr_buf := drop len (sr_buf sr)\<rparr>) r (take len (sr_buf sr)) None"
  by (simp add: streamReader_Read_def)

abbreviation data :: "bytes list \<Rightarrow> block list" where
  "data bs \<equiv> map (\<lambda>b. (blockDatablock, put_bytes c b)) bs"

text \<open>Data blocks are drained up to the tail, whatever a read of the tail gives.\<close>

lemma drain_data:
  assumes "0 < len"
    and tail: "\<And>sr. sr_buf sr = [] \<Longrightarrow> \<not> sr_isEOF sr \<Longrightarrow> sr_check sr = checksumTypeXxhash \<Longrightarrow> sr_h sr = H \<Longrightarrow>
      \<exists>sr'. streamReader_Read c cr len sr (r0\<lparr>r_in := rest\<rparr>) = Read sr' r2 [] (Some e)"
  shows "length (sr_buf sr) + length (concat bs) < fuel \<Longrightarrow> \<not> sr_isEOF sr \<Longrightarrow> r_err r0 = None \<Longrightarrow>
    sr_check sr = checksumTypeXxhash \<Longrightarrow> blocks_fit (data bs) \<Longrightarrow> H = sr_h sr @ concat bs \<Longrightarrow>
    drain fuel c cr len sr (r0\<lparr>r_in := wires c (data bs) @ rest\<rparr>) = Some (r2, sr_buf sr @ concat bs, e)"
proof (induction "length (sr_buf sr) + length (concat bs) + length bs" arbitrary: sr bs fuel rule: less_induct)
  case less
  note prems = less.prems
  obtain f where f: "fuel = Suc f" using prems(1) by (cases fuel) auto
  show ?case
  proof (cases "sr_buf sr = []")
    case False
    let ?sr = "sr\<lparr>sr_buf := drop len (sr_buf sr)\<rparr>"
    have shorter: "length (sr_buf ?sr) < length (sr_buf sr)" using False assms(1) by simp
    have "drain f c cr len ?sr (r0\<lparr>r_in := wires c (data bs) @ rest\<rparr>) = Some (r2, sr_buf ?sr @ concat bs, e)"
      using prems f shorter by (intro less.hyps) auto
    then show ?thesis
      using Read_buf [OF False prems(2), of "r0\<lparr>r_in := wires c (data bs) @ rest\<rparr>" cr len] prems(3) f by simp
  next
    case buf: True
    show ?thesis
    proof (cases bs)
      case Nil
      then show ?thesis using tail [OF buf prems(2,4)] prems(6) buf f by auto
    next
      case (Cons b bs')
      let ?sr = "sr\<lparr>sr_h := sr_h sr @ b, sr_buf := b\<rparr>"
      let ?rest = "wires c (data bs') @ rest"
      have "drain fuel c cr len ?sr (r0\<lparr>r_in := ?rest\<rparr>) = Some (r2, sr_buf ?sr @ concat bs', e)"
        using prems Cons buf by (intro less.hyps) auto
      moreover have "streamReader_Read c cr len sr (r0\<lparr>r_in := wires c (data bs) @ rest\<rparr>) =
          streamReader_Read c cr len ?sr (r0\<lparr>r_in := ?rest\<rparr>)"
        using Read_data [of b sr "r0\<lparr>r_in := wires c (data bs) @ rest\<rparr>" ?rest cr len] prems buf Cons by simp
      ultimately show ?thesis using buf Cons f by simp
    qed
  qed
qed

lemma data_length: "length (concat bs) \<le> length (wires c (data bs))"
proof (induction bs)
  case (Cons b bs)
  have "length b \<le> length (wire c blockDatablock (put_bytes c b))"
    using grow(1) [of b "Suc (length (put_bytes c b))"] by (simp add: wire_def)
  from add_mono [OF this Cons.IH] show ?case by simp
qed simp

text \<open>
  A whole stream, with the digest \<open>h\<close> it was closed with; a stream that is cut between two
  blocks ends with the same error as a whole one, and the reader keeps it.
\<close>

lemma drain_stream:
  assumes "0 < len" and "blocks_fit (data bs)" and "length (put_bytes c h) < 4294967296"
    and "length (concat bs) < fuel" and "r_err r = None"
  shows "drain fuel c cr len opened (r\<lparr>r_in := wires c (data bs @ [(blockEOS, put_bytes c h)]) @ rest, r_inStream := True\<rparr>) =
    (if h = xxsum cr (concat bs) then Some (r\<lparr>r_in := rest, r_inStream := False\<rparr>, concat bs, EOF)
     else Some (r\<lparr>r_in := rest, r_inStream := True, r_err := Some (ErrorText ''checksum mismatch'')\<rparr>, concat bs,
       ErrorText ''checksum mismatch''))"
proof -
  let ?e = "if h = xxsum cr (concat bs) then EOF else ErrorText ''checksum mismatch''"
  let ?r = "if h = xxsum cr (concat bs) then r\<lparr>r_in := rest, r_inStream := False\<rparr>
    else r\<lparr>r_in := rest, r_inStream := True, r_err := Some (ErrorText ''checksum mismatch'')\<rparr>"
  let ?in = "wires c [(blockEOS, put_bytes c h)] @ rest"
  have "drain fuel c cr len opened (r\<lparr>r_inStream := True\<rparr>\<lparr>r_in := wires c (data bs) @ ?in\<rparr>) =
      Some (?r, sr_buf opened @ concat bs, ?e)"
  proof (rule drain_data [OF assms(1), where H = "concat bs"])
    fix sr :: streamReader assume s: "sr_buf sr = []" "\<not> sr_isEOF sr" "sr_check sr = checksumTypeXxhash" "sr_h sr = concat bs"
    show "\<exists>sr'. streamReader_Read c cr len sr (r\<lparr>r_inStream := True\<rparr>\<lparr>r_in := ?in\<rparr>) =
        Read sr' ?r [] (Some ?e)"
      using Read_eos [OF assms(3) s(1,2), of "r\<lparr>r_inStream := True\<rparr>\<lparr>r_in := ?in\<rparr>" rest cr len] s assms(5)
      by (cases r) (simp add: read_fail_def Reader_setErr_def)
  qed (use assms in \<open>simp_all add: opened_def\<close>)
  then show ?thesis by (cases r) (simp add: opened_def)
qed

lemma drain_cut:
  assumes "0 < len" and "blocks_fit (data bs)" and "length (concat bs) < fuel" and "r_err r = None"
  shows "drain fuel c cr len opened (r\<lparr>r_in := wires c (data bs), r_inStream := True\<rparr>) =
    Some (r\<lparr>r_in := [], r_inStream := True, r_err := Some EOF\<rparr>, concat bs, EOF)"
proof -
  have "drain fuel c cr len opened (r\<lparr>r_inStream := True\<rparr>\<lparr>r_in := wires c (data bs) @ []\<rparr>) =
      Some (r\<lparr>r_in := [], r_inStream := True, r_err := Some EOF\<rparr>, sr_buf opened @ concat bs, EOF)"
  proof (rule drain_data [OF assms(1), where H = "concat bs"])
    fix sr :: streamReader assume "sr_buf sr = []" "\<not> sr_isEOF sr"
    then show "\<exists>sr'. streamReader_Read c cr len sr (r\<lparr>r_inStream := True\<rparr>\<lparr>r_in := []\<rparr>) =
        Read sr' (r\<lparr>r_in := [], r_inStream := True, r_err := Some EOF\<rparr>) [] (Some EOF)"
      using assms(4) by (cases r) (simp add: streamReader_Read_def get_header_def read_fail_def Reader_setErr_def)
  qed (use assms in \<open>simp_all add: opened_def\<close>)
  then show ?thesis by (cases r) (simp add: opened_def)
qed

end

subsection \<open>The round trip\<close>

locale estream = msgp c for c +
  fixes cr :: "('pub, 'priv, 'es) crypto" and pub :: 'pub and priv :: 'priv
  assumes crypto: "crypto_ok cr pub priv"
begin

lemma rsa: "length m = 32 \<Longrightarrow> \<exists>ct. rsa_enc cr seed pub m = Inr ct \<and> rsa_dec cr priv ct = Inr m"
  using crypto by (simp add: crypto_ok_def)

lemma nonce_size: "length key = 32 \<Longrightarrow> \<exists>k. sio_nonce cr key = Inr k \<and> 8 \<le> k"
  using crypto by (simp add: crypto_ok_def)

lemma open_seal [simp]: "sio_open cr key nonce (concat (seal cr key nonce bs)) = Inr (concat bs)"
  using crypto by (simp add: crypto_ok_def)

abbreviation key_or_nil :: "bytes option \<Rightarrow> bytes" where
  "key_or_nil key \<equiv> (case key of Some k \<Rightarrow> k | None \<Rightarrow> [])"

lemma write_item_mem:
  assumes "ready w" and "\<forall>k. w_key w = Some k \<longrightarrow> length k = 32" and "items_ok pub (w_key w) (it # its)"
  shows "write_item c cr mem it w = Some
    ((emit c (item_blocks c cr (key_or_nil (w_key w)) (w_nonce w) it) w)
       \<lparr>w_key := key_after (w_key w) it, w_nonce := nonce_after (w_nonce w) it\<rparr>, None)"
proof (cases it)
  case (ItemPlainKey k)
  then show ?thesis
    using assms by (simp add: AddKeyPlain_def ready_err sendBlock_new block_ids Let_def emit_def)
next
  case (ItemKey k seed p)
  then obtain ct where "rsa_enc cr seed pub k = Inr ct" using assms(3) rsa by fastforce
  then show ?thesis
    using assms ItemKey by (simp add: AddKeyEncrypted_def ready_err sendBlock_new block_ids Let_def emit_def)
next
  case (ItemPlain name extra bs)
  then show ?thesis
    using write_plain_mem [OF assms(1), of c cr name extra bs "key_or_nil (w_key w)" "w_nonce w"]
    by (simp add: emit_def)
next
  case (ItemEnc name extra bs)
  then obtain key where key: "w_key w = Some key" "length key = 32" using assms by auto
  then obtain k where k: "sio_nonce cr key = Inr k" "8 \<le> k" using nonce_size by blast
  let ?nonce = "nonce_bytes k (w_nonce w)"
  obtain es outs where es: "es_steps cr (es_init cr key ?nonce) bs = (es, outs)" by fastforce
  let ?w = "emit c [(blockEncStream, stream_head c name extra @ put_bytes c ?nonce)] (w\<lparr>w_nonce := w_nonce w + 1\<rparr>)"
  let ?cw = "\<lparr>cw_up = Some (es_init cr key ?nonce), cw_after = True, cw_sw = newStreamWriter\<rparr>"
  have up: "put b (w'\<lparr>w_nonce := n\<rparr>) = (put b w')\<lparr>w_nonce := n\<rparr>" "newBlock i (w'\<lparr>w_nonce := n\<rparr>) = (newBlock i w')\<lparr>w_nonce := n\<rparr>"
    for b n i and w' :: "bytes Writer"
    by (simp_all add: put_def newBlock_def)
  have "AddEncryptedStream c cr mem name extra w = Some (?w, Inr ?cw)"
    using assms(1) key k
    by (simp add: AddEncryptedStream_def ready_err Let_def stream_head_def sendBlock_mem put_def newBlock_def emit_def
      block_ids ready_def)
  moreover have "ready ?w" using assms(1) by simp
  ultimately show ?thesis
    using ItemEnc key k es enc_write_all_mem [of ?w ?cw, OF _ _ es]
    by (simp add: closeWrapper_Close_mem newStreamWriter_def item_nonce_def seal_def data_blocks_def)
      (simp add: emit_def)
qed

lemma key_after_length:
  "items_ok pub key (it # its) \<Longrightarrow> \<forall>k. key = Some k \<longrightarrow> length k = 32 \<Longrightarrow>
   key_after key it = Some k' \<Longrightarrow> length k' = 32"
  by (cases it) auto

lemma write_items_mem:
  "ready w \<Longrightarrow> \<forall>k. w_key w = Some k \<longrightarrow> length k = 32 \<Longrightarrow> items_ok pub (w_key w) its \<Longrightarrow>
   \<exists>w'. write_items c cr mem its w = Some (w', None) \<and>
     w_up w' = w_up w @ wires c (items_blocks c cr (w_key w) (w_nonce w) its)"
proof (induction its arbitrary: w)
  case Nil
  then show ?case by (simp add: Close_def ready_err sendBlock_new block_ids)
next
  case (Cons it its)
  let ?w = "(emit c (item_blocks c cr (key_or_nil (w_key w)) (w_nonce w) it) w)
       \<lparr>w_key := key_after (w_key w) it, w_nonce := nonce_after (w_nonce w) it\<rparr>"
  have "\<exists>w'. write_items c cr mem its ?w = Some (w', None) \<and>
     w_up w' = w_up ?w @ wires c (items_blocks c cr (w_key ?w) (w_nonce ?w) its)"
    using Cons.prems key_after_length [OF Cons.prems(3,2)] by (intro Cons.IH) auto
  then show ?case using write_item_mem [OF Cons.prems] by simp
qed

lemma write_file_mem:
  "items_ok pub None its \<Longrightarrow> write_file c cr its = Some ([2, 1] @ wires c (items_blocks c cr None 0 its), None)"
  using write_items_mem [of "fst (NewWriter mem [], ())" its]
  by (auto simp: write_file_def NewWriter_def mem_def ready_def)

subsection \<open>The blocks the reader gets\<close>

abbreviation reader :: "bytes option \<Rightarrow> bytes \<Rightarrow> ('pub, 'priv) Reader" where
  "reader key b \<equiv> \<lparr>r_in = b, r_majorV = 2, r_minorV = 1, r_err = None, r_inStream = False, r_key = key,
     r_private = Some priv, r_privateFn = None, r_skipEncrypted = False, r_returnNonDec = False\<rparr>"

lemma NextStream_wire:
  "length content < 4294967296 \<Longrightarrow>
   Reader_NextStream c cr (reader key (wire c i content @ rest)) =
     (case next_block c cr i content (reader key rest) of
        Inl res \<Rightarrow> res | Inr r \<Rightarrow> next_loop (Suc (length (r_in r))) c cr r)"
  using next_loop_wire [of content "reader key (wire c i content @ rest)" "Suc (length (wire c i content @ rest))" i rest cr]
  by (simp add: Reader_NextStream_def del: next_loop.simps)

lemma NextStream_reader:
  "next_loop (Suc (length b)) c cr (reader key b) = Reader_NextStream c cr (reader key b)"
  by (simp add: Reader_NextStream_def)

lemma NextStream_plain_key:
  "length k = 32 \<Longrightarrow> blocks_fit [(blockPlainKey, put_bytes c k)] \<Longrightarrow>
   Reader_NextStream c cr (reader key (wires c [(blockPlainKey, put_bytes c k)] @ rest)) =
     Reader_NextStream c cr (reader (Some k) rest)"
  by (simp add: NextStream_wire next_block_def block_ids NextStream_reader del: next_loop.simps)

lemma NextStream_key:
  "length k = 32 \<Longrightarrow> rsa_dec cr priv ct = Inr k \<Longrightarrow>
   blocks_fit [(blockEncryptedKey, put_bytes c p @ put_bytes c ct)] \<Longrightarrow>
   Reader_NextStream c cr (reader key (wires c [(blockEncryptedKey, put_bytes c p @ put_bytes c ct)] @ rest)) =
     Reader_NextStream c cr (reader (Some k) rest)"
  using grow(1) [of p 4294967296] grow(1) [of ct 4294967296]
  by (simp add: NextStream_wire next_block_def block_ids read_key_def NextStream_reader del: next_loop.simps)

lemma NextStream_eof:
  "\<exists>r. Reader_NextStream c cr (reader key (wires c [(blockEOF, [])])) = NextErr r EOF"
  using NextStream_wire [of "[]" blockEOF "[]" key] by (simp add: next_block_def block_ids)

lemma NextStream_plain:
  "blocks_fit [(blockPlainStream, stream_head c name extra)] \<Longrightarrow>
   Reader_NextStream c cr (reader key (wires c [(blockPlainStream, stream_head c name extra)] @ rest)) =
     NextStream (reader key rest\<lparr>r_inStream := True\<rparr>)
       \<lparr>st_Reader = Plain opened, st_Name = name, st_Extra = extra, st_SentEncrypted = False\<rparr>"
  using grow(2) [of name 4294967296] grow(1) [of extra 4294967296]
  by (simp add: NextStream_wire next_block_def block_ids open_stream_def stream_head_def newStreamReader_def opened_def
    checksumType_valid_def checksumTypeNone_def checksumTypeXxhash_def checksumTypeUnknown_def)

lemma NextStream_enc:
  "length k = 32 \<Longrightarrow> sio_nonce cr k = Inr (length nonce) \<Longrightarrow>
   blocks_fit [(blockEncStream, stream_head c name extra @ put_bytes c nonce)] \<Longrightarrow>
   Reader_NextStream c cr (reader (Some k) (wires c [(blockEncStream, stream_head c name extra @ put_bytes c nonce)] @ rest)) =
     NextStream (reader (Some k) rest\<lparr>r_inStream := True\<rparr>)
       \<lparr>st_Reader = Decrypt k nonce opened, st_Name = name, st_Extra = extra, st_SentEncrypted = True\<rparr>"
  using grow(2) [of name 4294967296] grow(1) [of extra 4294967296] grow(1) [of nonce 4294967296]
  by (simp add: NextStream_wire next_block_def block_ids open_stream_def stream_head_def newStreamReader_def opened_def
    checksumType_valid_def checksumTypeNone_def checksumTypeXxhash_def checksumTypeUnknown_def)

lemma drain_opened:
  assumes "0 < len" and "blocks_fit (data_blocks c cr bs)" and "length (wires c (data_blocks c cr bs) @ rest) < fuel"
  shows "drain fuel c cr len opened (reader key (wires c (data_blocks c cr bs) @ rest)\<lparr>r_inStream := True\<rparr>) =
     Some (reader key rest, concat bs, EOF)"
  using drain_stream [OF assms(1), of bs "xxsum cr (concat bs)" fuel "reader key rest" cr rest] assms(2,3) data_length [of bs]
  by (simp add: data_blocks_def)

text \<open>One item: a key is consumed by the next \<open>NextStream\<close>, a stream is returned by it.\<close>

lemma read_items_key:
  "Reader_NextStream c cr r = Reader_NextStream c cr r' \<Longrightarrow> read_items fuel c cr len r = read_items fuel c cr len r'"
  by (cases fuel) simp_all

lemma read_items_plain:
  assumes "0 < len" and "blocks_fit (item_blocks c cr k n (ItemPlain name extra bs))"
  shows "read_items (Suc fuel) c cr len (reader key (wires c (item_blocks c cr k n (ItemPlain name extra bs)) @ rest)) =
    map_option (\<lambda>(ss, e). ((name, extra, False, concat bs) # ss, e)) (read_items fuel c cr len (reader key rest))"
proof -
  let ?d = "wires c (data_blocks c cr bs) @ rest"
  have "Reader_NextStream c cr (reader key (wires c [(blockPlainStream, stream_head c name extra)] @ ?d)) =
      NextStream (reader key ?d\<lparr>r_inStream := True\<rparr>)
        \<lparr>st_Reader = Plain opened, st_Name = name, st_Extra = extra, st_SentEncrypted = False\<rparr>"
    using assms(2) by (intro NextStream_plain) simp
  moreover have "drain (length ?d + 2) c cr len opened (reader key ?d\<lparr>r_inStream := True\<rparr>) =
      Some (reader key rest, concat bs, EOF)"
    using assms by (intro drain_opened) simp_all
  ultimately show ?thesis by (simp add: read_stream_def del: drain.simps)
qed

lemma read_items_enc:
  assumes "0 < len" and "length k = 32" and "blocks_fit (item_blocks c cr k n (ItemEnc name extra bs))"
  shows "read_items (Suc fuel) c cr len (reader (Some k) (wires c (item_blocks c cr k n (ItemEnc name extra bs)) @ rest)) =
    map_option (\<lambda>(ss, e). ((name, extra, True, concat bs) # ss, e)) (read_items fuel c cr len (reader (Some k) rest))"
proof -
  let ?nonce = "item_nonce cr k n"
  let ?d = "wires c (data_blocks c cr (seal cr k ?nonce bs)) @ rest"
  obtain m where m: "sio_nonce cr k = Inr m" "8 \<le> m" using nonce_size [OF assms(2)] by blast
  then have "sio_nonce cr k = Inr (length ?nonce)"
    by (simp add: item_nonce_def nonce_bytes_def le64_def)
  then have "Reader_NextStream c cr (reader (Some k) (wires c [(blockEncStream, stream_head c name extra @ put_bytes c ?nonce)] @ ?d)) =
      NextStream (reader (Some k) ?d\<lparr>r_inStream := True\<rparr>)
        \<lparr>st_Reader = Decrypt k ?nonce opened, st_Name = name, st_Extra = extra, st_SentEncrypted = True\<rparr>"
    using assms(2,3) by (intro NextStream_enc) simp_all
  moreover have "drain (length ?d + 2) c cr len opened (reader (Some k) ?d\<lparr>r_inStream := True\<rparr>) =
      Some (reader (Some k) rest, concat (seal cr k ?nonce bs), EOF)"
    using assms by (intro drain_opened) simp_all
  ultimately show ?thesis by (simp add: read_stream_def del: drain.simps)
qed

lemma read_items_wire:
  assumes "0 < len"
  shows "items_ok pub key its \<Longrightarrow> \<forall>k. key = Some k \<longrightarrow> length k = 32 \<Longrightarrow> blocks_fit (items_blocks c cr key n its) \<Longrightarrow>
    length (concat (map item_contents its)) < fuel \<Longrightarrow>
    read_items fuel c cr len (reader key (wires c (items_blocks c cr key n its))) =
      Some (concat (map item_contents its), EOF)"
proof (induction its arbitrary: key n fuel)
  case Nil
  then obtain f where "fuel = Suc f" by (cases fuel) auto
  then show ?case using NextStream_eof [of key] by auto
next
  case (Cons it its)
  note prems = Cons.prems
  let ?rest = "wires c (items_blocks c cr (key_after key it) (nonce_after n it) its)"
  have tail: "read_items f c cr len (reader (key_after key it) ?rest) = Some (concat (map item_contents its), EOF)"
    if "length (concat (map item_contents its)) < f" for f
    using that prems key_after_length [OF prems(1,2)] by (intro Cons.IH) auto
  obtain f where f: "fuel = Suc f" using prems(4) by (cases fuel) auto
  show ?case
  proof (cases it)
    case (ItemPlainKey k)
    then show ?thesis
      using tail [of fuel] prems read_items_key [OF NextStream_plain_key [of k ?rest key], of fuel len]
      by simp
  next
    case (ItemKey k seed p)
    then obtain ct where ct: "rsa_enc cr seed p k = Inr ct" "rsa_dec cr priv ct = Inr k"
      using prems(1) rsa by fastforce
    then show ?thesis
      using ItemKey tail [of fuel] prems
        read_items_key [OF NextStream_key [of k ct "marshal_pub cr p" ?rest key], of fuel len] by simp
  next
    case (ItemPlain name extra bs)
    then show ?thesis
      using tail [of f] prems f read_items_plain [OF assms, of "key_or_nil key" n name extra bs f ?rest key] by simp
  next
    case (ItemEnc name extra bs)
    then obtain k where k: "key = Some k" "length k = 32" using prems by auto
    then show ?thesis
      using tail [of f] prems f ItemEnc read_items_enc [OF assms k(2), of n name extra bs f ?rest] by simp
  qed
qed

lemma wires_length: "length bs \<le> length (wires c bs)"
proof (induction bs)
  case (Cons b bs)
  obtain i x where b: "b = (i, x)" by (cases b)
  have "length r < length (put_int8 c i @ r)" for r
    using shrink(1) [of "put_int8 c i @ r" i r] by simp
  from this [of "[]"] obtain y ys where "put_int8 c i = y # ys" by (cases "put_int8 c i") auto
  then show ?case using Cons b by (simp add: wire_def)
qed simp

lemma contents_blocks: "length (concat (map item_contents its)) \<le> length (items_blocks c cr key n its)"
proof (induction its arbitrary: key n)
  case (Cons it its)
  have "length (item_contents it) \<le> length (item_blocks c cr k n it)" for k by (cases it) simp_all
  then show ?case using Cons [of "key_after key it" "nonce_after n it"] by (simp add: add_mono)
qed simp

lemma file_roundtrip:
  assumes "0 < len" and "items_ok pub None its" and "blocks_fit (items_blocks c cr None 0 its)"
  shows "\<exists>b. write_file c cr its = Some (b, None) \<and>
    read_file c cr len (Some priv) b = Some (concat (map item_contents its), EOF)"
proof -
  let ?w = "wires c (items_blocks c cr None 0 its)"
  have "length (concat (map item_contents its)) < length ([2, 1] @ ?w)"
    using contents_blocks [of its None 0] wires_length [of "items_blocks c cr None 0 its"] by simp
  then have "read_items (length ([2, 1] @ ?w)) c cr len (reader None ?w) = Some (concat (map item_contents its), EOF)"
    using assms by (intro read_items_wire) simp_all
  moreover have "(NewReader ([2, 1] @ ?w) :: err + ('pub, 'priv) Reader) = Inr (reader None ?w\<lparr>r_private := None\<rparr>)"
    by (simp add: NewReader_def ReadFull_def)
  ultimately show ?thesis
    using write_file_mem [OF assms(2)] by (simp add: read_file_def SetPrivateKey_def del: read_items.simps)
qed

text \<open>
  What \<open>setErr\<close> makes of a truncated file: a plaintext stream that is cut after any of its
  blocks reads as a whole stream, and the loop ends with \<open>io.EOF\<close> as if all had been read.
\<close>

lemma cut_file:
  assumes "0 < len" and "blocks_fit (items_blocks c cr None 0 [ItemPlain name extra (bs @ bs')])"
    and w: "write_file c cr [ItemPlain name extra (bs @ bs')] = Some (b, None)"
  shows "\<exists>n < length b. read_file c cr len (Some priv) (take n b) = Some ([(name, extra, False, concat bs)], EOF)"
proof -
  let ?h = "wires c [(blockPlainStream, stream_head c name extra)]"
  let ?cut = "[2, 1] @ ?h @ wires c (data bs)"
  obtain rest where b: "b = ?cut @ rest" "rest \<noteq> []"
  proof
    let ?rest = "wires c (data bs') @ wires c [(blockEOS, put_bytes c (xxsum cr (concat (bs @ bs'))))] @ wires c [(blockEOF, [])]"
    show "b = ?cut @ ?rest"
      using w write_file_mem [of "[ItemPlain name extra (bs @ bs')]"] by (simp add: data_blocks_def)
    show "?rest \<noteq> []"
      using wires_length [of "[(blockEOF, [])]"] by (auto simp del: wires_simps)
  qed
  then have take: "take (length ?cut) b = ?cut" "length ?cut < length b" by simp_all
  have fit: "blocks_fit [(blockPlainStream, stream_head c name extra)]" "blocks_fit (data bs)"
    using assms(2) by (simp_all add: data_blocks_def)
  have "drain (length (wires c (data bs)) + 2) c cr len opened (reader None (wires c (data bs))\<lparr>r_inStream := True\<rparr>) =
      Some (reader None []\<lparr>r_inStream := True, r_err := Some EOF\<rparr>, concat bs, EOF)"
    using drain_cut [OF assms(1) fit(2), of "length (wires c (data bs)) + 2" "reader None []" cr] data_length [of bs]
    by (simp del: drain.simps)
  then have "read_items (Suc (Suc f)) c cr len (reader None (?h @ wires c (data bs))) =
      Some ([(name, extra, False, concat bs)], EOF)" for f
    using NextStream_plain [OF fit(1), of "wires c (data bs)" None]
    by (simp add: read_stream_def NextStream_sticky del: drain.simps)
  moreover obtain f where "length ?cut = Suc (Suc f)" by simp
  moreover have "(NewReader ?cut :: err + ('pub, 'priv) Reader) =
      Inr (reader None (?h @ wires c (data bs))\<lparr>r_private := None\<rparr>)"
    by (simp add: NewReader_def ReadFull_def)
  ultimately have "read_file c cr len (Some priv) ?cut = Some ([(name, extra, False, concat bs)], EOF)"
    by (simp only: read_file_def SetPrivateKey_def sum.case) simp
  then show ?thesis using take by metis
qed

end

end
