(* ===== verification/Estream_Replace.thy ===== *)
theory Estream_Replace
  imports Estream_Roundtrip
begin

text \<open>
  \<open>ReplaceKeys\<close> of \<open>estream/stream.go\<close>: the blocks of a stream are copied, and the keys among
  them are encrypted with another public key. The output goes through a \<open>msgp.Writer\<close>, a buffered
  writer of another module, which is the argument \<open>mw\<close>.
\<close>

subsection \<open>The buffered writer\<close>

text \<open>
  \<open>mw_new\<close> is \<open>msgp.NewWriter(w)\<close> on the state of \<open>w\<close>, \<open>mw_write\<close> hands it encoded bytes, \<open>mw_flush\<close> is
  \<open>Flush\<close>, and \<open>mw_under\<close> is the state of \<open>w\<close>, which lacks what has not been flushed.
\<close>

record ('s, 'm) mwriter =
  mw_new :: "'s \<Rightarrow> 'm"
  mw_write :: "bytes \<Rightarrow> 'm \<Rightarrow> 'm \<times> err option"
  mw_flush :: "'m \<Rightarrow> 'm \<times> err option"
  mw_under :: "'m \<Rightarrow> 's"

text \<open>What it promises on a writer to memory: \<open>acc\<close> is all it has accepted, in order.\<close>

definition mwriter_acc :: "(bytes, 'm) mwriter \<Rightarrow> ('m \<Rightarrow> bytes) \<Rightarrow> bool" where
  "mwriter_acc mw acc \<longleftrightarrow> (\<forall>s. acc (mw_new mw s) = s) \<and>
     (\<forall>b m. snd (mw_write mw b m) = None \<and> acc (fst (mw_write mw b m)) = acc m @ b) \<and>
     (\<forall>m. snd (mw_flush mw m) = None \<and> mw_under mw (fst (mw_flush mw m)) = acc m)"

definition mwriter_ok :: "(bytes, 'm) mwriter \<Rightarrow> bool" where
  "mwriter_ok mw \<longleftrightarrow> (\<exists>acc. mwriter_acc mw acc)"

subsection \<open>ReplaceKeys\<close>

text \<open>
  A public key the replace function returns: nil, the pointer it was called with, or another one.
  The function is called with nil for a key that is not encrypted.
\<close>

datatype 'pub pubref = NilPub | SamePub | OtherPub 'pub

fun deref :: "'pub option \<Rightarrow> 'pub pubref \<Rightarrow> 'pub option" where
  "deref pk NilPub = None"
| "deref pk SamePub = pk"
| "deref pk (OtherPub p) = Some p"

type_synonym ('pub, 'priv) ReplaceFn = "'pub option \<Rightarrow> 'priv option \<times> 'pub pubref"

record ReplaceKeysOptions =
  EncryptAll :: bool
  PassErrors :: bool

text \<open>
  One round of the loop: it returns, panics (a nil public key in \<open>EncryptOAEP\<close>), or goes on. The
  number counts the encryptions, whose randomness is \<open>seeds\<close>.
\<close>

datatype 'm round = Stop 'm "err option" | Panicked | Continue 'm nat

datatype 's replaced = RDiverged | RPanic | Replaced 's "err option"

definition writeBlock :: "codec \<Rightarrow> ('s, 'm) mwriter \<Rightarrow> blockID \<Rightarrow> u32 \<Rightarrow> bytes \<Rightarrow> 'm \<Rightarrow> 'm \<times> err option" where
  "writeBlock c mw i sz content m = (case mw_write mw (put_int8 c i) m of
     (m, Some e) \<Rightarrow> (m, Some e)
   | (m, None) \<Rightarrow> (case mw_write mw (put_u32 c sz) m of
       (m, Some e) \<Rightarrow> (m, Some e)
     | (m, None) \<Rightarrow> mw_write mw content m))"

definition copy_block :: "codec \<Rightarrow> ('s, 'm) mwriter \<Rightarrow> blockID \<Rightarrow> u32 \<Rightarrow> bytes \<Rightarrow> 'm \<Rightarrow> nat \<Rightarrow> 'm round" where
  "copy_block c mw i sz block m k = (case writeBlock c mw i sz block m of
     (m, Some e) \<Rightarrow> Stop m (Some e) | (m, None) \<Rightarrow> Continue m k)"

definition copy_last :: "codec \<Rightarrow> ('s, 'm) mwriter \<Rightarrow> blockID \<Rightarrow> u32 \<Rightarrow> bytes \<Rightarrow> 'm \<Rightarrow> 'm round" where
  "copy_last c mw i sz block m = (case writeBlock c mw i sz block m of
     (m, Some e) \<Rightarrow> Stop m (Some e)
   | (m, None) \<Rightarrow> (let (m, e) = mw_flush mw m in Stop m e))"

text \<open>The end of both key cases: check the length, encrypt, write the block.\<close>

definition reencrypt :: "codec \<Rightarrow> ('pub, 'priv, 'es) crypto \<Rightarrow> ('s, 'm) mwriter \<Rightarrow> nat \<Rightarrow> 'pub option \<Rightarrow> bytes \<Rightarrow>
  'm \<Rightarrow> nat \<Rightarrow> 'm round" where
  "reencrypt c cr mw seed public key m k =
    (if length key \<noteq> 32 then Stop m (Some (ErrorText ''unexpected key length''))
     else (case public of None \<Rightarrow> Panicked
       | Some public \<Rightarrow> (case rsa_enc cr seed public key of Inl e \<Rightarrow> Stop m (Some e)
         | Inr cipherKey \<Rightarrow>
             (let tmp = put_bytes c (marshal_pub cr public);
                  tmp = tmp @ put_bytes c cipherKey
              in copy_block c mw blockEncryptedKey (of_nat (length tmp)) tmp m (Suc k)))))"

definition replace_encrypted :: "codec \<Rightarrow> ('pub, 'priv, 'es) crypto \<Rightarrow> ('s, 'm) mwriter \<Rightarrow> ('pub, 'priv) ReplaceFn \<Rightarrow>
  (nat \<Rightarrow> nat) \<Rightarrow> blockID \<Rightarrow> u32 \<Rightarrow> bytes \<Rightarrow> 'm \<Rightarrow> nat \<Rightarrow> 'm round" where
  "replace_encrypted c cr mw replace seeds i sz ogBlock m k = (case cut_bytes c ogBlock of Inl e \<Rightarrow> Stop m (Some e)
     | Inr (publicKey, block) \<Rightarrow> (case parse_pub cr publicKey of Inl e \<Rightarrow> Stop m (Some e)
     | Inr pk \<Rightarrow>
         (let (private, public) = replace (Some pk);
              (m, e) = (if private = None \<and> public = SamePub then writeBlock c mw i sz ogBlock m else (m, None))
          in case e of Some e \<Rightarrow> Stop m (Some e)
             | None \<Rightarrow> (case private of
                 None \<Rightarrow> Stop m (Some (ErrorText ''no private key provided, unable to re-encrypt''))
               | Some private \<Rightarrow> (case cut_bytes c block of Inl e \<Rightarrow> Stop m (Some e)
                 | Inr (cipherKey, _) \<Rightarrow> (case rsa_dec cr private cipherKey of Inl e \<Rightarrow> Stop m (Some e)
                   | Inr key \<Rightarrow> reencrypt c cr mw (seeds k) (deref (Some pk) public) key m k))))))"

definition replace_plain :: "codec \<Rightarrow> ('pub, 'priv, 'es) crypto \<Rightarrow> ('s, 'm) mwriter \<Rightarrow> ('pub, 'priv) ReplaceFn \<Rightarrow>
  ReplaceKeysOptions \<Rightarrow> (nat \<Rightarrow> nat) \<Rightarrow> blockID \<Rightarrow> u32 \<Rightarrow> bytes \<Rightarrow> 'm \<Rightarrow> nat \<Rightarrow> 'm round" where
  "replace_plain c cr mw replace opts seeds i sz block m k =
    (if \<not> EncryptAll opts then copy_block c mw i sz block m k
     else
       let (_, public) = replace None
       in case deref None public of None \<Rightarrow> copy_block c mw i sz block m k
          | Some public \<Rightarrow> (case cut_bytes c block of Inl e \<Rightarrow> Stop m (Some e)
            | Inr (key, _) \<Rightarrow> reencrypt c cr mw (seeds k) (Some public) key m k))"

definition replace_block :: "codec \<Rightarrow> ('pub, 'priv, 'es) crypto \<Rightarrow> ('s, 'm) mwriter \<Rightarrow> ('pub, 'priv) ReplaceFn \<Rightarrow>
  ReplaceKeysOptions \<Rightarrow> (nat \<Rightarrow> nat) \<Rightarrow> blockID \<Rightarrow> u32 \<Rightarrow> bytes \<Rightarrow> 'm \<Rightarrow> nat \<Rightarrow> 'm round" where
  "replace_block c cr mw replace opts seeds i sz block m k =
    (if i = blockEncryptedKey then replace_encrypted c cr mw replace seeds i sz block m k
     else if i = blockPlainKey then replace_plain c cr mw replace opts seeds i sz block m k
     else if i = blockEOF then copy_last c mw i sz block m
     else if i = blockError then
       (if PassErrors opts then copy_last c mw i sz block m
        else (case cut_str c block of Inl e \<Rightarrow> Stop m (Some e) | Inr (msg, _) \<Rightarrow> Stop m (Some (Recorded msg))))
     else copy_block c mw i sz block m k)"

fun replace_loop :: "nat \<Rightarrow> codec \<Rightarrow> ('pub, 'priv, 'es) crypto \<Rightarrow> ('s, 'm) mwriter \<Rightarrow> ('pub, 'priv) ReplaceFn \<Rightarrow>
  ReplaceKeysOptions \<Rightarrow> (nat \<Rightarrow> nat) \<Rightarrow> bytes \<Rightarrow> 'm \<Rightarrow> nat \<Rightarrow> 's replaced" where
  "replace_loop 0 c cr mw replace opts seeds b m k = RDiverged"
| "replace_loop (Suc fuel) c cr mw replace opts seeds b m k =
    (case get_header c b of Inl e \<Rightarrow> Replaced (mw_under mw m) (Some e)
     | Inr (n, sz, b) \<Rightarrow> (case ReadFull sz b of Inl e \<Rightarrow> Replaced (mw_under mw m) (Some e)
       | Inr (block, b) \<Rightarrow> (case replace_block c cr mw replace opts seeds n (of_nat sz) block m k of
           Stop m e \<Rightarrow> Replaced (mw_under mw m) e
         | Panicked \<Rightarrow> RPanic
         | Continue m k \<Rightarrow> replace_loop fuel c cr mw replace opts seeds b m k)))"

text \<open>The input \<open>b\<close> is what is left in \<open>r\<close>, \<open>s\<close> is the state of \<open>w\<close>. Every round takes bytes from the
  input, so its length bounds the rounds.\<close>

definition ReplaceKeys :: "codec \<Rightarrow> ('pub, 'priv, 'es) crypto \<Rightarrow> 's sink \<Rightarrow> ('s, 'm) mwriter \<Rightarrow>
  ('pub, 'priv) ReplaceFn \<Rightarrow> ReplaceKeysOptions \<Rightarrow> (nat \<Rightarrow> nat) \<Rightarrow> bytes \<Rightarrow> 's \<Rightarrow> 's replaced" where
  "ReplaceKeys c cr sink mw replace opts seeds b s = (case ReadFull 2 b of Inl e \<Rightarrow> Replaced s (Some e)
     | Inr (ver, b) \<Rightarrow>
         if ver ! 0 \<noteq> 2 then Replaced s (Some (ErrorText ''unknown stream version''))
         else (case sink s ver of
           (s, Some e) \<Rightarrow> Replaced s (Some e)
         | (s, None) \<Rightarrow> replace_loop (Suc (length b)) c cr mw replace opts seeds b (mw_new mw s) 0))"

subsection \<open>Every call returns\<close>

lemma replace_loop_returns:
  assumes "codec_ok c"
  shows "length b < fuel \<Longrightarrow> replace_loop fuel c cr mw replace opts seeds b m k \<noteq> RDiverged"
proof (induction fuel arbitrary: b m k)
  case (Suc fuel)
  have "length b2 < fuel" if "get_header c b = Inr (n, sz, b1)" "ReadFull sz b1 = Inr (x, b2)" for n sz b1 x b2
    using get_header_shrink [OF assms that(1)] ReadFull_shrink [OF that(2)] Suc.prems by simp
  then show ?case using Suc.IH by (simp split: sum.split prod.split round.split)
qed simp

lemma ReplaceKeys_returns:
  "codec_ok c \<Longrightarrow> ReplaceKeys c cr sink mw replace opts seeds b s \<noteq> RDiverged"
  by (simp add: ReplaceKeys_def replace_loop_returns del: replace_loop.simps split: sum.split prod.split option.split)

subsection \<open>The file with other keys\<close>

text \<open>What a client would have written to get the new file.\<close>

fun rekey :: "bool \<Rightarrow> 'pub \<Rightarrow> (nat \<Rightarrow> nat) \<Rightarrow> nat \<Rightarrow> 'pub item list \<Rightarrow> 'pub item list" where
  "rekey enc_all pub seeds k [] = []"
| "rekey enc_all pub seeds k (ItemKey key seed p # its) = ItemKey key (seeds k) pub # rekey enc_all pub seeds (Suc k) its"
| "rekey enc_all pub seeds k (ItemPlainKey key # its) =
    (if enc_all then ItemKey key (seeds k) pub # rekey enc_all pub seeds (Suc k) its
     else ItemPlainKey key # rekey enc_all pub seeds k its)"
| "rekey enc_all pub seeds k (it # its) = it # rekey enc_all pub seeds k its"

lemma rekey_contents: "concat (map item_contents (rekey enc_all pub seeds k its)) = concat (map item_contents its)"
  by (induction enc_all pub seeds k its rule: rekey.induct) simp_all

lemma rekey_items_ok: "items_ok pub key its \<Longrightarrow> items_ok pub' key (rekey enc_all pub' seeds k its)"
  by (induction enc_all pub' seeds k its arbitrary: key rule: rekey.induct) auto

lemma rekey_items_blocks:
  "items_blocks c cr key n (rekey enc_all pub seeds k (it # its)) =
   item_blocks c cr (case key of Some x \<Rightarrow> x | None \<Rightarrow> []) n
     (case it of ItemKey x _ _ \<Rightarrow> ItemKey x (seeds k) pub
       | ItemPlainKey x \<Rightarrow> if enc_all then ItemKey x (seeds k) pub else it | _ \<Rightarrow> it)
   @ items_blocks c cr (key_after key it) (nonce_after n it) (rekey enc_all pub seeds
       (case it of ItemKey _ _ _ \<Rightarrow> Suc k | ItemPlainKey _ \<Rightarrow> if enc_all then Suc k else k | _ \<Rightarrow> k) its)"
  by (cases it) simp_all

text \<open>Blocks that \<open>ReplaceKeys\<close> copies, whatever the replace function is.\<close>

definition copied :: "blockID \<Rightarrow> bool" where
  "copied i \<longleftrightarrow> i \<notin> {blockEncryptedKey, blockPlainKey, blockEOF, blockError}"

lemma stream_blocks_copied:
  "(i, b) \<in> set (item_blocks c cr key n (ItemPlain name extra bs)) \<Longrightarrow> copied i"
  "(i, b) \<in> set (item_blocks c cr key n (ItemEnc name extra bs)) \<Longrightarrow> copied i"
  by (auto simp: data_blocks_def copied_def block_ids)

locale replacing = msgp c for c +
  fixes cr :: "('pub, 'priv, 'es) crypto" and mw :: "(bytes, 'm) mwriter" and acc :: "'m \<Rightarrow> bytes"
    and replace :: "('pub, 'priv) ReplaceFn" and opts :: ReplaceKeysOptions and seeds :: "nat \<Rightarrow> nat"
  assumes mw: "mwriter_acc mw acc"
begin

abbreviation loop :: "nat \<Rightarrow> bytes \<Rightarrow> 'm \<Rightarrow> nat \<Rightarrow> bytes replaced" where
  "loop fuel \<equiv> replace_loop fuel c cr mw replace opts seeds"

lemma write_ok: "\<exists>m'. mw_write mw b m = (m', None) \<and> acc m' = acc m @ b"
  using mw by (metis mwriter_acc_def prod.collapse)

lemma writeBlock_ok: "\<exists>m'. writeBlock c mw i (of_nat (length b)) b m = (m', None) \<and> acc m' = acc m @ wire c i b"
proof -
  obtain m1 where 1: "mw_write mw (put_int8 c i) m = (m1, None)" "acc m1 = acc m @ put_int8 c i"
    using write_ok by blast
  obtain m2 where 2: "mw_write mw (put_u32 c (of_nat (length b))) m1 = (m2, None)"
      "acc m2 = acc m1 @ put_u32 c (of_nat (length b))" using write_ok by blast
  obtain m3 where 3: "mw_write mw b m2 = (m3, None)" "acc m3 = acc m2 @ b" using write_ok by blast
  show ?thesis using 1 2 3 by (simp add: writeBlock_def wire_def)
qed

lemma copy_block_ok: "\<exists>m'. copy_block c mw i (of_nat (length b)) b m k = Continue m' k \<and> acc m' = acc m @ wire c i b"
  using writeBlock_ok [of i b m] by (auto simp: copy_block_def)

lemma copy_last_ok: "\<exists>m'. copy_last c mw i (of_nat (length b)) b m = Stop m' None \<and> mw_under mw m' = acc m @ wire c i b"
proof -
  obtain m1 where "writeBlock c mw i (of_nat (length b)) b m = (m1, None)" "acc m1 = acc m @ wire c i b"
    using writeBlock_ok by blast
  moreover obtain m2 e where "mw_flush mw m1 = (m2, e)" by fastforce
  then have "mw_flush mw m1 = (m2, None)" "mw_under mw m2 = acc m1"
    using mw by (auto simp: mwriter_acc_def dest: spec [of _ m1])
  ultimately show ?thesis by (simp add: copy_last_def)
qed

text \<open>One block from the input.\<close>

lemma loop_wire:
  "length b < 4294967296 \<Longrightarrow> loop (Suc fuel) (wire c i b @ rest) m k =
     (case replace_block c cr mw replace opts seeds i (of_nat (length b)) b m k of
        Stop m e \<Rightarrow> Replaced (mw_under mw m) e | Panicked \<Rightarrow> RPanic | Continue m k \<Rightarrow> loop fuel rest m k)"
  by (simp add: get_header_wire)

lemma loop_copied:
  "blocks_fit bs \<Longrightarrow> (\<And>i b. (i, b) \<in> set bs \<Longrightarrow> copied i) \<Longrightarrow>
   \<exists>m'. loop (length bs + fuel) (wires c bs @ rest) m k = loop fuel rest m' k \<and> acc m' = acc m @ wires c bs"
proof (induction bs arbitrary: m)
  case Nil
  then show ?case by (intro exI [of _ m]) simp
next
  case (Cons x bs)
  obtain i b where x: "x = (i, b)" by (cases x)
  obtain m1 where m1: "copy_block c mw i (of_nat (length b)) b m k = Continue m1 k" "acc m1 = acc m @ wire c i b"
    using copy_block_ok by blast
  have "copied i" using Cons.prems(2) [of i b] x by simp
  then have "replace_block c cr mw replace opts seeds i (of_nat (length b)) b m k = Continue m1 k"
    using m1(1) by (simp add: replace_block_def copied_def)
  then have step: "loop (length (x # bs) + fuel) (wires c (x # bs) @ rest) m k = loop (length bs + fuel) (wires c bs @ rest) m1 k"
    using loop_wire [of b "length bs + fuel" i "wires c bs @ rest" m k] Cons.prems(1) x by simp
  have "\<exists>m'. loop (length bs + fuel) (wires c bs @ rest) m1 k = loop fuel rest m' k \<and> acc m' = acc m1 @ wires c bs"
    using Cons.prems by (intro Cons.IH) (auto simp: x)
  then show ?case using step m1(2) x by simp
qed

lemma loop_eof: "loop (Suc fuel) (wire c blockEOF []) m k = Replaced (acc m @ wire c blockEOF []) None"
proof -
  obtain m' where "copy_last c mw blockEOF 0 [] m = Stop m' None" "mw_under mw m' = acc m @ wire c blockEOF []"
    using copy_last_ok [of blockEOF "[]" m] by auto
  then show ?thesis using loop_wire [of "[]" fuel blockEOF "[]" m k] by (simp add: replace_block_def block_ids)
qed

lemma reencrypt_ok:
  "length key = 32 \<Longrightarrow> rsa_enc cr (seeds k) p key = Inr ct \<Longrightarrow>
   \<exists>m'. reencrypt c cr mw (seeds k) (Some p) key m k = Continue m' (Suc k) \<and>
     acc m' = acc m @ wire c blockEncryptedKey (put_bytes c (marshal_pub cr p) @ put_bytes c ct)"
  using copy_block_ok [of blockEncryptedKey "put_bytes c (marshal_pub cr p) @ put_bytes c ct" m "Suc k"]
  by (simp add: reencrypt_def Let_def)

text \<open>Whole files: the blocks of the items become those of the re-keyed items.\<close>

lemma loop_item:
  assumes "crypto_ok cr pub priv" and "crypto_ok cr pub' priv'" and "parse_pub cr (marshal_pub cr pub) = Inr pub"
    and "replace (Some pub) = (Some priv, OtherPub pub')"
    and "EncryptAll opts \<longrightarrow> deref None (snd (replace None)) = Some pub'"
    and "items_ok pub key [it]" and "blocks_fit (item_blocks c cr kk n it)"
    and it': "it' = (case it of ItemKey x _ _ \<Rightarrow> ItemKey x (seeds k) pub'
       | ItemPlainKey x \<Rightarrow> if EncryptAll opts then ItemKey x (seeds k) pub' else it | _ \<Rightarrow> it)"
    and k': "k' = (case it of ItemKey _ _ _ \<Rightarrow> Suc k | ItemPlainKey _ \<Rightarrow> if EncryptAll opts then Suc k else k | _ \<Rightarrow> k)"
  shows "\<exists>m'. loop (length (item_blocks c cr kk n it) + fuel) (wires c (item_blocks c cr kk n it) @ rest) m k = loop fuel rest m' k'
    \<and> acc m' = acc m @ wires c (item_blocks c cr kk n it')"
proof (cases it)
  case (ItemPlainKey x)
  have fit: "length (put_bytes c x) < 4294967296" and x: "length x = 32" using assms(6,7) ItemPlainKey by simp_all
  show ?thesis
  proof (cases "EncryptAll opts")
    case True
    then obtain r q where r: "replace None = (r, OtherPub pub')"
      using assms(5) by (cases "replace None"; cases "snd (replace None)") auto
    obtain ct where ct: "rsa_enc cr (seeds k) pub' x = Inr ct" using assms(2) x unfolding crypto_ok_def by blast
    show ?thesis
      using loop_wire [OF fit, of fuel blockPlainKey rest m k] reencrypt_ok [OF x ct, of m] ct r x True it' k' ItemPlainKey
      by (auto simp: replace_block_def replace_plain_def block_ids)
  next
    case False
    show ?thesis
      using loop_wire [OF fit, of fuel blockPlainKey rest m k] copy_block_ok [of blockPlainKey "put_bytes c x" m k] False
        it' k' ItemPlainKey
      by (auto simp: replace_block_def replace_plain_def block_ids)
  qed
next
  case (ItemKey x seed p)
  then have x: "length x = 32" and p: "p = pub" using assms(6) by simp_all
  obtain ct where ct: "rsa_enc cr seed pub x = Inr ct" "rsa_dec cr priv ct = Inr x"
    using assms(1) x unfolding crypto_ok_def by blast
  obtain ct' where ct': "rsa_enc cr (seeds k) pub' x = Inr ct'" using assms(2) x unfolding crypto_ok_def by blast
  let ?b = "put_bytes c (marshal_pub cr pub) @ put_bytes c ct"
  have fit: "length ?b < 4294967296" using assms(7) ItemKey p ct by simp
  then have cut: "length (marshal_pub cr pub) < 4294967296" "length ct < 4294967296"
    using grow(1) [of "marshal_pub cr pub" 4294967296] grow(1) [of ct 4294967296] by simp_all
  show ?thesis
    using loop_wire [OF fit, of fuel blockEncryptedKey rest m k] reencrypt_ok [OF x ct', of m] ct ct' cut assms(3,4)
      it' k' ItemKey p
    by (auto simp: replace_block_def replace_encrypted_def block_ids)
next
  case (ItemPlain name extra bs)
  then obtain m' where "loop (length (item_blocks c cr kk n it) + fuel) (wires c (item_blocks c cr kk n it) @ rest) m k =
      loop fuel rest m' k" "acc m' = acc m @ wires c (item_blocks c cr kk n it)"
    using loop_copied [OF assms(7), of fuel rest m k] stream_blocks_copied(1) by blast
  moreover have "it' = it" "k' = k" using it' k' ItemPlain by simp_all
  ultimately show ?thesis by blast
next
  case (ItemEnc name extra bs)
  then obtain m' where "loop (length (item_blocks c cr kk n it) + fuel) (wires c (item_blocks c cr kk n it) @ rest) m k =
      loop fuel rest m' k" "acc m' = acc m @ wires c (item_blocks c cr kk n it)"
    using loop_copied [OF assms(7), of fuel rest m k] stream_blocks_copied(2) by blast
  moreover have "it' = it" "k' = k" using it' k' ItemEnc by simp_all
  ultimately show ?thesis by blast
qed

lemma loop_items:
  assumes "crypto_ok cr pub priv" and "crypto_ok cr pub' priv'" and "parse_pub cr (marshal_pub cr pub) = Inr pub"
    and "replace (Some pub) = (Some priv, OtherPub pub')"
    and "EncryptAll opts \<longrightarrow> deref None (snd (replace None)) = Some pub'"
  shows "items_ok pub key its \<Longrightarrow> blocks_fit (items_blocks c cr key n its) \<Longrightarrow>
    loop (length (items_blocks c cr key n its) + fuel) (wires c (items_blocks c cr key n its)) m k =
      Replaced (acc m @ wires c (items_blocks c cr key n (rekey (EncryptAll opts) pub' seeds k its))) None"
proof (induction its arbitrary: key n m k fuel)
  case Nil
  then show ?case using loop_eof [of fuel m k] by simp
next
  case (Cons it its)
  let ?kk = "case key of Some x \<Rightarrow> x | None \<Rightarrow> []"
  let ?bs = "item_blocks c cr ?kk n it"
  let ?rest = "items_blocks c cr (key_after key it) (nonce_after n it) its"
  have "items_ok pub key [it]" "blocks_fit ?bs" using Cons.prems by simp_all
  from loop_item [OF assms this refl refl, of "length ?rest + fuel" "wires c ?rest" m k]
  obtain m' where m': "loop (length ?bs + (length ?rest + fuel)) (wires c ?bs @ wires c ?rest) m k =
      loop (length ?rest + fuel) (wires c ?rest) m' (case it of ItemKey _ _ _ \<Rightarrow> Suc k
        | ItemPlainKey _ \<Rightarrow> if EncryptAll opts then Suc k else k | _ \<Rightarrow> k)"
    "acc m' = acc m @ wires c (item_blocks c cr ?kk n (case it of ItemKey x _ _ \<Rightarrow> ItemKey x (seeds k) pub'
       | ItemPlainKey x \<Rightarrow> if EncryptAll opts then ItemKey x (seeds k) pub' else it | _ \<Rightarrow> it))" by blast
  show ?case
    using m' Cons.IH [of "key_after key it" "nonce_after n it" fuel m'] Cons.prems
    by (simp only: rekey_items_blocks items_blocks.simps wires_simps length_append add.assoc append_assoc items_ok.simps
      blocks_fit_simps simp_thms)
qed

text \<open>A public key that should stay, without a private key: the block is copied, and then it is an error.\<close>

lemma loop_keep_key:
  assumes "length (put_bytes c (marshal_pub cr p) @ put_bytes c ct) < 4294967296"
    and "parse_pub cr (marshal_pub cr p) = Inr p" and "replace (Some p) = (None, SamePub)"
  shows "\<exists>s. loop (Suc fuel) (wire c blockEncryptedKey (put_bytes c (marshal_pub cr p) @ put_bytes c ct) @ rest) m k =
    Replaced s (Some (ErrorText ''no private key provided, unable to re-encrypt''))"
proof -
  let ?b = "put_bytes c (marshal_pub cr p) @ put_bytes c ct"
  have "length (marshal_pub cr p) < 4294967296" using assms(1) grow(1) [of "marshal_pub cr p" 4294967296] by simp
  then have "cut_bytes c ?b = Inr (marshal_pub cr p, put_bytes c ct)" by simp
  moreover obtain m' where "writeBlock c mw blockEncryptedKey (of_nat (length ?b)) ?b m = (m', None)"
    using writeBlock_ok by blast
  ultimately show ?thesis
    using loop_wire [OF assms(1), of fuel blockEncryptedKey rest m k] assms(2,3)
    by (simp add: replace_block_def replace_encrypted_def)
qed

lemma ReplaceKeys_mem: "[2, v] @ w = b \<Longrightarrow>
  \<exists>m. ReplaceKeys c cr mem mw replace opts seeds b [] = loop (Suc (length w)) w m 0 \<and> acc m = [2, v]"
  using mw by (intro exI [of _ "mw_new mw [2, v]"])
    (auto simp: ReplaceKeys_def ReadFull_def mem_def mwriter_acc_def simp del: replace_loop.simps)

end

text \<open>
  The output is the file that the client of the writer would have written with the other key; so
  the reader with the other private key finds in it what was in the file.
\<close>

lemma ReplaceKeys_file:
  assumes c: "codec_ok c" and mw: "mwriter_ok mw"
    and old: "crypto_ok cr pub priv" and new: "crypto_ok cr pub' priv'"
    and pk: "parse_pub cr (marshal_pub cr pub) = Inr pub"
    and replace: "replace (Some pub) = (Some priv, OtherPub pub')"
      "EncryptAll opts \<longrightarrow> deref None (snd (replace None)) = Some pub'"
    and its: "items_ok pub None its" "blocks_fit (items_blocks c cr None 0 its)"
  shows "\<exists>b b'. write_file c cr its = Some (b, None) \<and>
    ReplaceKeys c cr mem mw replace opts seeds b [] = Replaced b' None \<and>
    write_file c cr (rekey (EncryptAll opts) pub' seeds 0 its) = Some (b', None)"
proof -
  obtain acc where acc: "mwriter_acc mw acc" using mw by (auto simp: mwriter_ok_def)
  have r: "replacing c mw acc" by unfold_locales (rule c, rule acc)
  have e: "estream c cr pub priv" "estream c cr pub' priv'" by (unfold_locales; rule c old new)+
  let ?bs = "items_blocks c cr None 0 its"
  let ?b = "[2, 1] @ wires c ?bs"
  obtain m where m: "ReplaceKeys c cr mem mw replace opts seeds ?b [] =
      replace_loop (Suc (length (wires c ?bs))) c cr mw replace opts seeds (wires c ?bs) m 0" "acc m = [2, 1]"
    using replacing.ReplaceKeys_mem [OF r refl] by blast
  have "Suc (length (wires c ?bs)) = length ?bs + (Suc (length (wires c ?bs)) - length ?bs)"
    using estream.wires_length [OF e(1), of ?bs] by simp
  then have "ReplaceKeys c cr mem mw replace opts seeds ?b [] =
      Replaced ([2, 1] @ wires c (items_blocks c cr None 0 (rekey (EncryptAll opts) pub' seeds 0 its))) None"
    using replacing.loop_items [OF r old new pk replace its, where fuel = "Suc (length (wires c ?bs)) - length ?bs" and m = m and k = 0 and seeds = seeds] m
    by (simp del: replace_loop.simps)
  then show ?thesis
    using estream.write_file_mem [OF e(1) its(1)] estream.write_file_mem [OF e(2) rekey_items_ok [OF its(1)]] by simp
qed

lemma ReplaceKeys_keep_key:
  assumes c: "codec_ok c" and mw: "mwriter_ok mw" and old: "crypto_ok cr pub priv"
    and pk: "parse_pub cr (marshal_pub cr pub) = Inr pub" and replace: "replace (Some pub) = (None, SamePub)"
    and its: "items_ok pub None (ItemKey key seed pub # its)" "blocks_fit (items_blocks c cr None 0 (ItemKey key seed pub # its))"
  shows "\<exists>b s. write_file c cr (ItemKey key seed pub # its) = Some (b, None) \<and>
    ReplaceKeys c cr mem mw replace opts seeds b [] =
      Replaced s (Some (ErrorText ''no private key provided, unable to re-encrypt''))"
proof -
  obtain acc where acc: "mwriter_acc mw acc" using mw by (auto simp: mwriter_ok_def)
  have r: "replacing c mw acc" by unfold_locales (rule c, rule acc)
  have e: "estream c cr pub priv" by (unfold_locales; rule c old)
  obtain ct where ct: "rsa_enc cr seed pub key = Inr ct" using old its(1) unfolding crypto_ok_def by fastforce
  let ?k = "put_bytes c (marshal_pub cr pub) @ put_bytes c ct"
  let ?rest = "wires c (items_blocks c cr (Some key) 0 its)"
  let ?w = "wire c blockEncryptedKey ?k @ ?rest"
  obtain m where m: "ReplaceKeys c cr mem mw replace opts seeds ([2, 1] @ ?w) [] =
      replace_loop (Suc (length ?w)) c cr mw replace opts seeds ?w m 0"
    using replacing.ReplaceKeys_mem [OF r refl] by blast
  have "length ?k < 4294967296" using its(2) ct by simp
  then obtain s where "replace_loop (Suc (length ?w)) c cr mw replace opts seeds ?w m 0 =
      Replaced s (Some (ErrorText ''no private key provided, unable to re-encrypt''))"
    using replacing.loop_keep_key [where c = c and cr = cr and p = pub and ct = ct and mw = mw and acc = acc
      and replace = replace and opts = opts and seeds = seeds and rest = "?rest" and m = m and k = 0 and fuel = "length ?w"]
      r pk replace by blast
  then show ?thesis
    using estream.write_file_mem [OF e its(1)] ct m by (simp del: replace_loop.simps)
qed

end
