(* ===== verification/Estream_Instance.thy ===== *)
theory Estream_Instance
  imports Estream_Replace
begin

text \<open>
  Concrete libraries for \<open>estream/\<close>: the fixed-width MessagePack formats (int 8, uint 8, uint 32,
  bin 32 and str 32) as a codec, an invertible stand-in for the cryptography and a buffered
  writer. They meet the contracts \<open>codec_ok\<close>, \<open>crypto_ok\<close> and \<open>mwriter_ok\<close>, so the round trip is not vacuous, and the examples
  of the properties run on them.
\<close>

subsection \<open>MessagePack\<close>

definition be32 :: "u32 \<Rightarrow> bytes" where
  "be32 n = [ucast (drop_bit 24 n), ucast (drop_bit 16 n), ucast (drop_bit 8 n), ucast n]"

definition un32 :: "byte \<Rightarrow> byte \<Rightarrow> byte \<Rightarrow> byte \<Rightarrow> u32" where
  "un32 a b c d = ucast a * 16777216 + ucast b * 65536 + ucast c * 256 + ucast d"

fun get_fixed8 :: "byte \<Rightarrow> bytes \<Rightarrow> err + byte \<times> bytes" where
  "get_fixed8 t [] = Inl EOF"
| "get_fixed8 t [x] = Inl (if x = t then EOF else LibError 1)"
| "get_fixed8 t (x # y # r) = (if x = t then Inr (y, r) else Inl (LibError 1))"

fun get_fixed32 :: "byte \<Rightarrow> bytes \<Rightarrow> err + u32 \<times> bytes" where
  "get_fixed32 t [] = Inl EOF"
| "get_fixed32 t (x # a # b # c # d # r) = (if x = t then Inr (un32 a b c d, r) else Inl (LibError 1))"
| "get_fixed32 t (x # r) = Inl (if x = t then EOF else LibError 1)"

definition get_blob :: "byte \<Rightarrow> bytes \<Rightarrow> err + bytes \<times> bytes" where
  "get_blob t b = (case get_fixed32 t b of Inl e \<Rightarrow> Inl e
     | Inr (n, r) \<Rightarrow> if unat n \<le> length r then Inr (take (unat n) r, drop (unat n) r) else Inl UnexpectedEOF)"

definition put_blob :: "byte \<Rightarrow> bytes \<Rightarrow> bytes" where
  "put_blob t x = t # be32 (of_nat (length x)) @ x"

definition mp :: codec where
  "mp = \<lparr>put_int8 = (\<lambda>x. [0xd0, ucast x]), put_u32 = (\<lambda>x. 0xce # be32 x), put_u8 = (\<lambda>x. [0xcc, x]),
     put_bytes = put_blob 0xc6, put_str = put_blob 0xdb,
     get_int8 = (\<lambda>b. case get_fixed8 0xd0 b of Inl e \<Rightarrow> Inl e | Inr (x, r) \<Rightarrow> Inr (ucast x, r)),
     get_u32 = get_fixed32 0xce, get_bytes = get_blob 0xc6, get_str = get_blob 0xdb,
     cut_u8 = get_fixed8 0xcc, cut_bytes = get_blob 0xc6, cut_str = get_blob 0xdb\<rparr>"

lemma base256:
  assumes "(x::int) < 4294967296" and "0 \<le> x"
  shows "x = x div 16777216 mod 256 * 16777216 + x div 65536 mod 256 * 65536 + x div 256 mod 256 * 256 + x mod 256"
proof -
  have "x div 16777216 < 256" "0 \<le> x div 16777216" using assms by auto
  then have a: "x div 16777216 mod 256 = x div 16777216" by simp
  have d: "x div 65536 div 256 = x div 16777216" "x div 256 div 256 = x div 65536"
    using zdiv_zmult2_eq [of 256 x 65536] zdiv_zmult2_eq [of 256 x 256] by simp_all
  have "x div 16777216 * 256 + x div 65536 mod 256 = x div 65536" "x div 65536 * 256 + x div 256 mod 256 = x div 256"
    "x div 256 * 256 + x mod 256 = x"
    using div_mult_mod_eq [of "x div 65536" 256] div_mult_mod_eq [of "x div 256" 256] d by simp_all
  then show ?thesis unfolding a by linarith
qed

lemma uint_byte: "uint (ucast (drop_bit k n) :: byte) = uint (n :: u32) div 2 ^ k mod 256"
proof -
  have "uint n mod 4294967296 = uint n" using uint_lt2p [of n] by simp
  then show ?thesis
    by (simp add: unsigned_ucast_eq unsigned_drop_bit_eq drop_bit_eq_div [where 'a = int] take_bit_eq_mod [where 'a = int])
qed

lemma un32_be32: "un32 (ucast (drop_bit 24 n)) (ucast (drop_bit 16 n)) (ucast (drop_bit 8 n)) (ucast n) = n"
proof -
  have of_byte: "ucast x = (of_int (uint x) :: u32)" for x :: byte
    by (simp add: word_of_int_eq_iff)
  have b: "uint n < 4294967296" "0 \<le> uint n" using uint_lt2p [of n] by simp_all
  let ?r = "uint n div 16777216 mod 256 * 16777216 + uint n div 65536 mod 256 * 65536 + uint n div 256 mod 256 * 256 + uint n mod 256"
  have "un32 (ucast (drop_bit 24 n)) (ucast (drop_bit 16 n)) (ucast (drop_bit 8 n)) (ucast (drop_bit 0 n)) = of_int ?r"
    unfolding un32_def of_byte uint_byte by simp
  also have "\<dots> = of_int (uint n)" by (subst base256 [OF b, symmetric]) (rule refl)
  finally show ?thesis by simp
qed

lemma get_fixed32_be32 [simp]: "get_fixed32 t (t # be32 n @ r) = Inr (n, r)"
  by (simp add: be32_def un32_be32)

lemma get_put_blob: "length x < 4294967296 \<Longrightarrow> get_blob t (t # be32 (of_nat (length x)) @ x @ r) = Inr (x, r)"
  by (simp add: get_blob_def unat_of_nat)

lemma get_fixed8_shrink: "get_fixed8 t b = Inr (x, r) \<Longrightarrow> length r < length b"
  by (cases "(t, b)" rule: get_fixed8.cases) (auto split: if_splits)

lemma get_fixed32_shrink: "get_fixed32 t b = Inr (x, r) \<Longrightarrow> length r < length b"
  by (cases "(t, b)" rule: get_fixed32.cases) (auto split: if_splits)

lemma get_blob_shrink: "get_blob t b = Inr (x, r) \<Longrightarrow> length x + length r \<le> length b"
  by (auto simp: get_blob_def split: sum.splits if_splits dest!: get_fixed32_shrink)

lemma mp_ok: "codec_ok mp"
  unfolding codec_ok_def
proof (intro conjI allI impI)
  fix b r and x :: i8 assume "get_int8 mp b = Inr (x, r)"
  then show "length r < length b" by (auto simp: mp_def split: sum.splits dest!: get_fixed8_shrink)
next
  fix b r and x :: u32 assume "get_u32 mp b = Inr (x, r)"
  then show "length r \<le> length b" by (auto simp: mp_def dest!: get_fixed32_shrink)
next
  fix b r x assume "get_str mp b = Inr (x, r)"
  then show "length r \<le> length b" using get_blob_shrink [of "0xdb" b] by (simp add: mp_def)
qed (simp_all add: mp_def get_put_blob get_blob_shrink put_blob_def)

interpretation mp: msgp mp
  by unfold_locales (rule mp_ok)

subsection \<open>Cryptography\<close>

definition flip :: "bytes \<Rightarrow> bytes" where
  "flip = map (\<lambda>x. 255 - x)"

definition demo :: "(unit, unit, bytes) crypto" where
  "demo = \<lparr>parse_pub = (\<lambda>_. Inr ()), marshal_pub = (\<lambda>_. [1]),
     rsa_enc = (\<lambda>seed _ m. Inr (of_nat seed # flip m)),
     rsa_dec = (\<lambda>_ ct. case ct of [] \<Rightarrow> Inl (LibError 2) | _ # m \<Rightarrow> Inr (flip m)),
     sio_nonce = (\<lambda>_. Inr 8), es_init = (\<lambda>key nonce. []), es_write = (\<lambda>es b. (es @ b, [])),
     es_close = (\<lambda>es. [flip es]), sio_open = (\<lambda>key nonce b. Inr (flip b)), xxsum = (\<lambda>b. [sum_list b])\<rparr>"

lemma flip_flip [simp]: "flip (flip b) = b"
  by (simp add: flip_def comp_def)

lemma demo_steps: "es_steps demo es bs = (es @ concat bs, [])"
  by (induction bs arbitrary: es) (simp_all add: demo_def)

lemma demo_ok: "crypto_ok demo () ()"
  unfolding crypto_ok_def seal_def demo_steps by (simp add: demo_def)

interpretation demo: estream mp demo "()" "()"
  by unfold_locales (rule demo_ok)

subsection \<open>A buffered writer\<close>

text \<open>What was passed on, and a buffer of at most 2048 bytes.\<close>

definition buffered :: "(bytes, bytes \<times> bytes) mwriter" where
  "buffered = \<lparr>mw_new = (\<lambda>s. (s, [])),
     mw_write = (\<lambda>b (up, buf). (if length (buf @ b) \<le> 2048 then (up, buf @ b) else (up @ buf, b), None)),
     mw_flush = (\<lambda>(up, buf). ((up @ buf, []), None)), mw_under = fst\<rparr>"

definition accepted :: "bytes \<times> bytes \<Rightarrow> bytes" where
  "accepted m = fst m @ snd m"

lemma buffered_acc: "mwriter_acc buffered accepted"
  by (simp add: mwriter_acc_def buffered_def accepted_def split_beta)

lemma buffered_ok: "mwriter_ok buffered"
  unfolding mwriter_ok_def using buffered_acc by blast

interpretation buffered: replacing mp demo buffered accepted "\<lambda>_. (Some (), OtherPub ())"
  "\<lparr>EncryptAll = True, PassErrors = False\<rparr>" "\<lambda>k. k"
  by unfold_locales (rule buffered_acc)

end
