(* ===== verification/Stream_Properties.thy ===== *)
theory Stream_Properties
  imports Estream_Instance
begin

text \<open>
  The properties of \<open>estream/\<close>. The codec and the cryptography are arguments; what a property needs
  of them is a hypothesis (\<open>codec_ok\<close>, \<open>crypto_ok\<close>, \<open>mwriter_ok\<close>), and the instance after each
  property runs it on the MessagePack formats and the stand-ins of \<open>Estream_Instance\<close>.
\<close>

subsection \<open>A file for the instances\<close>

definition ex_key :: bytes where
  "ex_key = replicate 32 7"

definition ex_items :: "unit item list" where
  "ex_items = [ItemPlain [65] [1, 2] [[1, 2, 3], [], [4]], ItemKey ex_key 9 (), ItemEnc [66] [] [[5, 6], [7]],
     ItemPlainKey ex_key, ItemEnc [67, 67] [9] [], ItemPlain [] [] []]"

definition ex_opts :: ReplaceKeysOptions where
  "ex_opts = \<lparr>EncryptAll = True, PassErrors = False\<rparr>"

lemma ex_opts_sel [simp]: "EncryptAll ex_opts"
  by (simp add: ex_opts_def)

lemma ex_items_ok [simp]: "items_ok () None ex_items"
  by (simp add: ex_items_def ex_key_def)

lemma ex_fit [simp]: "blocks_fit (items_blocks mp demo None 0 ex_items)"
  by (simp add: ex_items_def ex_key_def data_blocks_def stream_head_def mp_def put_blob_def be32_def demo_def flip_def
    seal_def item_nonce_def nonce_bytes_def le64_def)

lemma ex_rekey_fit [simp]: "blocks_fit (items_blocks mp demo None 0 (rekey True () (\<lambda>k. k) 0 ex_items))"
  by (simp add: ex_items_def ex_key_def data_blocks_def stream_head_def mp_def put_blob_def be32_def demo_def flip_def
    seal_def item_nonce_def nonce_bytes_def le64_def)

lemma ex_contents: "concat (map item_contents ex_items) =
  [([65], [1, 2], False, [1, 2, 3, 4]), ([66], [], True, [5, 6, 7]), ([67, 67], [9], True, []), ([], [], False, [])]"
  by (simp add: ex_items_def)

subsection \<open>Round trip\<close>

text \<open>
  C1. Whatever keys and streams are written, in whatever order and in whatever pieces, reading the
  file with the private key gives back every stream with its name, its metadata and its content,
  and then \<open>io.EOF\<close>; the size of the read buffer does not matter.
\<close>

theorem file_read_back:
  assumes "codec_ok c" and "crypto_ok cr pub priv" and "0 < len"
    and "items_ok pub None its" and "blocks_fit (items_blocks c cr None 0 its)"
  shows "\<exists>b. write_file c cr its = Some (b, None) \<and>
    read_file c cr len (Some priv) b = Some (concat (map item_contents its), EOF)"
  using assms by (intro estream.file_roundtrip estream.intro msgp.intro estream_axioms.intro)

theorem file_read_back_witness:
  "\<exists>b. write_file mp demo ex_items = Some (b, None) \<and> read_file mp demo 2 (Some ()) b = Some
    ([([65], [1, 2], False, [1, 2, 3, 4]), ([66], [], True, [5, 6, 7]), ([67, 67], [9], True, []), ([], [], False, [])], EOF)"
  using file_read_back [OF mp_ok demo_ok, of 2 ex_items] by (simp add: ex_contents)

text \<open>
  C8. The reader never loops: on any input, from a writer or not, and with or without a key, the
  loop over the streams of a file ends with an error after finitely many calls.
\<close>

theorem file_read_ends:
  assumes "codec_ok c" and "0 < len"
  shows "\<exists>ss e. read_file c cr len priv b = Some (ss, e)"
  using read_file_returns [OF assms, of cr priv b] by auto

theorem file_read_ends_witness:
  "\<exists>ss e. read_file mp demo 1 None [2, 1, 0xd0, 7, 0xce, 0, 0, 1, 0, 9, 9] = Some (ss, e)"
  by (rule file_read_ends [OF mp_ok]) simp

subsection \<open>Damage\<close>

text \<open>
  C6. A stream whose digest does not match its content is never reported as complete: the client
  that reads it to its end gets the error, whatever follows in the file, and the reader keeps the
  error for the next call.
\<close>

theorem checksum_detected:
  assumes "codec_ok c" and "0 < len" and "blocks_fit (map (\<lambda>b. (blockDatablock, put_bytes c b)) bs)"
    and "length (put_bytes c h) < 2 ^ 32" and "h \<noteq> xxsum cr (concat bs)" and "r_err r = None"
    and "length (concat bs) < fuel"
  shows "\<exists>r'. drain fuel c cr len (fst (newStreamReader checksumTypeXxhash r))
      (snd (newStreamReader checksumTypeXxhash
        (r\<lparr>r_in := wires c (map (\<lambda>b. (blockDatablock, put_bytes c b)) bs @ [(blockEOS, put_bytes c h)]) @ rest\<rparr>))) =
      Some (r', concat bs, ErrorText ''checksum mismatch'') \<and>
    Reader_NextStream c cr r' = NextErr r' (ErrorText ''checksum mismatch'')"
proof -
  have "length (put_bytes c h) < 4294967296" using assms(4) by simp
  note d = msgp.drain_stream [OF msgp.intro [OF assms(1)] assms(2,3) this assms(7,6), of cr rest]
  have "fst (newStreamReader checksumTypeXxhash r) = opened" by (simp add: newStreamReader_def opened_def)
  then show ?thesis using d assms(5) by (simp add: newStreamReader_def NextStream_sticky)
qed

definition ex_reader :: "(unit, unit) Reader" where
  "ex_reader = \<lparr>r_in = [], r_majorV = 2, r_minorV = 1, r_err = None, r_inStream = False, r_key = None,
     r_private = None, r_privateFn = None, r_skipEncrypted = False, r_returnNonDec = False\<rparr>"

theorem checksum_detected_witness:
  "\<exists>r'. drain 4 mp demo 2 (fst (newStreamReader checksumTypeXxhash ex_reader))
      (snd (newStreamReader checksumTypeXxhash
        (ex_reader\<lparr>r_in := wires mp (map (\<lambda>b. (blockDatablock, put_bytes mp b)) [[1, 2], [3]] @ [(blockEOS, put_bytes mp [7])]) @ []\<rparr>))) =
      Some (r', [1, 2, 3], ErrorText ''checksum mismatch'') \<and>
    Reader_NextStream mp demo r' = NextErr r' (ErrorText ''checksum mismatch'')"
  using checksum_detected [OF mp_ok, where len = 2 and bs = "[[1, 2], [3]]" and h = "[7]" and cr = demo
    and r = ex_reader and fuel = 4 and rest = "[]"]
  by (simp add: ex_reader_def blocks_fit_def mp_def put_blob_def be32_def demo_def)

text \<open>
  C32. A truncated file is not always an error. The documentation of the package says that streams
  cannot be truncated by an early end of the file; but when the file ends after any block of a
  plaintext stream, the client reads the part that is left as if it were the whole stream, and the
  loop ends with \<open>io.EOF\<close> as after a complete file: \<open>setErr\<close> replaces \<open>io.ErrUnexpectedEOF\<close>, which it
  has just recorded, by \<open>io.EOF\<close>.
\<close>

theorem truncation_unnoticed:
  assumes "codec_ok c" and "crypto_ok cr pub priv" and "0 < len"
    and "blocks_fit (items_blocks c cr None 0 [ItemPlain name extra (bs @ bs')])"
    and "write_file c cr [ItemPlain name extra (bs @ bs')] = Some (b, None)"
  shows "\<exists>n < length b. read_file c cr len (Some priv) (take n b) = Some ([(name, extra, False, concat bs)], EOF)"
  using assms by (intro estream.cut_file estream.intro msgp.intro estream_axioms.intro)

theorem truncation_unnoticed_witness:
  "\<exists>b. write_file mp demo [ItemPlain [65] [] [[1, 2], [3, 4]]] = Some (b, None) \<and>
     (\<exists>n < length b. read_file mp demo 8 (Some ()) (take n b) = Some ([([65], [], False, [1, 2])], EOF))"
proof -
  have w: "write_file mp demo [ItemPlain [65] [] ([[1, 2]] @ [[3, 4]])] =
      Some ([2, 1] @ wires mp (items_blocks mp demo None 0 [ItemPlain [65] [] ([[1, 2]] @ [[3, 4]])]), None)"
    by (rule demo.write_file_mem) simp
  have f: "blocks_fit (items_blocks mp demo None 0 [ItemPlain [65] [] ([[1, 2]] @ [[3, 4]])])"
    by (simp add: data_blocks_def stream_head_def mp_def put_blob_def be32_def demo_def)
  show ?thesis
    using truncation_unnoticed [OF mp_ok demo_ok _ f w, of 8] w by simp
qed

subsection \<open>The state of the writer\<close>

text \<open>
  C7. Once the writer has recorded an error, no sequence of calls, of any methods, writes another
  byte, opens another encrypted stream or loses the error.
\<close>

theorem writer_error_sticks:
  assumes "writer_run c cr sink w ns w'" and "w_err w = Some e"
  shows "w_err w' = Some e \<and> w_up w' = w_up w \<and> ns = []"
  using writer_run_sticky [OF assms] .

definition ex_writer :: "bytes Writer" where
  "ex_writer = \<lparr>w_up = [2, 1], w_err = None, w_key = Some ex_key, w_nonce = 5, bw_id = 0, bw_buf = []\<rparr>"

theorem writer_error_sticks_witness:
  "w_up (fst (AddKeyPlain mp mem (Inr ex_key) (ex_writer\<lparr>w_err := Some (LibError 3)\<rparr>))) = [2, 1]"
proof -
  let ?w = "ex_writer\<lparr>w_err := Some (LibError 3)\<rparr>"
  obtain w' e where w': "AddKeyPlain mp mem (Inr ex_key) ?w = (w', e)" by fastforce
  then have "writer_run mp demo mem ?w ([] @ []) w'"
    by (intro run_step [OF run_start]) (rule step_plain_key)
  from writer_error_sticks [OF this] show ?thesis using w' by (simp add: ex_writer_def)
qed



subsection \<open>Other keys\<close>

text \<open>
  C2. \<open>ReplaceKeys\<close> writes, byte for byte, the file that the writer would have written with the
  new public key: only the key blocks change, unencrypted keys too when \<open>EncryptAll\<close> is set, and
  no stream is touched.
\<close>

theorem ReplaceKeys_refines_writer:
  assumes "codec_ok c" and "mwriter_ok mw" and "crypto_ok cr pub priv" and "crypto_ok cr pub' priv'"
    and "parse_pub cr (marshal_pub cr pub) = Inr pub"
    and "replace (Some pub) = (Some priv, OtherPub pub')"
    and "EncryptAll opts \<longrightarrow> deref None (snd (replace None)) = Some pub'"
    and "items_ok pub None its" and "blocks_fit (items_blocks c cr None 0 its)"
  shows "\<exists>b b'. write_file c cr its = Some (b, None) \<and>
    ReplaceKeys c cr mem mw replace opts seeds b [] = Replaced b' None \<and>
    write_file c cr (rekey (EncryptAll opts) pub' seeds 0 its) = Some (b', None)"
  by (rule ReplaceKeys_file [OF assms])

theorem ReplaceKeys_refines_writer_witness:
  "\<exists>b b'. write_file mp demo ex_items = Some (b, None) \<and>
    ReplaceKeys mp demo mem buffered (\<lambda>_. (Some (), OtherPub ())) ex_opts (\<lambda>k. k) b [] = Replaced b' None \<and>
    write_file mp demo (rekey True () (\<lambda>k. k) 0 ex_items) = Some (b', None)"
  using ReplaceKeys_refines_writer [OF mp_ok buffered_ok demo_ok demo_ok, where replace = "\<lambda>_. (Some (), OtherPub ())"
    and opts = ex_opts and seeds = "\<lambda>k. k" and its = ex_items]
  by (simp add: demo_def) (simp add: demo_def [symmetric])

text \<open>
  C9. After \<open>ReplaceKeys\<close> the file can be read with the new private key, and holds exactly the
  streams it held before.
\<close>

theorem ReplaceKeys_read_back:
  assumes "codec_ok c" and "mwriter_ok mw" and "crypto_ok cr pub priv" and "crypto_ok cr pub' priv'"
    and "parse_pub cr (marshal_pub cr pub) = Inr pub"
    and "replace (Some pub) = (Some priv, OtherPub pub')"
    and "EncryptAll opts \<longrightarrow> deref None (snd (replace None)) = Some pub'"
    and "items_ok pub None its" and "blocks_fit (items_blocks c cr None 0 its)"
    and "blocks_fit (items_blocks c cr None 0 (rekey (EncryptAll opts) pub' seeds 0 its))" and "0 < len"
  shows "\<exists>b b'. write_file c cr its = Some (b, None) \<and>
    ReplaceKeys c cr mem mw replace opts seeds b [] = Replaced b' None \<and>
    read_file c cr len (Some priv') b' = Some (concat (map item_contents its), EOF)"
proof -
  have "estream c cr pub' priv'" using assms by (intro estream.intro msgp.intro estream_axioms.intro)
  from estream.file_roundtrip [OF this assms(11) rekey_items_ok [OF assms(8)] assms(10)]
  show ?thesis using ReplaceKeys_file [OF assms(1-9), of seeds] by (auto simp: rekey_contents)
qed

theorem ReplaceKeys_read_back_witness:
  "\<exists>b b'. write_file mp demo ex_items = Some (b, None) \<and>
    ReplaceKeys mp demo mem buffered (\<lambda>_. (Some (), OtherPub ())) ex_opts (\<lambda>k. k) b [] = Replaced b' None \<and>
    read_file mp demo 3 (Some ()) b' = Some (concat (map item_contents ex_items), EOF)"
proof -
  have "parse_pub demo (marshal_pub demo ()) = Inr ()" by (simp add: demo_def)
  then show ?thesis
    using ReplaceKeys_read_back [OF mp_ok buffered_ok demo_ok demo_ok, where replace = "\<lambda>_. (Some (), OtherPub ())"
      and opts = ex_opts and seeds = "\<lambda>k. k" and its = ex_items and len = 3] by simp
qed



text \<open>
  C33. \<open>ReplaceKeys\<close> returns on every input, whatever the replace function, the options and the
  writers do.
\<close>

theorem ReplaceKeys_ends:
  assumes "codec_ok c"
  shows "ReplaceKeys c cr sink mw replace opts seeds b s \<noteq> RDiverged"
  by (rule ReplaceKeys_returns [OF assms])

theorem ReplaceKeys_ends_witness:
  "ReplaceKeys mp demo mem buffered (\<lambda>_. (None, NilPub)) ex_opts (\<lambda>k. k) [2, 1, 0xd0, 1, 0xce] [] \<noteq> RDiverged"
  by (rule ReplaceKeys_ends [OF mp_ok])

end
