(* ===== verification/Flags.thy ===== *)
theory Flags
  imports Go_Text Go_Maps
begin

text \<open>
  The bit fields of the client: \<open>MetricType\<close> and \<open>MetricFlags\<close> with the request that
  \<open>AdminClient.Metrics\<close> builds (metrics.go), \<open>TraceType\<close> (trace.go, with the names of
  tracetype_string.go) and \<open>ServiceTraceOpts\<close> (service-commands.go). A bit field is a set of
  bits; \<open>Contains\<close> is inclusion and \<open>Add\<close>, \<open>Merge\<close>, \<open>SetIf\<close> are unions.
\<close>

unbundle bit_operations_syntax

text \<open>\<open>m & x == x\<close>, on both widths.\<close>

definition contains_bits :: "'a::len word \<Rightarrow> 'a word \<Rightarrow> bool" where
  "contains_bits m x \<longleftrightarrow> m AND x = x"

lemma contains_bits_iff: "contains_bits m x \<longleftrightarrow> (\<forall>n. bit x n \<longrightarrow> bit m n)"
proof
  assume "contains_bits m x"
  then have "bit (m AND x) n = bit x n" for n by (simp add: contains_bits_def)
  then show "\<forall>n. bit x n \<longrightarrow> bit m n" by (auto simp: bit_and_iff)
next
  assume "\<forall>n. bit x n \<longrightarrow> bit m n"
  then show "contains_bits m x" unfolding contains_bits_def by (intro bit_eqI) (auto simp: bit_and_iff)
qed

lemma contains_bits_refl [simp]: "contains_bits m m"
  by (simp add: contains_bits_iff)

lemma contains_bits_zero [simp]: "contains_bits m 0"
  by (simp add: contains_bits_iff)

lemma contains_bits_or: "contains_bits m (x OR y) \<longleftrightarrow> contains_bits m x \<and> contains_bits m y"
  by (auto simp: contains_bits_iff bit_or_iff)

lemma contains_or_left: "contains_bits m x \<Longrightarrow> contains_bits (m OR y) x"
  by (auto simp: contains_bits_iff bit_or_iff)

lemma contains_power:
  "contains_bits (m :: 'a::len word) (2 ^ k) \<longleftrightarrow> k < LENGTH('a) \<longrightarrow> bit m k"
  by (auto simp: contains_bits_iff bit_exp_iff possible_bit_word)

subsection \<open>MetricType\<close>

type_synonym MetricType = u32

definition MetricsScanner :: MetricType where "MetricsScanner = 2 ^ 0"
definition MetricsDisk :: MetricType where "MetricsDisk = 2 ^ 1"
definition MetricsOS :: MetricType where "MetricsOS = 2 ^ 2"
definition MetricsBatchJobs :: MetricType where "MetricsBatchJobs = 2 ^ 3"
definition MetricsSiteResync :: MetricType where "MetricsSiteResync = 2 ^ 4"
definition MetricNet :: MetricType where "MetricNet = 2 ^ 5"
definition MetricsMem :: MetricType where "MetricsMem = 2 ^ 6"
definition MetricsCPU :: MetricType where "MetricsCPU = 2 ^ 7"
definition MetricsRPC :: MetricType where "MetricsRPC = 2 ^ 8"
definition MetricsRuntime :: MetricType where "MetricsRuntime = 2 ^ 9"
definition MetricsAPI :: MetricType where "MetricsAPI = 2 ^ 10"
definition MetricsReplication :: MetricType where "MetricsReplication = 2 ^ 11"
definition MetricsProcess :: MetricType where "MetricsProcess = 2 ^ 12"

definition MetricsAll :: MetricType where "MetricsAll = 2 ^ 13 - 1"

definition MetricType_Contains :: "MetricType \<Rightarrow> MetricType \<Rightarrow> bool" where
  "MetricType_Contains m x \<longleftrightarrow> m AND x = x"

text \<open>The closure \<open>addIf\<close> of both \<open>String\<close> methods.\<close>

definition addIf :: "bool \<Rightarrow> string \<Rightarrow> string \<Rightarrow> string" where
  "addIf cond str b = (if cond then (if b \<noteq> [] then b @ '','' else b) @ str else b)"

definition metric_names :: "(MetricType \<times> string) list" where
  "metric_names = [
     (MetricsScanner, ''Scanner''),
     (MetricsDisk, ''Disk''),
     (MetricsOS, ''OS''),
     (MetricsBatchJobs, ''BatchJobs''),
     (MetricsSiteResync, ''SiteResync''),
     (MetricNet, ''Net''),
     (MetricsMem, ''Mem''),
     (MetricsCPU, ''CPU''),
     (MetricsRPC, ''RPC''),
     (MetricsRuntime, ''Runtime''),
     (MetricsAPI, ''API''),
     (MetricsReplication, ''Replication''),
     (MetricsProcess, ''Process'')]"

definition MetricType_String :: "MetricType \<Rightarrow> string" where
  "MetricType_String m = fold (\<lambda>(x, str). addIf (MetricType_Contains m x) str) metric_names []"

subsection \<open>MetricFlags\<close>

type_synonym MetricFlags = u64

definition MetricsDayStats :: MetricFlags where "MetricsDayStats = 2 ^ 0"
definition MetricsByHost :: MetricFlags where "MetricsByHost = 2 ^ 1"
definition MetricsByDisk :: MetricFlags where "MetricsByDisk = 2 ^ 2"
definition MetricsLegacyDiskIO :: MetricFlags where "MetricsLegacyDiskIO = 2 ^ 3"
definition MetricsByDiskSet :: MetricFlags where "MetricsByDiskSet = 2 ^ 4"

definition MetricFlags_Contains :: "MetricFlags \<Rightarrow> MetricFlags \<Rightarrow> bool" where
  "MetricFlags_Contains m x \<longleftrightarrow> m AND x = x"

definition MetricFlags_Add :: "MetricFlags \<Rightarrow> MetricFlags list \<Rightarrow> MetricFlags" where
  "MetricFlags_Add m x = fold (\<lambda>v m. m OR v) x m"

definition flag_names :: "(MetricFlags \<times> string) list" where
  "flag_names = [(MetricsDayStats, ''DayStats''), (MetricsByHost, ''ByHost''), (MetricsByDisk, ''ByDisk''),
     (MetricsLegacyDiskIO, ''LegacyIO''), (MetricsByDiskSet, ''ByDiskSet'')]"

definition MetricFlags_String :: "MetricFlags \<Rightarrow> string" where
  "MetricFlags_String m = fold (\<lambda>(x, str). addIf (MetricFlags_Contains m x) str) flag_names []"

subsection \<open>The metrics request\<close>

text \<open>\<open>url.Values\<close> with at most one value per key, as \<open>Set\<close> leaves it; \<open>Get\<close> of a missing key is empty.\<close>

type_synonym url_values = "(string, string) fmap"

definition url_Get :: "url_values \<Rightarrow> string \<Rightarrow> string" where
  "url_Get q k = (case fmlookup q k of None \<Rightarrow> [] | Some v \<Rightarrow> v)"

record MetricsOptions =
  mo_Type :: MetricType
  mo_Flags :: MetricFlags
  mo_N :: i64
  mo_Interval :: duration
  mo_PoolIdx :: "i64 list"
  mo_Hosts :: "string list"
  mo_DrivePoolIdx :: "i64 list"
  mo_DriveSetIdx :: "i64 list"
  mo_Disks :: "string list"
  mo_ByJobID :: string
  mo_ByDepID :: string
  mo_ByHost :: bool
  mo_ByDisk :: bool

definition DriveSetPrefix :: string where "DriveSetPrefix = ''::drive-set::''"
definition DrivePoolPrefix :: string where "DrivePoolPrefix = ''::drive-pool::''"

text \<open>The first part of \<open>AdminClient.Metrics\<close>: the query of the request. \<open>ByHost\<close> adds the
  by-disk flag, as the source does.\<close>

definition Metrics_query :: "MetricsOptions \<Rightarrow> url_values" where
  "Metrics_query o' =
    (let q = fmap_of_list [];
         q = fmupd ''types'' (fmt_nat (unat (mo_Type o'))) q;
         q = fmupd ''n'' (fmt_int (sint (mo_N o'))) q;
         q = fmupd ''interval'' (Duration_String (mo_Interval o')) q;
         q = fmupd ''hosts'' (join '','' (mo_Hosts o')) q;
         (q, o') = (if mo_ByHost o'
            then (fmupd ''by-host'' ''true'' q, o'\<lparr>mo_Flags := MetricFlags_Add (mo_Flags o') [MetricsByDisk]\<rparr>)
            else (q, o'));
         o' = o'\<lparr>mo_Disks := mo_Disks o' @ map (\<lambda>v. DriveSetPrefix @ fmt_int (sint v)) (mo_DriveSetIdx o')\<rparr>;
         o' = o'\<lparr>mo_Disks := mo_Disks o' @ map (\<lambda>v. DrivePoolPrefix @ fmt_int (sint v)) (mo_DrivePoolIdx o')\<rparr>;
         q = fmupd ''disks'' (join '','' (mo_Disks o')) q;
         (q, o') = (if mo_ByDisk o'
            then (fmupd ''by-disk'' ''true'' q, o'\<lparr>mo_Flags := MetricFlags_Add (mo_Flags o') [MetricsByDisk]\<rparr>)
            else (q, o'));
         q = (if mo_ByJobID o' \<noteq> [] then fmupd ''by-jobID'' (mo_ByJobID o') q else q);
         q = (if mo_ByDepID o' \<noteq> [] then fmupd ''by-depID'' (mo_ByDepID o') q else q);
         q = (if mo_PoolIdx o' \<noteq> []
              then fmupd ''pool-idx'' (join '','' (map (\<lambda>v. fmt_int (sint v)) (mo_PoolIdx o'))) q else q)
     in fmupd ''flags'' (fmt_nat (unat (mo_Flags o'))) q)"

subsection \<open>TraceType\<close>

type_synonym TraceType = u64

definition TraceOS :: TraceType where "TraceOS = 2 ^ 0"
definition TraceStorage :: TraceType where "TraceStorage = 2 ^ 1"
definition TraceS3 :: TraceType where "TraceS3 = 2 ^ 2"
definition TraceInternal :: TraceType where "TraceInternal = 2 ^ 3"
definition TraceScanner :: TraceType where "TraceScanner = 2 ^ 4"
definition TraceDecommission :: TraceType where "TraceDecommission = 2 ^ 5"
definition TraceHealing :: TraceType where "TraceHealing = 2 ^ 6"
definition TraceBatchReplication :: TraceType where "TraceBatchReplication = 2 ^ 7"
definition TraceBatchKeyRotation :: TraceType where "TraceBatchKeyRotation = 2 ^ 8"
definition TraceBatchExpire :: TraceType where "TraceBatchExpire = 2 ^ 9"
definition TraceRebalance :: TraceType where "TraceRebalance = 2 ^ 10"
definition TraceReplicationResync :: TraceType where "TraceReplicationResync = 2 ^ 11"
definition TraceBootstrap :: TraceType where "TraceBootstrap = 2 ^ 12"
definition TraceFTP :: TraceType where "TraceFTP = 2 ^ 13"
definition TraceILM :: TraceType where "TraceILM = 2 ^ 14"
definition TraceKMS :: TraceType where "TraceKMS = 2 ^ 15"
definition TraceFormatting :: TraceType where "TraceFormatting = 2 ^ 16"
definition TraceAdmin :: TraceType where "TraceAdmin = 2 ^ 17"
definition TraceObject :: TraceType where "TraceObject = 2 ^ 18"
definition TraceReplication :: TraceType where "TraceReplication = 2 ^ 19"
definition TraceIAM :: TraceType where "TraceIAM = 2 ^ 20"
definition TraceTables :: TraceType where "TraceTables = 2 ^ 21"
definition TracePurgeOnDelete :: TraceType where "TracePurgeOnDelete = 2 ^ 22"

definition TraceAll :: TraceType where "TraceAll = 2 ^ 23 - 1"

definition TraceBatch :: TraceType where
  "TraceBatch = TraceBatchReplication OR TraceBatchKeyRotation OR TraceBatchExpire"

definition trace_names :: "(TraceType \<times> string) list" where
  "trace_names = [
     (TraceOS, ''OS''),
     (TraceStorage, ''Storage''),
     (TraceS3, ''S3''),
     (TraceInternal, ''Internal''),
     (TraceScanner, ''Scanner''),
     (TraceDecommission, ''Decommission''),
     (TraceHealing, ''Healing''),
     (TraceBatchReplication, ''BatchReplication''),
     (TraceBatchKeyRotation, ''BatchKeyRotation''),
     (TraceBatchExpire, ''BatchExpire''),
     (TraceRebalance, ''Rebalance''),
     (TraceReplicationResync, ''ReplicationResync''),
     (TraceBootstrap, ''Bootstrap''),
     (TraceFTP, ''FTP''),
     (TraceILM, ''ILM''),
     (TraceKMS, ''KMS''),
     (TraceFormatting, ''Formatting''),
     (TraceAdmin, ''Admin''),
     (TraceObject, ''Object''),
     (TraceReplication, ''Replication''),
     (TraceIAM, ''IAM''),
     (TraceTables, ''Tables''),
     (TracePurgeOnDelete, ''PurgeOnDelete''),
     (TraceAll, ''All'')]"

definition TraceType_String :: "TraceType \<Rightarrow> string" where
  "TraceType_String i = (case map_of trace_names i of Some str \<Rightarrow> str
     | None \<Rightarrow> ''TraceType('' @ fmt_int (sint i) @ '')'')"

text \<open>
  The loop of \<open>FindTraceType\<close> over the bit index; the index never leaves the word, because the
  loop stops at the first bit above \<open>TraceAll\<close>, so 64 steps are enough.
\<close>

function FindTraceType_from :: "nat \<Rightarrow> string \<Rightarrow> TraceType" where
  "FindTraceType_from bitIdx s =
    (let idx = push_bit bitIdx 1
     in if idx > TraceAll then 0
     else if EqualFold (TraceType_String idx) s then idx
     else if bitIdx < 64 then FindTraceType_from (Suc bitIdx) s
     else 0)"
  by pat_completeness auto
termination by (relation "measure (\<lambda>(b, s). 64 - b)") auto

declare FindTraceType_from.simps [simp del]

definition FindTraceType :: "string \<Rightarrow> TraceType" where
  "FindTraceType = FindTraceType_from 0"

definition TraceType_Contains :: "TraceType \<Rightarrow> TraceType \<Rightarrow> bool" where
  "TraceType_Contains t other \<longleftrightarrow> t AND other = other"

definition TraceType_Overlaps :: "TraceType \<Rightarrow> TraceType \<Rightarrow> bool" where
  "TraceType_Overlaps t other \<longleftrightarrow> t AND other \<noteq> 0"

definition OnesCount64 :: "u64 \<Rightarrow> nat" where
  "OnesCount64 w = length (filter (bit w) [0..<64])"

definition TraceType_SingleType :: "TraceType \<Rightarrow> bool" where
  "TraceType_SingleType t \<longleftrightarrow> OnesCount64 t = 1"

definition TraceType_Merge :: "TraceType \<Rightarrow> TraceType \<Rightarrow> TraceType" where
  "TraceType_Merge t other = t OR other"

definition TraceType_SetIf :: "TraceType \<Rightarrow> bool \<Rightarrow> TraceType \<Rightarrow> TraceType" where
  "TraceType_SetIf t b other = (if b then t OR other else t)"

definition TraceType_Mask :: "TraceType \<Rightarrow> u64" where
  "TraceType_Mask t = t"

subsection \<open>ServiceTraceOpts\<close>

record ServiceTraceOpts =
  so_S3 :: bool
  so_Internal :: bool
  so_Storage :: bool
  so_OS :: bool
  so_Scanner :: bool
  so_Decommission :: bool
  so_Healing :: bool
  so_BatchReplication :: bool
  so_BatchKeyRotation :: bool
  so_BatchExpire :: bool
  so_Tables :: bool
  so_BatchAll :: bool
  so_Rebalance :: bool
  so_ReplicationResync :: bool
  so_Bootstrap :: bool
  so_FTP :: bool
  so_ILM :: bool
  so_KMS :: bool
  so_Formatting :: bool
  so_PurgeOnDelete :: bool
  so_OnlyErrors :: bool
  so_Threshold :: duration
  so_ThresholdTTFB :: duration

definition TraceTypes :: "ServiceTraceOpts \<Rightarrow> TraceType" where
  "TraceTypes t =
    (let tt = 0;
         tt = TraceType_SetIf tt (so_S3 t) TraceS3;
         tt = TraceType_SetIf tt (so_Internal t) TraceInternal;
         tt = TraceType_SetIf tt (so_Storage t) TraceStorage;
         tt = TraceType_SetIf tt (so_OS t) TraceOS;
         tt = TraceType_SetIf tt (so_Scanner t) TraceScanner;
         tt = TraceType_SetIf tt (so_Decommission t) TraceDecommission;
         tt = TraceType_SetIf tt (so_Healing t) TraceHealing;
         tt = TraceType_SetIf tt (so_BatchAll t \<or> so_BatchReplication t) TraceBatchReplication;
         tt = TraceType_SetIf tt (so_BatchAll t \<or> so_BatchKeyRotation t) TraceBatchKeyRotation;
         tt = TraceType_SetIf tt (so_BatchAll t \<or> so_BatchExpire t) TraceBatchExpire;
         tt = TraceType_SetIf tt (so_Rebalance t) TraceRebalance;
         tt = TraceType_SetIf tt (so_Tables t) TraceTables;
         tt = TraceType_SetIf tt (so_ReplicationResync t) TraceReplicationResync;
         tt = TraceType_SetIf tt (so_Bootstrap t) TraceBootstrap;
         tt = TraceType_SetIf tt (so_FTP t) TraceFTP;
         tt = TraceType_SetIf tt (so_ILM t) TraceILM;
         tt = TraceType_SetIf tt (so_KMS t) TraceKMS;
         tt = TraceType_SetIf tt (so_Formatting t) TraceFormatting;
         tt = TraceType_SetIf tt (so_PurgeOnDelete t) TracePurgeOnDelete
     in tt)"

definition AddParams :: "ServiceTraceOpts \<Rightarrow> url_values \<Rightarrow> url_values" where
  "AddParams t u =
    (let
         u = fmupd ''err'' (FormatBool (so_OnlyErrors t)) u;
         u = fmupd ''threshold'' (Duration_String (so_Threshold t)) u;
         u = fmupd ''threshold-ttfb'' (Duration_String (so_ThresholdTTFB t)) u;
         u = fmupd ''s3'' (FormatBool (so_S3 t)) u;
         u = fmupd ''internal'' (FormatBool (so_Internal t)) u;
         u = fmupd ''storage'' (FormatBool (so_Storage t)) u;
         u = fmupd ''os'' (FormatBool (so_OS t)) u;
         u = fmupd ''scanner'' (FormatBool (so_Scanner t)) u;
         u = fmupd ''decommission'' (FormatBool (so_Decommission t)) u;
         u = fmupd ''healing'' (FormatBool (so_Healing t)) u;
         u = fmupd ''batch-replication'' (FormatBool (so_BatchAll t \<or> so_BatchReplication t)) u;
         u = fmupd ''batch-keyrotation'' (FormatBool (so_BatchAll t \<or> so_BatchKeyRotation t)) u;
         u = fmupd ''batch-expire'' (FormatBool (so_BatchAll t \<or> so_BatchExpire t)) u;
         u = fmupd ''rebalance'' (FormatBool (so_Rebalance t)) u;
         u = fmupd ''tables'' (FormatBool (so_Tables t)) u;
         u = fmupd ''replication-resync'' (FormatBool (so_ReplicationResync t)) u;
         u = fmupd ''bootstrap'' (FormatBool (so_Bootstrap t)) u;
         u = fmupd ''ftp'' (FormatBool (so_FTP t)) u;
         u = fmupd ''ilm'' (FormatBool (so_ILM t)) u;
         u = fmupd ''kms'' (FormatBool (so_KMS t)) u;
         u = fmupd ''formatting'' (FormatBool (so_Formatting t)) u;
         u = fmupd ''purgeondelete'' (FormatBool (so_PurgeOnDelete t)) u
     in u)"

text \<open>
  \<open>ParseParams\<close> sets the receiver and returns an error of \<open>time.ParseDuration\<close>, which is the
  argument \<open>parse_dur\<close>; \<open>form\<close> is \<open>r.Form\<close>.
\<close>

definition ParseParams :: "(string \<Rightarrow> 'e + duration) \<Rightarrow> url_values \<Rightarrow> ServiceTraceOpts \<Rightarrow> ServiceTraceOpts \<times> 'e option" where
  "ParseParams parse_dur form t =
    (let t = t\<lparr>
         so_S3 := url_Get form ''s3'' = ''true'',
         so_OS := url_Get form ''os'' = ''true'',
         so_Scanner := url_Get form ''scanner'' = ''true'',
         so_Decommission := url_Get form ''decommission'' = ''true'',
         so_Healing := url_Get form ''healing'' = ''true'',
         so_BatchReplication := url_Get form ''batch-replication'' = ''true'',
         so_BatchKeyRotation := url_Get form ''batch-keyrotation'' = ''true'',
         so_BatchExpire := url_Get form ''batch-expire'' = ''true'',
         so_Rebalance := url_Get form ''rebalance'' = ''true'',
         so_Tables := url_Get form ''tables'' = ''true'',
         so_Storage := url_Get form ''storage'' = ''true'',
         so_Internal := url_Get form ''internal'' = ''true'',
         so_OnlyErrors := url_Get form ''err'' = ''true'',
         so_ReplicationResync := url_Get form ''replication-resync'' = ''true'',
         so_Bootstrap := url_Get form ''bootstrap'' = ''true'',
         so_FTP := url_Get form ''ftp'' = ''true'',
         so_ILM := url_Get form ''ilm'' = ''true'',
         so_KMS := url_Get form ''kms'' = ''true'',
         so_Formatting := url_Get form ''formatting'' = ''true'',
         so_PurgeOnDelete := url_Get form ''purgeondelete'' = ''true''\<rparr>;
         th = url_Get form ''threshold'';
         thTTFB = url_Get form ''threshold-ttfb''
     in case (if th \<noteq> [] then parse_dur th else Inr (so_Threshold t)) of
          Inl err \<Rightarrow> (t, Some err)
        | Inr d \<Rightarrow>
            (let t = t\<lparr>so_Threshold := d\<rparr>
             in case (if thTTFB \<noteq> [] then parse_dur thTTFB else Inr (so_ThresholdTTFB t)) of
                  Inl err \<Rightarrow> (t, Some err)
                | Inr d \<Rightarrow> (t\<lparr>so_ThresholdTTFB := d\<rparr>, None)))"

subsection \<open>Names\<close>

lemma join_snoc: "xs \<noteq> [] \<Longrightarrow> join sep (xs @ [y]) = join sep xs @ sep @ y"
  by (induction sep xs rule: join.induct) simp_all

lemma join_not_Nil: "xs \<noteq> [] \<Longrightarrow> [] \<notin> set xs \<Longrightarrow> join sep xs \<noteq> []"
  by (induction sep xs rule: join.induct) auto

lemma fold_addIf:
  "[] \<notin> set (map snd names) \<Longrightarrow> [] \<notin> set acc \<Longrightarrow>
   fold (\<lambda>(x, str). addIf (P x) str) names (join '','' acc) =
   join '','' (acc @ map snd (filter (\<lambda>(x, _). P x) names))"
proof (induction names arbitrary: acc)
  case (Cons n names)
  obtain x str where n: "n = (x, str)" by (cases n)
  show ?case
  proof (cases "P x")
    case True
    have "addIf True str (join '','' acc) = join '','' (acc @ [str])"
      using Cons.prems(2) by (cases "acc = []") (auto simp: addIf_def join_snoc join_not_Nil)
    then show ?thesis
      using Cons.IH [of "acc @ [str]"] Cons.prems True by (simp add: n)
  next
    case False
    then show ?thesis using Cons by (simp add: n addIf_def)
  qed
qed simp

lemma MetricType_String_join:
  "MetricType_String m = join '','' (map snd (filter (\<lambda>(x, _). MetricType_Contains m x) metric_names))"
  using fold_addIf [of metric_names "[]" "MetricType_Contains m"]
  by (simp add: MetricType_String_def metric_names_def)

lemma MetricFlags_String_join:
  "MetricFlags_String m = join '','' (map snd (filter (\<lambda>(x, _). MetricFlags_Contains m x) flag_names))"
  using fold_addIf [of flag_names "[]" "MetricFlags_Contains m"]
  by (simp add: MetricFlags_String_def flag_names_def)

lemma MetricFlags_Contains_bits: "MetricFlags_Contains = contains_bits"
  by (simp add: MetricFlags_Contains_def contains_bits_def fun_eq_iff)

text \<open>Adding flags adds exactly these flags.\<close>

lemma MetricFlags_Add_bit: "bit (MetricFlags_Add m xs) n \<longleftrightarrow> bit m n \<or> (\<exists>x\<in>set xs. bit x n)"
  by (induction xs arbitrary: m) (auto simp: MetricFlags_Add_def bit_or_iff)

subsection \<open>The flags of the request\<close>

lemma url_Get_fmupd [simp]: "url_Get (fmupd k v q) k' = (if k' = k then v else url_Get q k')"
  by (simp add: url_Get_def)

lemma url_Get_if [simp]: "url_Get (if c then q else q') k = (if c then url_Get q k else url_Get q' k)"
  by simp

lemma Metrics_query_flags:
  "url_Get (Metrics_query o') ''flags'' = fmt_nat (unat (mo_Flags o' OR
     (if mo_ByHost o' \<or> mo_ByDisk o' then MetricsByDisk else 0)))"
  by (simp add: Metrics_query_def Let_def MetricFlags_Add_def split: prod.splits if_splits)

subsection \<open>Finding a trace type by its name\<close>

lemma push_bit_greater_TraceAll:
  assumes "k \<le> 63"
  shows "TraceAll < push_bit k 1 \<longleftrightarrow> 23 \<le> k"
proof -
  have "unat (push_bit k 1 :: u64) = 2 ^ k"
  proof -
    have "(push_bit k 1 :: u64) = of_nat (2 ^ k)" by (simp add: push_bit_eq_mult)
    moreover have "(2::nat) ^ k < 2 ^ 64" using assms by (intro power_strict_increasing) simp_all
    ultimately show ?thesis by (simp only: unat_of_nat) simp
  qed
  moreover have "unat TraceAll = 2 ^ 23 - 1" by (simp add: TraceAll_def)
  ultimately have "TraceAll < push_bit k 1 \<longleftrightarrow> (2::nat) ^ 23 - 1 < 2 ^ k"
    by (simp add: word_less_nat_alt)
  also have "\<dots> \<longleftrightarrow> (2::nat) ^ 23 \<le> 2 ^ k"
  proof -
    have "(2::nat) ^ 23 - 1 < x \<longleftrightarrow> 2 ^ 23 \<le> x" for x by auto
    then show ?thesis .
  qed
  also have "\<dots> \<longleftrightarrow> 23 \<le> k" by (rule power_increasing_iff) simp
  finally show ?thesis .
qed

lemma FindTraceType_from_find:
  "b \<le> 23 \<Longrightarrow> FindTraceType_from b s =
   (case find (\<lambda>k. EqualFold (TraceType_String (2 ^ k)) s) [b..<23] of None \<Rightarrow> 0 | Some k \<Rightarrow> 2 ^ k)"
proof (induction "23 - b" arbitrary: b)
  case 0
  then show ?case
    by (subst FindTraceType_from.simps) (simp add: Let_def TraceAll_def)
next
  case (Suc n)
  then have b: "b < 23" by simp
  have ih: "FindTraceType_from (Suc b) s =
      (case find (\<lambda>k. EqualFold (TraceType_String (2 ^ k)) s) [Suc b..<23] of None \<Rightarrow> 0 | Some k \<Rightarrow> 2 ^ k)"
    using Suc b by simp
  have e: "push_bit b 1 = (2 ^ b :: u64)" by (simp add: push_bit_eq_mult)
  have "\<not> TraceAll < 2 ^ b" using push_bit_greater_TraceAll [of b] b by (simp add: e)
  then show ?case
    using b ih by (subst FindTraceType_from.simps) (simp add: Let_def e upt_conv_Cons)
qed

lemma FindTraceType_find:
  "FindTraceType s = (case find (\<lambda>k. EqualFold (TraceType_String (2 ^ k)) s) [0..<23] of
     None \<Rightarrow> 0 | Some k \<Rightarrow> 2 ^ k)"
  by (simp add: FindTraceType_def FindTraceType_from_find)

lemma trace_name_list:
  "map (\<lambda>k. fold_case (TraceType_String (2 ^ k))) [0..<23] =
   map (\<lambda>(_, str). fold_case str) (take 23 trace_names)"
  by code_simp

lemma distinct_trace_names: "distinct (map (\<lambda>k. fold_case (TraceType_String (2 ^ k))) [0..<23])"
  unfolding trace_name_list by code_simp

lemma FindTraceType_name:
  assumes "k < 23" and "EqualFold (TraceType_String (2 ^ k)) s"
  shows "FindTraceType s = 2 ^ k"
proof -
  let ?P = "\<lambda>k. EqualFold (TraceType_String (2 ^ k)) s"
  obtain j where j: "find ?P [0..<23] = Some j"
    using assms by (metis atLeastLessThan_iff find_None_iff not_None_eq set_upt zero_le)
  then have "j < 23" "?P j" by (auto simp: find_Some_iff)
  then have "fold_case (TraceType_String (2 ^ j)) = fold_case (TraceType_String (2 ^ k))"
    using assms(2) by (simp add: EqualFold_def)
  then have "j = k"
    using distinct_trace_names \<open>j < 23\<close> assms(1)
    by (auto simp: distinct_map inj_on_def simp del: upt_rec_numeral)
  then show ?thesis by (simp add: FindTraceType_find j)
qed

lemma FindTraceType_result:
  "FindTraceType s = 0 \<or> (\<exists>k<23. FindTraceType s = 2 ^ k \<and> EqualFold (TraceType_String (2 ^ k)) s)"
proof (cases "find (\<lambda>k. EqualFold (TraceType_String (2 ^ k)) s) [0..<23]")
  case None
  then show ?thesis by (simp only: FindTraceType_find option.case simp_thms)
next
  case (Some k)
  then have "k < 23 \<and> EqualFold (TraceType_String (2 ^ k)) s"
    by (auto simp: find_Some_iff simp del: upt_rec_numeral)
  moreover have "FindTraceType s = 2 ^ k" by (simp only: FindTraceType_find Some option.case)
  ultimately show ?thesis by blast
qed

subsection \<open>Trace options through the request parameters\<close>

lemma FormatBool_true [simp]: "FormatBool b = ''true'' \<longleftrightarrow> b"
  by (simp add: FormatBool_def)

lemma ParseParams_sel:
  "so_S3 (fst (ParseParams f form t)) = (url_Get form ''s3'' = ''true'')"
  "so_Internal (fst (ParseParams f form t)) = (url_Get form ''internal'' = ''true'')"
  "so_Storage (fst (ParseParams f form t)) = (url_Get form ''storage'' = ''true'')"
  "so_OS (fst (ParseParams f form t)) = (url_Get form ''os'' = ''true'')"
  "so_Scanner (fst (ParseParams f form t)) = (url_Get form ''scanner'' = ''true'')"
  "so_Decommission (fst (ParseParams f form t)) = (url_Get form ''decommission'' = ''true'')"
  "so_Healing (fst (ParseParams f form t)) = (url_Get form ''healing'' = ''true'')"
  "so_BatchReplication (fst (ParseParams f form t)) = (url_Get form ''batch-replication'' = ''true'')"
  "so_BatchKeyRotation (fst (ParseParams f form t)) = (url_Get form ''batch-keyrotation'' = ''true'')"
  "so_BatchExpire (fst (ParseParams f form t)) = (url_Get form ''batch-expire'' = ''true'')"
  "so_Rebalance (fst (ParseParams f form t)) = (url_Get form ''rebalance'' = ''true'')"
  "so_Tables (fst (ParseParams f form t)) = (url_Get form ''tables'' = ''true'')"
  "so_ReplicationResync (fst (ParseParams f form t)) = (url_Get form ''replication-resync'' = ''true'')"
  "so_Bootstrap (fst (ParseParams f form t)) = (url_Get form ''bootstrap'' = ''true'')"
  "so_FTP (fst (ParseParams f form t)) = (url_Get form ''ftp'' = ''true'')"
  "so_ILM (fst (ParseParams f form t)) = (url_Get form ''ilm'' = ''true'')"
  "so_KMS (fst (ParseParams f form t)) = (url_Get form ''kms'' = ''true'')"
  "so_Formatting (fst (ParseParams f form t)) = (url_Get form ''formatting'' = ''true'')"
  "so_PurgeOnDelete (fst (ParseParams f form t)) = (url_Get form ''purgeondelete'' = ''true'')"
  "so_OnlyErrors (fst (ParseParams f form t)) = (url_Get form ''err'' = ''true'')"
  "so_BatchAll (fst (ParseParams f form t)) = so_BatchAll t"
  by (simp_all add: ParseParams_def Let_def split: sum.split if_split)

lemma AddParams_Get:
  "url_Get (AddParams t u) ''s3'' = FormatBool (so_S3 t)"
  "url_Get (AddParams t u) ''internal'' = FormatBool (so_Internal t)"
  "url_Get (AddParams t u) ''storage'' = FormatBool (so_Storage t)"
  "url_Get (AddParams t u) ''os'' = FormatBool (so_OS t)"
  "url_Get (AddParams t u) ''scanner'' = FormatBool (so_Scanner t)"
  "url_Get (AddParams t u) ''decommission'' = FormatBool (so_Decommission t)"
  "url_Get (AddParams t u) ''healing'' = FormatBool (so_Healing t)"
  "url_Get (AddParams t u) ''batch-replication'' = FormatBool (so_BatchAll t \<or> so_BatchReplication t)"
  "url_Get (AddParams t u) ''batch-keyrotation'' = FormatBool (so_BatchAll t \<or> so_BatchKeyRotation t)"
  "url_Get (AddParams t u) ''batch-expire'' = FormatBool (so_BatchAll t \<or> so_BatchExpire t)"
  "url_Get (AddParams t u) ''rebalance'' = FormatBool (so_Rebalance t)"
  "url_Get (AddParams t u) ''tables'' = FormatBool (so_Tables t)"
  "url_Get (AddParams t u) ''replication-resync'' = FormatBool (so_ReplicationResync t)"
  "url_Get (AddParams t u) ''bootstrap'' = FormatBool (so_Bootstrap t)"
  "url_Get (AddParams t u) ''ftp'' = FormatBool (so_FTP t)"
  "url_Get (AddParams t u) ''ilm'' = FormatBool (so_ILM t)"
  "url_Get (AddParams t u) ''kms'' = FormatBool (so_KMS t)"
  "url_Get (AddParams t u) ''formatting'' = FormatBool (so_Formatting t)"
  "url_Get (AddParams t u) ''purgeondelete'' = FormatBool (so_PurgeOnDelete t)"
  "url_Get (AddParams t u) ''err'' = FormatBool (so_OnlyErrors t)"
  "url_Get (AddParams t u) ''threshold'' = Duration_String (so_Threshold t)"
  "url_Get (AddParams t u) ''threshold-ttfb'' = Duration_String (so_ThresholdTTFB t)"
  by (simp_all add: AddParams_def Let_def)

lemma TraceTypes_ParseParams_AddParams:
  assumes "\<not> so_BatchAll t0"
  shows "TraceTypes (fst (ParseParams f (AddParams t u) t0)) = TraceTypes t"
  unfolding TraceTypes_def Let_def ParseParams_sel AddParams_Get FormatBool_true
  using assms by simp

lemma bit_SetIf: "bit (TraceType_SetIf t b (2 ^ k)) n \<longleftrightarrow> bit t n \<or> (b \<and> k = n \<and> n < 64)"
  by (auto simp: TraceType_SetIf_def bit_or_iff bit_exp_iff)

lemmas trace_bits = TraceS3_def TraceInternal_def TraceStorage_def TraceOS_def TraceScanner_def
  TraceDecommission_def TraceHealing_def TraceBatchReplication_def TraceBatchKeyRotation_def
  TraceBatchExpire_def TraceRebalance_def TraceTables_def TraceReplicationResync_def
  TraceBootstrap_def TraceFTP_def TraceILM_def TraceKMS_def TraceFormatting_def TracePurgeOnDelete_def

lemma TraceTypes_bit:
  "bit (TraceTypes t) n \<longleftrightarrow> (so_S3 t \<and> 2 = n \<or>
     so_Internal t \<and> 3 = n \<or>
     so_Storage t \<and> 1 = n \<or>
     so_OS t \<and> 0 = n \<or>
     so_Scanner t \<and> 4 = n \<or>
     so_Decommission t \<and> 5 = n \<or>
     so_Healing t \<and> 6 = n \<or>
     (so_BatchAll t \<or> so_BatchReplication t) \<and> 7 = n \<or>
     (so_BatchAll t \<or> so_BatchKeyRotation t) \<and> 8 = n \<or>
     (so_BatchAll t \<or> so_BatchExpire t) \<and> 9 = n \<or>
     so_Rebalance t \<and> 10 = n \<or>
     so_Tables t \<and> 21 = n \<or>
     so_ReplicationResync t \<and> 11 = n \<or>
     so_Bootstrap t \<and> 12 = n \<or>
     so_FTP t \<and> 13 = n \<or>
     so_ILM t \<and> 14 = n \<or>
     so_KMS t \<and> 15 = n \<or>
     so_Formatting t \<and> 16 = n \<or>
     so_PurgeOnDelete t \<and> 22 = n)"
proof (cases "n < 64")
  case True
  show ?thesis
    unfolding TraceTypes_def Let_def trace_bits bit_SetIf
    by (simp only: bit_0_eq bot_apply bot_bool_def True simp_thms disj_assoc)
next
  case False
  then have "\<not> bit (TraceTypes t) n" by (auto dest: bit_imp_le_length)
  then show ?thesis using False by simp
qed

end
