(* ===== verification/Go_Strings.thy ===== *)
theory Go_Strings
  imports Go_Base "HOL-Library.Sublist"
begin

text \<open>
  The functions of Go's \<open>strings\<close> and \<open>unicode\<close> that the configuration parser uses, on the bytes of
  a string: splitting at a one-byte separator, prefixes and suffixes, white space, and ASCII case.
\<close>

subsection \<open>Splitting\<close>

text \<open>\<open>strings.SplitN(s, sep, 2)\<close>: the part before the first separator, and the rest if there is one.\<close>

definition split2 :: "char \<Rightarrow> string \<Rightarrow> string \<times> string option" where
  "split2 c s = (takeWhile (\<lambda>x. x \<noteq> c) s, if c \<in> set s then Some (tl (dropWhile (\<lambda>x. x \<noteq> c) s)) else None)"

text \<open>\<open>strings.Split(s, sep)\<close>.\<close>

fun split_all :: "char \<Rightarrow> string \<Rightarrow> string list" where
  "split_all c [] = [[]]"
| "split_all c (x # xs) = (if x = c then [] # split_all c xs
     else (case split_all c xs of [] \<Rightarrow> [[x]] | p # ps \<Rightarrow> (x # p) # ps))"

lemma split2_none [simp]: "c \<notin> set s \<Longrightarrow> split2 c s = (s, None)"
  by (auto simp: split2_def takeWhile_eq_all_conv)

lemma split2_append [simp]: "c \<notin> set s \<Longrightarrow> split2 c (s @ c # t) = (s, Some t)"
proof -
  assume c: "c \<notin> set s"
  then have "\<And>x. x \<in> set s \<Longrightarrow> x \<noteq> c" by blast
  then show ?thesis by (simp add: split2_def takeWhile_append2 dropWhile_append2)
qed

lemma split2_length: "split2 c s = (p, Some r) \<Longrightarrow> length r < length s"
proof -
  assume a: "split2 c s = (p, Some r)"
  then have c: "c \<in> set s" and r: "r = tl (dropWhile (\<lambda>x. x \<noteq> c) s)" by (auto simp: split2_def split: if_splits)
  from c have "s \<noteq> []" by auto
  then show ?thesis using r length_dropWhile_le [of "\<lambda>x. x \<noteq> c" s]
    by (cases "dropWhile (\<lambda>x. x \<noteq> c) s") auto
qed

lemma split_all_not_Nil [simp]: "split_all c s \<noteq> []"
  by (induction s) (auto split: list.split)

lemma split_all_none: "c \<notin> set s \<Longrightarrow> split_all c s = [s]"
  by (induction s) auto

lemma split_all_append: "c \<notin> set s \<Longrightarrow> split_all c (s @ c # t) = s # split_all c t"
  by (induction s) auto

text \<open>Lines: splitting at the newline undoes ending each line with one.\<close>

lemma split_all_lines:
  "(\<And>l. l \<in> set ls \<Longrightarrow> c \<notin> set l) \<Longrightarrow> split_all c (concat (map (\<lambda>l. l @ [c]) ls)) = ls @ [[]]"
  by (induction ls) (simp_all add: split_all_append)

subsection \<open>Prefixes and suffixes\<close>

definition TrimPrefix :: "string \<Rightarrow> string \<Rightarrow> string" where
  "TrimPrefix s p = (if prefix p s then drop (length p) s else s)"

definition TrimSuffix :: "string \<Rightarrow> string \<Rightarrow> string" where
  "TrimSuffix s p = (if suffix p s then take (length s - length p) s else s)"

lemma TrimPrefix_append [simp]: "TrimPrefix (p @ s) p = s"
  by (simp add: TrimPrefix_def)

lemma TrimSuffix_append [simp]: "TrimSuffix (s @ p) p = s"
  by (auto simp: TrimSuffix_def suffix_def)

lemma TrimPrefix_length: "length (TrimPrefix s p) \<le> length s"
  by (simp add: TrimPrefix_def)

text \<open>\<open>strings.ReplaceAll(s, old, new)\<close> for an \<open>old\<close> that is not empty.\<close>

function ReplaceAll :: "string \<Rightarrow> string \<Rightarrow> string \<Rightarrow> string" where
  "ReplaceAll s old new = (case s of [] \<Rightarrow> []
     | x # xs \<Rightarrow> if old \<noteq> [] \<and> prefix old s then new @ ReplaceAll (drop (length old) s) old new
         else x # ReplaceAll xs old new)"
  by pat_completeness auto
termination by (relation "measure (\<lambda>(s, _, _). length s)") auto

declare ReplaceAll.simps [simp del]

subsection \<open>White space\<close>

text \<open>
  The encodings of the runes for which \<open>unicode.IsSpace\<close> holds. A first byte of one of them
  cannot lie inside another rune, so looking for the encodings is decoding the string.
\<close>

definition spaces :: "string list" where
  "spaces = [[CHR '' ''], [CHR 0x09], [CHR 0x0A], [CHR 0x0B], [CHR 0x0C], [CHR 0x0D],
     [CHR 0xC2, CHR 0x85], [CHR 0xC2, CHR 0xA0], [CHR 0xE1, CHR 0x9A, CHR 0x80]]
   @ map (\<lambda>b. [CHR 0xE2, CHR 0x80, b]) [CHR 0x80, CHR 0x81, CHR 0x82, CHR 0x83, CHR 0x84, CHR 0x85, CHR 0x86,
       CHR 0x87, CHR 0x88, CHR 0x89, CHR 0x8A, CHR 0xA8, CHR 0xA9, CHR 0xAF]
   @ [[CHR 0xE2, CHR 0x81, CHR 0x9F], [CHR 0xE3, CHR 0x80, CHR 0x80]]"

lemma spaces_not_Nil: "p \<in> set spaces \<Longrightarrow> p \<noteq> []"
  by (auto simp: spaces_def)

lemma find_SomeD: "find P xs = Some x \<Longrightarrow> P x \<and> x \<in> set xs"
  by (induction xs) (auto split: if_splits)

lemma find_space: "find P spaces = Some p \<Longrightarrow> P p \<and> 0 < length p"
  using find_SomeD [of P spaces p] spaces_not_Nil [of p] by simp

lemma find_space_shorter:
  "find (\<lambda>p. prefix p s) spaces = Some p \<Longrightarrow> length (drop (length p) s) < length s"
  "find (\<lambda>p. suffix p s) spaces = Some p \<Longrightarrow> length (take (length s - length p) s) < length s"
  by (drule find_space, elim conjE prefixE suffixE, simp)+

function trim_left :: "string \<Rightarrow> string" where
  "trim_left s = (case find (\<lambda>p. prefix p s) spaces of None \<Rightarrow> s | Some p \<Rightarrow> trim_left (drop (length p) s))"
  by pat_completeness auto
termination by (relation "measure length") (use find_space_shorter(1) in auto)

function trim_right :: "string \<Rightarrow> string" where
  "trim_right s = (case find (\<lambda>p. suffix p s) spaces of None \<Rightarrow> s
     | Some p \<Rightarrow> trim_right (take (length s - length p) s))"
  by pat_completeness auto
termination by (relation "measure length") (use find_space_shorter(2) in auto)

declare trim_left.simps [simp del] trim_right.simps [simp del]

definition TrimSpace :: "string \<Rightarrow> string" where
  "TrimSpace s = trim_right (trim_left s)"

definition HasSpace :: "string \<Rightarrow> bool" where
  "HasSpace s \<longleftrightarrow> (\<exists>p\<in>set spaces. sublist p s)"

lemma trim_left_length: "length (trim_left s) \<le> length s"
proof (induction s rule: trim_left.induct)
  case (1 s)
  show ?case
  proof (cases "find (\<lambda>p. prefix p s) spaces")
    case (Some p)
    then show ?thesis
      using 1 find_space_shorter(1) [OF Some] by (subst trim_left.simps) (simp add: Some)
  qed (subst trim_left.simps, simp)
qed

lemma trim_right_length: "length (trim_right s) \<le> length s"
proof (induction s rule: trim_right.induct)
  case (1 s)
  show ?case
  proof (cases "find (\<lambda>p. suffix p s) spaces")
    case (Some p)
    then show ?thesis
      using 1 find_space_shorter(2) [OF Some] by (subst trim_right.simps) (simp add: Some)
  qed (subst trim_right.simps, simp)
qed

lemma TrimSpace_length: "length (TrimSpace s) \<le> length s"
  using trim_left_length [of s] trim_right_length [of "trim_left s"] by (simp add: TrimSpace_def)

text \<open>A visible ASCII character starts and ends no white space.\<close>

definition graphic :: "char \<Rightarrow> bool" where
  "graphic c \<longleftrightarrow> (let n = of_char c in 33 \<le> n \<and> n \<le> (126 :: nat))"

lemma spaces_not_graphic: "p \<in> set spaces \<Longrightarrow> \<not> graphic (hd p) \<and> \<not> graphic (last p)"
  by (auto simp: spaces_def graphic_def)

lemma graphic_start: "s = [] \<or> graphic (hd s) \<Longrightarrow> find (\<lambda>p. prefix p s) spaces = None"
  unfolding find_None_iff
proof
  assume s: "s = [] \<or> graphic (hd s)" and "\<exists>p. p \<in> set spaces \<and> prefix p s"
  then obtain p t where p: "p \<in> set spaces" "s = p @ t" by (auto simp: prefix_def)
  then show False using s spaces_not_graphic [OF p(1)] spaces_not_Nil [OF p(1)] by simp
qed

lemma graphic_end: "s = [] \<or> graphic (last s) \<Longrightarrow> find (\<lambda>p. suffix p s) spaces = None"
  unfolding find_None_iff
proof
  assume s: "s = [] \<or> graphic (last s)" and "\<exists>p. p \<in> set spaces \<and> suffix p s"
  then obtain p t where p: "p \<in> set spaces" "s = t @ p" by (auto simp: suffix_def)
  then show False using s spaces_not_graphic [OF p(1)] spaces_not_Nil [OF p(1)] by simp
qed

lemma trim_left_graphic [simp]: "s = [] \<or> graphic (hd s) \<Longrightarrow> trim_left s = s"
  by (subst trim_left.simps) (simp add: graphic_start)

lemma trim_right_graphic [simp]: "s = [] \<or> graphic (last s) \<Longrightarrow> trim_right s = s"
  by (subst trim_right.simps) (simp add: graphic_end)

lemma TrimSpace_graphic: "s = [] \<or> graphic (hd s) \<and> graphic (last s) \<Longrightarrow> TrimSpace s = s"
  by (auto simp: TrimSpace_def)

lemma trim_left_space [simp]: "trim_left (CHR '' '' # s) = trim_left s"
  by (subst trim_left.simps) (simp add: spaces_def)

lemma TrimSpace_space [simp]: "TrimSpace (CHR '' '' # s) = TrimSpace s"
  by (simp add: TrimSpace_def)

subsection \<open>Case\<close>

text \<open>\<open>strings.ToUpper\<close> and \<open>ToLower\<close> of an ASCII string, which the names of the configuration are.\<close>

definition char_upper :: "char \<Rightarrow> char" where
  "char_upper c = (let n = of_char c in if 97 \<le> n \<and> n \<le> (122 :: nat) then char_of (n - 32) else c)"

definition char_lower :: "char \<Rightarrow> char" where
  "char_lower c = (let n = of_char c in if 65 \<le> n \<and> n \<le> (90 :: nat) then char_of (n + 32) else c)"

definition ToUpper :: "string \<Rightarrow> string" where
  "ToUpper = map char_upper"

definition ToLower :: "string \<Rightarrow> string" where
  "ToLower = map char_lower"

text \<open>A name in lower case: no capital letters.\<close>

definition lower_name :: "string \<Rightarrow> bool" where
  "lower_name s \<longleftrightarrow> (\<forall>c\<in>set s. \<not> (65 \<le> (of_char c :: nat) \<and> of_char c \<le> (90 :: nat)))"

lemma char_lower_upper: "\<not> (65 \<le> (of_char c :: nat) \<and> of_char c \<le> (90 :: nat)) \<Longrightarrow> char_lower (char_upper c) = c"
  by (auto simp: char_lower_def char_upper_def Let_def)

lemma ToLower_ToUpper: "lower_name s \<Longrightarrow> ToLower (ToUpper s) = s"
  by (simp add: ToLower_def ToUpper_def lower_name_def char_lower_upper map_idI)

lemma ToLower_append: "ToLower (s @ t) = ToLower s @ ToLower t"
  by (simp add: ToLower_def)

lemma char_upper_iff: "\<not> (97 \<le> (of_char d :: nat) \<and> of_char d \<le> (122 :: nat)) \<Longrightarrow>
  \<not> (65 \<le> (of_char d :: nat) \<and> of_char d \<le> (90 :: nat)) \<Longrightarrow> char_upper c = d \<longleftrightarrow> c = d"
  by (auto simp: char_upper_def Let_def)

end
