(* ===== verification/Resource_Queries.thy ===== *)
theory Resource_Queries
  imports Flags Go_Strings
begin

text \<open>
  \<open>info-v4-resources.go\<close>: \<open>SortSlice\<close>, which sorts a slice by a field that reflection finds, and the
  parameters of the queries. A Go value is a \<open>goval\<close>; a \<open>reflect.Value\<close> is a \<open>goval option\<close>, \<open>None\<close> being the
  invalid one.
\<close>

subsection \<open>Values and their fields\<close>

datatype 'f goval = VString string | VInt i64 | VUint u64 | VFloat 'f | VPtr "'f goval option"
  | VStruct "(string \<times> 'f goval) list" | VOther

definition dereferenceValue :: "'f goval option \<Rightarrow> 'f goval option" where
  "dereferenceValue v = (case v of None \<Rightarrow> None | Some (VPtr p) \<Rightarrow> p | Some w \<Rightarrow> Some w)"

fun unwrap :: "'f goval \<Rightarrow> 'f goval option" where
  "unwrap (VPtr None) = None"
| "unwrap (VPtr (Some v)) = unwrap v"
| "unwrap v = Some v"

fun findFieldCaseInsensitive :: "(string \<times> 'f goval) list \<Rightarrow> string \<Rightarrow> 'f goval option" where
  "findFieldCaseInsensitive [] name = None"
| "findFieldCaseInsensitive ((n, v) # fs) name = (if EqualFold n name then Some v else findFieldCaseInsensitive fs name)"

fun resolveFieldPath :: "'f goval \<Rightarrow> string list \<Rightarrow> 'f goval option" where
  "resolveFieldPath current [] = Some current"
| "resolveFieldPath current (fieldName # parts) = (case unwrap current of
     Some (VStruct fs) \<Rightarrow> (case findFieldCaseInsensitive fs fieldName of None \<Rightarrow> None
       | Some field \<Rightarrow> if parts \<noteq> [] then resolveFieldPath field parts else Some field)
   | _ \<Rightarrow> None)"

text \<open>Both values are the same field of two values of one type, so they have the same kind.\<close>

definition compareFields :: "('f::ord) goval option \<Rightarrow> 'f goval option \<Rightarrow> bool \<times> bool" where
  "compareFields a b = (case (dereferenceValue a, dereferenceValue b) of
     (None, None) \<Rightarrow> (False, True)
   | (None, Some _) \<Rightarrow> (True, True)
   | (Some _, None) \<Rightarrow> (False, True)
   | (Some (VString s), Some (VString t)) \<Rightarrow> (ToLower s < ToLower t, True)
   | (Some (VInt i), Some (VInt j)) \<Rightarrow> (i <s j, True)
   | (Some (VUint i), Some (VUint j)) \<Rightarrow> (i < j, True)
   | (Some (VFloat x), Some (VFloat y)) \<Rightarrow> (x < y, True)
   | _ \<Rightarrow> (False, False))"

definition sort_less :: "string list \<Rightarrow> bool \<Rightarrow> ('f::ord) goval \<Rightarrow> 'f goval \<Rightarrow> bool" where
  "sort_less parts reversed x y = (case dereferenceValue (Some x) of None \<Rightarrow> \<not> reversed
     | Some valI \<Rightarrow> (case dereferenceValue (Some y) of None \<Rightarrow> reversed
       | Some valJ \<Rightarrow>
           (let fieldI = resolveFieldPath valI parts; fieldJ = resolveFieldPath valJ parts;
                (lessThan, ok) = compareFields fieldI fieldJ
            in if \<not> ok then False
            else if reversed then fst (compareFields fieldJ fieldI)
            else lessThan)))"

subsection \<open>Stable sorting\<close>

text \<open>\<open>sort.SliceStable\<close>: for an order, the only stable sorting is that by insertion.\<close>

fun insert_less :: "('a \<Rightarrow> 'a \<Rightarrow> bool) \<Rightarrow> 'a \<Rightarrow> 'a list \<Rightarrow> 'a list" where
  "insert_less lt x [] = [x]"
| "insert_less lt x (y # ys) = (if lt y x then y # insert_less lt x ys else x # y # ys)"

definition SliceStable :: "('a \<Rightarrow> 'a \<Rightarrow> bool) \<Rightarrow> 'a list \<Rightarrow> 'a list" where
  "SliceStable lt xs = foldr (insert_less lt) xs []"

definition SortSlice :: "('f::ord) goval list \<Rightarrow> string \<Rightarrow> bool \<Rightarrow> 'f goval list" where
  "SortSlice xs field reversed =
    (if field = [] then xs else SliceStable (sort_less (split_all CHR ''.'' field) reversed) xs)"

text \<open>What the sorting needs: on the elements of the slice the comparison is a strict weak order.\<close>

locale weak_order =
  fixes lt :: "'a \<Rightarrow> 'a \<Rightarrow> bool" and S :: "'a set"
  assumes asym: "x \<in> S \<Longrightarrow> y \<in> S \<Longrightarrow> lt x y \<Longrightarrow> \<not> lt y x"
    and neg_trans: "x \<in> S \<Longrightarrow> y \<in> S \<Longrightarrow> z \<in> S \<Longrightarrow> \<not> lt x y \<Longrightarrow> \<not> lt y z \<Longrightarrow> \<not> lt x z"
begin

definition same :: "'a \<Rightarrow> 'a \<Rightarrow> bool" where
  "same x y \<longleftrightarrow> \<not> lt x y \<and> \<not> lt y x"

lemma insert_mset: "mset (insert_less lt x ys) = add_mset x (mset ys)"
  by (induction ys) auto

lemma SliceStable_mset: "mset (SliceStable lt xs) = mset xs"
  by (induction xs) (simp_all add: SliceStable_def insert_mset)

lemma SliceStable_set: "set (SliceStable lt xs) = set xs"
  by (metis SliceStable_mset set_mset_mset)

lemma insert_set: "set (insert_less lt x ys) = insert x (set ys)"
  by (metis insert_mset set_mset_add_mset_insert set_mset_mset)

lemma insert_sorted:
  "x \<in> S \<Longrightarrow> set ys \<subseteq> S \<Longrightarrow> sorted_wrt (\<lambda>a b. \<not> lt b a) ys \<Longrightarrow>
   sorted_wrt (\<lambda>a b. \<not> lt b a) (insert_less lt x ys)"
proof (induction ys)
  case (Cons y ys)
  have y: "y \<in> S" "set ys \<subseteq> S" "\<forall>b\<in>set ys. \<not> lt b y" using Cons.prems by auto
  show ?case
  proof (cases "lt y x")
    case True
    then show ?thesis using Cons y asym [OF y(1) Cons.prems(1)] by (auto simp: insert_set)
  next
    case False
    have "\<not> lt b x" if "b \<in> set ys" for b
      using neg_trans [of b y x] that y Cons.prems(1) False by blast
    then show ?thesis using Cons.prems False by auto
  qed
qed simp

lemma SliceStable_sorted: "set xs \<subseteq> S \<Longrightarrow> sorted_wrt (\<lambda>a b. \<not> lt b a) (SliceStable lt xs)"
proof (induction xs)
  case (Cons x xs)
  have "set (SliceStable lt xs) \<subseteq> S" using Cons.prems SliceStable_set [of xs] by simp
  then show ?case using Cons insert_sorted [of x "SliceStable lt xs"] by (simp add: SliceStable_def)
qed (simp add: SliceStable_def)

lemma insert_same:
  "x \<in> S \<Longrightarrow> set ys \<subseteq> S \<Longrightarrow> z \<in> S \<Longrightarrow>
   filter (same z) (insert_less lt x ys) = (if same z x then x # filter (same z) ys else filter (same z) ys)"
proof (induction ys)
  case (Cons y ys)
  have y: "y \<in> S" "set ys \<subseteq> S" using Cons.prems by auto
  have "\<not> (same z x \<and> same z y)" if "lt y x"
    using that neg_trans [of y z x] y(1) Cons.prems(1,3) by (auto simp: same_def)
  then show ?case using Cons y by auto
qed simp

lemma SliceStable_same:
  "set xs \<subseteq> S \<Longrightarrow> z \<in> S \<Longrightarrow> filter (same z) (SliceStable lt xs) = filter (same z) xs"
proof (induction xs)
  case (Cons x xs)
  have "set (SliceStable lt xs) \<subseteq> S" using Cons.prems SliceStable_set [of xs] by simp
  then show ?case using Cons insert_same [of x "SliceStable lt xs" z] by (simp add: SliceStable_def)
qed (simp add: SliceStable_def)

end

subsection \<open>The fields of a slice are ordered\<close>

datatype kind = KString | KInt | KUint | KFloat

fun kind_of :: "'f goval \<Rightarrow> kind option" where
  "kind_of (VString _) = Some KString"
| "kind_of (VInt _) = Some KInt"
| "kind_of (VUint _) = Some KUint"
| "kind_of (VFloat _) = Some KFloat"
| "kind_of _ = None"

text \<open>The field of an element, behind its pointers; elements that are no nil pointer and whose field is
  absent, nil, or of a given kind.\<close>

definition field_of :: "string list \<Rightarrow> 'f goval \<Rightarrow> 'f goval option" where
  "field_of parts x = (case dereferenceValue (Some x) of None \<Rightarrow> None
     | Some v \<Rightarrow> dereferenceValue (resolveFieldPath v parts))"

definition comparable :: "string list \<Rightarrow> kind \<Rightarrow> 'f goval set" where
  "comparable parts k = {x. dereferenceValue (Some x) \<noteq> None \<and>
     (case field_of parts x of None \<Rightarrow> True | Some u \<Rightarrow> kind_of u = Some k)}"

definition field_less :: "('f::ord) goval option \<Rightarrow> 'f goval option \<Rightarrow> bool" where
  "field_less a b = (case (a, b) of
     (None, Some _) \<Rightarrow> True
   | (Some (VString s), Some (VString t)) \<Rightarrow> ToLower s < ToLower t
   | (Some (VInt i), Some (VInt j)) \<Rightarrow> i <s j
   | (Some (VUint i), Some (VUint j)) \<Rightarrow> i < j
   | (Some (VFloat x), Some (VFloat y)) \<Rightarrow> x < y
   | _ \<Rightarrow> False)"

lemma kind_of_cases:
  "kind_of v = Some KString \<Longrightarrow> \<exists>s. v = VString s" "kind_of v = Some KInt \<Longrightarrow> \<exists>i. v = VInt i"
  "kind_of v = Some KUint \<Longrightarrow> \<exists>i. v = VUint i" "kind_of v = Some KFloat \<Longrightarrow> \<exists>x. v = VFloat x"
  by (cases v; simp)+

lemma sort_less_field:
  assumes "x \<in> comparable parts k" and "y \<in> comparable parts k"
  shows "sort_less parts reversed x y =
    (if reversed then field_less (field_of parts y) (field_of parts x) else field_less (field_of parts x) (field_of parts y))"
proof -
  obtain v w where v: "dereferenceValue (Some x) = Some v" "dereferenceValue (Some y) = Some w"
    using assms by (auto simp: comparable_def)
  let ?a = "dereferenceValue (resolveFieldPath v parts)" and ?b = "dereferenceValue (resolveFieldPath w parts)"
  have f: "field_of parts x = ?a" "field_of parts y = ?b" by (simp_all add: field_of_def v)
  have k: "case ?a of None \<Rightarrow> True | Some u \<Rightarrow> kind_of u = Some k" "case ?b of None \<Rightarrow> True | Some u \<Rightarrow> kind_of u = Some k"
    using assms by (simp_all add: comparable_def f)
  have c: "compareFields (resolveFieldPath v parts) (resolveFieldPath w parts) = (field_less ?a ?b, True)"
    "fst (compareFields (resolveFieldPath w parts) (resolveFieldPath v parts)) = field_less ?b ?a"
    using k by (cases k; auto simp: compareFields_def field_less_def split: option.splits dest!: kind_of_cases)+
  show ?thesis using c by (simp add: sort_less_def v f)
qed

definition of_kind :: "kind \<Rightarrow> 'f goval option \<Rightarrow> bool" where
  "of_kind k a \<longleftrightarrow> (case a of None \<Rightarrow> True | Some u \<Rightarrow> kind_of u = Some k)"

lemma field_less_asym:
  fixes a b :: "('f::linorder) goval option"
  assumes "of_kind k a" and "of_kind k b" and "field_less a b"
  shows "\<not> field_less b a"
  using assms by (cases k; cases a; cases b) (auto simp: of_kind_def field_less_def word_sless_alt dest!: kind_of_cases)

lemma field_less_neg_trans:
  fixes a b c :: "('f::linorder) goval option"
  assumes "of_kind k a" and "of_kind k b" and "of_kind k c" and "\<not> field_less a b" and "\<not> field_less b c"
  shows "\<not> field_less a c"
  using assms by (cases k; cases a; cases b; cases c)
    (auto simp: of_kind_def field_less_def word_sless_alt dest!: kind_of_cases)

lemma comparable_kind: "x \<in> comparable parts k \<Longrightarrow> of_kind k (field_of parts x)"
  by (simp add: comparable_def of_kind_def)

interpretation fields: weak_order "sort_less parts reversed" "comparable parts k :: ('f::linorder) goval set"
  for parts reversed k
proof
  fix x y :: "'f goval"
  assume x: "x \<in> comparable parts k" and y: "y \<in> comparable parts k" and l: "sort_less parts reversed x y"
  note a = field_less_asym [OF comparable_kind [OF x] comparable_kind [OF y]]
    field_less_asym [OF comparable_kind [OF y] comparable_kind [OF x]]
  show "\<not> sort_less parts reversed y x"
    using l a unfolding sort_less_field [OF x y] sort_less_field [OF y x] by (auto split: if_splits)
next
  fix x y z :: "'f goval"
  assume x: "x \<in> comparable parts k" and y: "y \<in> comparable parts k" and z: "z \<in> comparable parts k"
    and l: "\<not> sort_less parts reversed x y" "\<not> sort_less parts reversed y z"
  note k = comparable_kind [OF x] comparable_kind [OF y] comparable_kind [OF z]
  show "\<not> sort_less parts reversed x z"
    using l field_less_neg_trans [OF k] field_less_neg_trans [OF k(3,2,1)]
    unfolding sort_less_field [OF x y] sort_less_field [OF y z] sort_less_field [OF x z] by (auto split: if_splits)
qed

text \<open>The result of \<open>SortSlice\<close>: the same elements, in order, and equal ones in the order they had.\<close>

lemma SortSlice_spec:
  fixes xs :: "('f::linorder) goval list"
  assumes "field \<noteq> []" and "set xs \<subseteq> comparable (split_all CHR ''.'' field) k"
  shows "mset (SortSlice xs field reversed) = mset xs"
    and "sorted_wrt (\<lambda>a b. \<not> sort_less (split_all CHR ''.'' field) reversed b a) (SortSlice xs field reversed)"
    and "z \<in> comparable (split_all CHR ''.'' field) k \<Longrightarrow>
      filter (\<lambda>x. \<not> sort_less (split_all CHR ''.'' field) reversed z x \<and> \<not> sort_less (split_all CHR ''.'' field) reversed x z)
        (SortSlice xs field reversed) =
      filter (\<lambda>x. \<not> sort_less (split_all CHR ''.'' field) reversed z x \<and> \<not> sort_less (split_all CHR ''.'' field) reversed x z) xs"
proof -
  have s: "SortSlice xs field reversed = SliceStable (sort_less (split_all CHR ''.'' field) reversed) xs"
    using assms(1) by (simp add: SortSlice_def)
  show "mset (SortSlice xs field reversed) = mset xs" unfolding s by (rule fields.SliceStable_mset)
  show "sorted_wrt (\<lambda>a b. \<not> sort_less (split_all CHR ''.'' field) reversed b a) (SortSlice xs field reversed)"
    unfolding s by (rule fields.SliceStable_sorted [OF assms(2)])
  show "filter (\<lambda>x. \<not> sort_less (split_all CHR ''.'' field) reversed z x \<and> \<not> sort_less (split_all CHR ''.'' field) reversed x z)
        (SortSlice xs field reversed) =
      filter (\<lambda>x. \<not> sort_less (split_all CHR ''.'' field) reversed z x \<and> \<not> sort_less (split_all CHR ''.'' field) reversed x z) xs"
    if "z \<in> comparable (split_all CHR ''.'' field) k"
    using fields.SliceStable_same [OF assms(2) that, of reversed] unfolding s fields.same_def .
qed

text \<open>Two nil elements are each less than the other: the comparison is then no order.\<close>

lemma sort_less_nil: "sort_less parts False (VPtr None) (VPtr None)"
  by (simp add: sort_less_def dereferenceValue_def)

subsection \<open>Metrics of a query\<close>

record OptionalMetrics =
  om_Types :: MetricType
  om_Flags :: MetricFlags

definition OptionalMetrics_apply :: "OptionalMetrics \<Rightarrow> url_values \<Rightarrow> url_values" where
  "OptionalMetrics_apply o' q =
    (if om_Types o' \<noteq> 0 then
       let q = fmupd ''metric-types'' (fmt_nat (unat (om_Types o'))) q
       in fmupd ''metric-flags'' (fmt_nat (unat (om_Flags o'))) q
     else q)"

definition OptionalMetrics_Add :: "MetricType list \<Rightarrow> OptionalMetrics \<Rightarrow> OptionalMetrics" where
  "OptionalMetrics_Add m o' = fold (\<lambda>t o'. o'\<lparr>om_Types := or (om_Types o') t\<rparr>) m o'"

definition OptionalMetrics_AddFlags :: "MetricFlags list \<Rightarrow> OptionalMetrics \<Rightarrow> OptionalMetrics" where
  "OptionalMetrics_AddFlags f o' = fold (\<lambda>f o'. o'\<lparr>om_Flags := or (om_Flags o') f\<rparr>) f o'"

text \<open>\<open>strconv.ParseUint(s, 10, 64)\<close>; an error is \<open>None\<close>.\<close>

definition ParseUint64 :: "string \<Rightarrow> u64 option" where
  "ParseUint64 s = (case parse_nat s of None \<Rightarrow> None
     | Some n \<Rightarrow> if n < 18446744073709551616 then Some (of_nat n) else None)"

definition OptionalMetrics_Parse :: "url_values \<Rightarrow> OptionalMetrics \<Rightarrow> OptionalMetrics" where
  "OptionalMetrics_Parse q o' =
    (let o' = (case ParseUint64 (url_Get q ''metric-types'') of None \<Rightarrow> o' | Some t \<Rightarrow> o'\<lparr>om_Types := ucast t\<rparr>)
     in case ParseUint64 (url_Get q ''metric-flags'') of None \<Rightarrow> o' | Some f \<Rightarrow> o'\<lparr>om_Flags := f\<rparr>)"

lemma ParseUint64_fmt:
  "ParseUint64 (fmt_nat (unat (w :: u64))) = Some w" "ParseUint64 (fmt_nat (unat (v :: u32))) = Some (ucast v)"
proof -
  have "unat w < 18446744073709551616" "unat v < 18446744073709551616"
    by (rule order_less_le_trans [OF unsigned_less], simp)+
  then show "ParseUint64 (fmt_nat (unat w)) = Some w" "ParseUint64 (fmt_nat (unat v)) = Some (ucast v)"
    by (simp_all add: ParseUint64_def)
qed

lemma ucast_back: "ucast (ucast v :: u64) = (v :: u32)"
  by (rule bit_word_eqI) (simp add: bit_simps)

lemma OptionalMetrics_Parse_apply:
  "om_Types o' \<noteq> 0 \<Longrightarrow> OptionalMetrics_Parse (OptionalMetrics_apply o' q) o0 = o'"
  by (cases o') (simp add: ucast_back OptionalMetrics_Parse_def OptionalMetrics_apply_def Let_def ParseUint64_fmt)

subsection \<open>The parameters of the queries\<close>

record PageOpts =
  po_Limit :: i64
  po_Offset :: i64
  po_Filter :: string
  po_Sort :: string
  po_SortReversed :: bool

record NodesResourceOpts = PageOpts +
  no_Metrics :: OptionalMetrics

record DrivesResourceOpts = PageOpts +
  do_Metrics :: bool
  do_LastMinute :: bool
  do_LastDay :: bool

definition page_values :: "'a PageOpts_scheme \<Rightarrow> url_values \<Rightarrow> url_values" where
  "page_values options values =
    (let values = fmupd ''limit'' (fmt_int (sint (po_Limit options))) values;
         values = (if 0 <s po_Offset options then fmupd ''offset'' (fmt_int (sint (po_Offset options))) values else values);
         values = (if po_Filter options \<noteq> [] then fmupd ''filter'' (po_Filter options) values else values);
         values = (if po_Sort options \<noteq> [] then fmupd ''sort'' (po_Sort options) values else values)
     in if po_SortReversed options then fmupd ''sortReversed'' ''true'' values
        else fmupd ''sortReversed'' ''false'' values)"

definition PoolsQuery_values :: "PageOpts option \<Rightarrow> url_values" where
  "PoolsQuery_values options = (case options of None \<Rightarrow> fmempty | Some options \<Rightarrow> page_values options fmempty)"

definition ErasureSetsQuery_values :: "PageOpts option \<Rightarrow> url_values" where
  "ErasureSetsQuery_values options = (case options of None \<Rightarrow> fmempty | Some options \<Rightarrow> page_values options fmempty)"

definition NodesQuery_values :: "NodesResourceOpts option \<Rightarrow> url_values" where
  "NodesQuery_values options = (case options of None \<Rightarrow> fmempty
     | Some options \<Rightarrow> page_values options (OptionalMetrics_apply (no_Metrics options) fmempty))"

definition DrivesQuery_values :: "DrivesResourceOpts option \<Rightarrow> url_values" where
  "DrivesQuery_values options = (case options of None \<Rightarrow> fmempty
     | Some options \<Rightarrow>
         (let values = page_values options fmempty;
              values = (if do_Metrics options then fmupd ''metrics'' ''true'' values else values);
              values = (if do_LastMinute options then fmupd ''1m'' ''true'' values else values)
          in if do_LastDay options then fmupd ''24h'' ''true'' values else values))"

lemma page_values_Get:
  "url_Get (page_values o' q) ''metric-types'' = url_Get q ''metric-types''"
  "url_Get (page_values o' q) ''metric-flags'' = url_Get q ''metric-flags''"
  "url_Get (page_values o' q) ''limit'' = fmt_int (sint (po_Limit o'))"
  by (simp_all add: page_values_def Let_def)

lemma NodesQuery_metrics:
  assumes "om_Types (no_Metrics o') \<noteq> 0"
  shows "OptionalMetrics_Parse (NodesQuery_values (Some o')) o0 = no_Metrics o'"
  using OptionalMetrics_Parse_apply [OF assms, of fmempty o0]
  by (simp add: NodesQuery_values_def OptionalMetrics_Parse_def page_values_Get)

end
