(* ===== verification/Client_Properties.thy ===== *)
theory Client_Properties
  imports Flags Resource_Queries
begin

text \<open>
  The properties of the bit fields of the client: the flags of a metrics request, the names of
  trace types, and the trace and metrics options through the parameters of a request; and of the
  sorting of query results.
\<close>

text \<open>
  The flags of a metrics request are the options' own flags, and the by-disk flag as soon as
  \<open>ByDisk\<close> or \<open>ByHost\<close> is asked for: \<open>ByHost\<close> adds \<open>MetricsByDisk\<close> and never \<open>MetricsByHost\<close>.
\<close>

theorem request_flags:
  "url_Get (Metrics_query o') ''flags'' = fmt_nat (unat (mo_Flags o' OR
     (if mo_ByHost o' \<or> mo_ByDisk o' then MetricsByDisk else 0)))"
  by (rule Metrics_query_flags)

text \<open>
  The name of a type is the names of its bits, in order, separated by commas: \<open>String\<close> of a
  \<open>MetricType\<close> names exactly the sets that the type contains.
\<close>

theorem metric_type_names:
  "MetricType_String m = join '','' (map snd (filter (\<lambda>(x, _). MetricType_Contains m x) metric_names))"
  by (rule MetricType_String_join)

text \<open>
  Looking up the name of any of the 23 trace types, in any case of its letters, gives this type.
\<close>

theorem trace_type_roundtrip:
  assumes "k < 23" and "EqualFold (TraceType_String (2 ^ k)) s"
  shows "FindTraceType s = 2 ^ k"
  by (rule FindTraceType_name [OF assms])

theorem trace_type_roundtrip_witness: "FindTraceType ''batchreplication'' = TraceBatchReplication"
proof -
  have "EqualFold (TraceType_String (2 ^ 7)) ''batchreplication''" by code_simp
  then show ?thesis using trace_type_roundtrip [of 7 "''batchreplication''"] by (simp add: TraceBatchReplication_def)
qed

text \<open>
  Whatever is looked up, the result is a single trace type of this name, or no type at all: a
  name never selects two types, and never \<open>TraceAll\<close>.
\<close>

theorem trace_type_lookup:
  "FindTraceType s = 0 \<or> (\<exists>k<23. FindTraceType s = 2 ^ k \<and> EqualFold (TraceType_String (2 ^ k)) s)"
  by (rule FindTraceType_result)

text \<open>
  C37. The server sees the trace types the client asked for: options that are written into the
  parameters of a request and parsed from it select the same types, whatever parameters were
  there before and however the durations are parsed.
\<close>

theorem trace_request_roundtrip:
  assumes "\<not> so_BatchAll t0"
  shows "TraceTypes (fst (ParseParams f (AddParams t u) t0)) = TraceTypes t"
  by (rule TraceTypes_ParseParams_AddParams [OF assms])

definition ex_trace :: ServiceTraceOpts where
  "ex_trace = \<lparr>so_S3 = True, so_Internal = False, so_Storage = False, so_OS = True, so_Scanner = False,
     so_Decommission = False, so_Healing = True, so_BatchReplication = False, so_BatchKeyRotation = False,
     so_BatchExpire = False, so_Tables = True, so_BatchAll = False, so_Rebalance = False, so_ReplicationResync = False,
     so_Bootstrap = False, so_FTP = False, so_ILM = False, so_KMS = True, so_Formatting = False,
     so_PurgeOnDelete = True, so_OnlyErrors = True, so_Threshold = 5000000, so_ThresholdTTFB = 0\<rparr>"

theorem trace_request_roundtrip_witness:
  "TraceTypes (fst (ParseParams (\<lambda>_. Inr 0 :: unit + duration)
     (AddParams (ex_trace\<lparr>so_BatchAll := True\<rparr>) fmempty) ex_trace)) = TraceTypes (ex_trace\<lparr>so_BatchAll := True\<rparr>)"
  by (rule trace_request_roundtrip) (simp add: ex_trace_def)




text \<open>
  C28. The metrics that a query of nodes asks for reach the server: whatever options were there before, parsing
  the parameters of the request gives the types and flags that were asked for.
\<close>

theorem query_metrics_roundtrip:
  assumes "om_Types (no_Metrics o') \<noteq> 0"
  shows "OptionalMetrics_Parse (NodesQuery_values (Some o')) o0 = no_Metrics o'"
  by (rule NodesQuery_metrics [OF assms])

theorem query_metrics_roundtrip_witness:
  "OptionalMetrics_Parse (NodesQuery_values (Some \<lparr>po_Limit = - 1, po_Offset = 0, po_Filter = ''a'', po_Sort = [],
      po_SortReversed = True, no_Metrics = \<lparr>om_Types = 5, om_Flags = 2 ^ 40\<rparr>\<rparr>)) \<lparr>om_Types = 1, om_Flags = 1\<rparr> =
    \<lparr>om_Types = 5, om_Flags = 2 ^ 40\<rparr>"
  using query_metrics_roundtrip [of "\<lparr>po_Limit = - 1, po_Offset = 0, po_Filter = ''a'', po_Sort = [],
      po_SortReversed = True, no_Metrics = \<lparr>om_Types = 5, om_Flags = 2 ^ 40\<rparr>\<rparr>" "\<lparr>om_Types = 1, om_Flags = 1\<rparr>"] by simp

end
