(* ===== verification/Config_Parse.thy ===== *)
theory Config_Parse
  imports Go_Strings Go_Maps
begin

text \<open>
  \<open>parse-config.go\<close>: the configuration of a subsystem with the index of its keys, and the parser
  of the server's configuration output. An error is a value of \<open>config_err\<close>; a panic (an index
  out of range) is \<open>None\<close>.
\<close>

subsection \<open>Subsystems\<close>

definition SubSystems :: "string list" where
  "SubSystems = [''credentials'', ''policy_opa'', ''policy_plugin'', ''identity_openid'', ''identity_ldap'',
     ''identity_tls'', ''identity_plugin'', ''cache'', ''site'', ''region'', ''etcd'', ''storage_class'', ''api'',
     ''compression'', ''logger_webhook'', ''audit_webhook'', ''audit_kafka'', ''heal'', ''scanner'', ''crawler'',
     ''subnet'', ''callhome'', ''batch'', ''drive'', ''ilm'', ''replication'', ''notify_kafka'', ''notify_mqtt'',
     ''notify_mysql'', ''notify_nats'', ''notify_nsq'', ''notify_elasticsearch'', ''notify_amqp'',
     ''notify_postgres'', ''notify_redis'', ''notify_webhook'', ''lambda_webhook'', ''browser'']"

definition EOSSubSystems :: "string list" where
  "EOSSubSystems = [''credentials'', ''policy_opa'', ''policy_plugin'', ''identity_openid'', ''identity_ldap'',
     ''identity_tls'', ''identity_plugin'', ''cache'', ''site'', ''region'', ''etcd'', ''storage_class'', ''api'',
     ''compression'', ''logger_webhook'', ''audit_webhook'', ''audit_kafka'', ''heal'', ''scanner'', ''crawler'',
     ''subnet'', ''callhome'', ''batch'', ''drive'', ''ilm'', ''replication'', ''notify_kafka'', ''notify_mqtt'',
     ''notify_mysql'', ''notify_nats'', ''notify_nsq'', ''notify_elasticsearch'', ''notify_amqp'',
     ''notify_postgres'', ''notify_redis'', ''notify_webhook'', ''lambda_webhook'', ''browser'',
     ''audit_event_queue'', ''erasure'', ''bucket_event_queue'', ''kubernetes'', ''telemetry_target'', ''log'']"

definition Default :: string where "Default = ''_''"
definition EnvPrefix :: string where "EnvPrefix = ''MINIO_''"

definition SanitizeValue :: "string \<Rightarrow> string" where
  "SanitizeValue v =
    (let v = TrimSuffix (TrimPrefix (TrimSpace v) [CHR 0x22]) [CHR 0x22]
     in TrimSuffix (TrimPrefix v [CHR 0x27]) [CHR 0x27])"

subsection \<open>The configuration of a subsystem\<close>

record EnvOverride =
  eo_Name :: string
  eo_Value :: string

record ConfigKV =
  kv_Key :: string
  kv_Value :: string
  kv_Env :: "EnvOverride option"

record SubsysConfig =
  sc_SubSystem :: string
  sc_Target :: string
  sc_KV :: "ConfigKV list"
  sc_index :: "(string, nat) gomap"

definition AddConfigKV :: "ConfigKV \<Rightarrow> SubsysConfig \<Rightarrow> SubsysConfig option" where
  "AddConfigKV ckv c =
    (let c = c\<lparr>sc_index := gm_make_if True (sc_index c)\<rparr>
     in case gm_get (sc_index c) (kv_Key ckv) of
          Some idx \<Rightarrow> if idx < length (sc_KV c) then Some (c\<lparr>sc_KV := (sc_KV c)[idx := ckv]\<rparr>) else None
        | None \<Rightarrow>
            (let c = c\<lparr>sc_KV := sc_KV c @ [ckv]\<rparr>
             in Some (c\<lparr>sc_index := map_option (fmupd (kv_Key ckv) (length (sc_KV c) - 1)) (sc_index c)\<rparr>)))"

definition Lookup :: "SubsysConfig \<Rightarrow> string \<Rightarrow> (string \<times> bool) option" where
  "Lookup c key = (case gm_get (sc_index c) key of None \<Rightarrow> Some ([], False)
     | Some idx \<Rightarrow> if \<not> idx < length (sc_KV c) then None
         else (case kv_Env (sc_KV c ! idx) of Some ev \<Rightarrow> Some (eo_Value ev, True)
           | None \<Rightarrow> Some (kv_Value (sc_KV c ! idx), True)))"

definition LookupEnv :: "SubsysConfig \<Rightarrow> string \<Rightarrow> (string \<times> string \<times> bool) option" where
  "LookupEnv c key = (case gm_get (sc_index c) key of None \<Rightarrow> Some ([], [], False)
     | Some idx \<Rightarrow> if \<not> idx < length (sc_KV c) then None
         else Some (kv_Value (sc_KV c ! idx),
           (case kv_Env (sc_KV c ! idx) of Some evo \<Rightarrow> eo_Value evo | None \<Rightarrow> []), True))"

subsection \<open>Lines\<close>

datatype config_err = InvalidEnvVarLine | InvalidConfigKV | EnvPrefixError string string

definition parseEnvVarLine :: "string \<Rightarrow> string \<Rightarrow> string \<Rightarrow> config_err + ConfigKV" where
  "parseEnvVarLine s subSystem target =
    (let s = TrimPrefix s ''# ''
     in case split2 CHR ''='' s of
          (_, None) \<Rightarrow> Inl InvalidEnvVarLine
        | (envVar, Some value) \<Rightarrow>
            (let envPrefix = EnvPrefix @ ToUpper subSystem @ ''_''
             in if \<not> prefix envPrefix envVar then Inl (EnvPrefixError envVar envPrefix)
             else
               let configVar = TrimPrefix envVar envPrefix;
                   configVar = (if target \<noteq> Default then TrimSuffix configVar (''_'' @ target) else configVar)
               in Inr \<lparr>kv_Key = ToLower configVar, kv_Value = [], kv_Env = Some \<lparr>eo_Name = envVar, eo_Value = value\<rparr>\<rparr>))"

definition parseConfigKey :: "string \<Rightarrow> config_err + string \<times> string" where
  "parseConfigKey text =
    (let (k, rem) = split2 CHR ''='' text;
         key = TrimSpace k
     in if length key = 0 then Inl InvalidConfigKV
     else (case rem of None \<Rightarrow> Inl InvalidConfigKV | Some rem \<Rightarrow> Inr (key, rem)))"

definition parseConfigValue :: "string \<Rightarrow> config_err + string \<times> string" where
  "parseConfigValue text =
    (if prefix [CHR 0x22] text then
       let text = TrimPrefix text [CHR 0x22]
       in case split2 CHR 0x22 text of
            (v, None) \<Rightarrow> Inl InvalidConfigKV
          | (v, Some rem) \<Rightarrow> Inr (v, TrimSpace rem)
     else (case split2 CHR '' '' text of
         (v, Some rem) \<Rightarrow> Inr (v, TrimSpace rem)
       | (v, None) \<Rightarrow> Inr (v, [])))"

lemma parseConfigKey_length: "parseConfigKey text = Inr (key, rem) \<Longrightarrow> length rem < length text"
  by (auto simp: parseConfigKey_def Let_def split: prod.splits if_splits option.splits dest: split2_length)

lemma parseConfigValue_length: "parseConfigValue text = Inr (v, rem) \<Longrightarrow> length rem \<le> length text"
proof -
  assume a: "parseConfigValue text = Inr (v, rem)"
  have "length (TrimSpace r) \<le> length text" if "split2 c t = (p, Some r)" "length t \<le> length text" for c t p r
    using split2_length [OF that(1)] TrimSpace_length [of r] that(2) by simp
  then show ?thesis
    using a TrimPrefix_length [of "text" "[CHR 0x22]"]
    by (auto simp: parseConfigValue_def Let_def split: prod.splits if_splits option.splits)
qed

text \<open>The loop of \<open>parseConfigLine\<close>; every round takes at least the separator from the text.\<close>

function parse_kvs :: "string \<Rightarrow> SubsysConfig \<Rightarrow> (config_err + SubsysConfig) option" where
  "parse_kvs text c =
    (if length text = 0 then Some (Inr c)
     else (case parseConfigKey text of Inl e \<Rightarrow> Some (Inl e)
       | Inr (key, text) \<Rightarrow> (case parseConfigValue text of Inl e \<Rightarrow> Some (Inl e)
         | Inr (v, text) \<Rightarrow> (case AddConfigKV \<lparr>kv_Key = key, kv_Value = v, kv_Env = None\<rparr> c of None \<Rightarrow> None
           | Some c \<Rightarrow> parse_kvs text c))))"
  by pat_completeness auto
termination
  by (relation "measure (\<lambda>(text, c). length text)")
    (auto dest!: parseConfigKey_length parseConfigValue_length)

declare parse_kvs.simps [simp del]

definition parseConfigLine :: "string \<Rightarrow> (config_err + SubsysConfig) option" where
  "parseConfigLine s =
    (let (p, ps) = split2 CHR '' '' s;
         (w, ws) = split2 CHR '':'' p;
         c = \<lparr>sc_SubSystem = w, sc_Target = (case ws of Some t \<Rightarrow> t | None \<Rightarrow> []), sc_KV = [], sc_index = None\<rparr>
     in case ps of None \<Rightarrow> Some (Inr c)
        | Some rest \<Rightarrow> parse_kvs (TrimSpace rest) c)"

definition isEnvLine :: "string \<Rightarrow> bool" where
  "isEnvLine s \<longleftrightarrow> prefix (''# '' @ EnvPrefix) s"

definition isCommentLine :: "string \<Rightarrow> bool" where
  "isCommentLine s \<longleftrightarrow> prefix ''#'' s"

definition getConfigLineSubSystemAndTarget :: "string \<Rightarrow> string \<times> string" where
  "getConfigLineSubSystemAndTarget s =
    (case split2 CHR '':'' (fst (split2 CHR '' '' s)) of
       (subSys, Some target) \<Rightarrow> (subSys, target)
     | (subSys, None) \<Rightarrow> (subSys, Default))"

subsection \<open>The output of the server\<close>

text \<open>The groups of lines, each with the subsystem and the target of its last line; a group that is not
  ended by a configuration line is dropped.\<close>

fun group_lines :: "string list \<Rightarrow> string list \<Rightarrow> (string \<times> string \<times> string list) list" where
  "group_lines currGroup [] = []"
| "group_lines currGroup (line # lines) =
    (if isEnvLine line then group_lines (currGroup @ [line]) lines
     else if isCommentLine line then group_lines currGroup lines
     else
       let (subSys, target) = getConfigLineSubSystemAndTarget line
       in (subSys, target, currGroup @ [line]) # group_lines [] lines)"

text \<open>The values of a configuration line are filled in where an entry is present.\<close>

definition fill_kv :: "ConfigKV \<Rightarrow> SubsysConfig \<Rightarrow> SubsysConfig option" where
  "fill_kv kv sc = (case gm_get (sc_index sc) (kv_Key kv) of
     Some idx \<Rightarrow> if idx < length (sc_KV sc)
       then Some (sc\<lparr>sc_KV := (sc_KV sc)[idx := (sc_KV sc ! idx)\<lparr>kv_Value := kv_Value kv\<rparr>]\<rparr>) else None
   | None \<Rightarrow> AddConfigKV kv sc)"

fun fill_kvs :: "ConfigKV list \<Rightarrow> SubsysConfig \<Rightarrow> SubsysConfig option" where
  "fill_kvs [] sc = Some sc"
| "fill_kvs (kv # kvs) sc = (case fill_kv kv sc of None \<Rightarrow> None | Some sc \<Rightarrow> fill_kvs kvs sc)"

fun parse_group :: "string \<Rightarrow> string \<Rightarrow> string list \<Rightarrow> SubsysConfig \<Rightarrow> (config_err + SubsysConfig) option" where
  "parse_group subSys target [] sc = Some (Inr sc)"
| "parse_group subSys target (line # lines) sc =
    (if isEnvLine line then
       (case parseEnvVarLine line subSys target of Inl e \<Rightarrow> Some (Inl e)
        | Inr ckv \<Rightarrow> (case AddConfigKV ckv sc of None \<Rightarrow> None | Some sc \<Rightarrow> parse_group subSys target lines sc))
     else (case parseConfigLine line of None \<Rightarrow> None
       | Some (Inl e) \<Rightarrow> Some (Inl e)
       | Some (Inr lineCfg) \<Rightarrow> (case fill_kvs (sc_KV lineCfg) sc of None \<Rightarrow> None
         | Some sc \<Rightarrow> parse_group subSys target lines sc)))"

fun parse_groups :: "(string \<times> string \<times> string list) list \<Rightarrow> (config_err + SubsysConfig list) option" where
  "parse_groups [] = Some (Inr [])"
| "parse_groups ((subSys, target, ls) # groups) =
    (case parse_group subSys target ls
         \<lparr>sc_SubSystem = subSys, sc_Target = (if target \<noteq> Default then target else []), sc_KV = [], sc_index = None\<rparr> of
       None \<Rightarrow> None
     | Some (Inl e) \<Rightarrow> Some (Inl e)
     | Some (Inr sc) \<Rightarrow> (case parse_groups groups of None \<Rightarrow> None
       | Some (Inl e) \<Rightarrow> Some (Inl e)
       | Some (Inr res) \<Rightarrow> Some (Inr (sc # res))))"

definition ParseServerConfigOutput :: "string \<Rightarrow> (config_err + SubsysConfig list) option" where
  "ParseServerConfigOutput serverConfigOutput =
    (let lines = split_all CHR 0x0A serverConfigOutput;
         configLines = filter (\<lambda>l. l \<noteq> []) (map TrimSpace lines)
     in parse_groups (group_lines [] configLines))"

subsection \<open>A store of keys and values\<close>

text \<open>
  What a loop over \<open>AddConfigKV\<close> relies on: a store \<open>s\<close> with the map \<open>get s\<close>, the keys in the order
  they came in, and a part \<open>frame s\<close> that stays. A step that keeps this contract is total.
\<close>

fun put_all :: "('a \<Rightarrow> 's \<Rightarrow> 's option) \<Rightarrow> 'a list \<Rightarrow> 's \<Rightarrow> 's option" where
  "put_all put [] s = Some s"
| "put_all put (x # xs) s = (case put x s of None \<Rightarrow> None | Some s \<Rightarrow> put_all put xs s)"

locale kv_store =
  fixes inv :: "'s \<Rightarrow> bool" and get :: "'s \<Rightarrow> 'k \<Rightarrow> 'v option" and keys :: "'s \<Rightarrow> 'k list" and frame :: "'s \<Rightarrow> 'f"
    and put :: "'k \<times> 'v \<Rightarrow> 's \<Rightarrow> 's option"
  assumes put_spec: "inv s \<Longrightarrow> \<exists>s'. put (k, v) s = Some s' \<and> inv s' \<and> get s' = (get s)(k \<mapsto> v) \<and>
      keys s' = (if k \<in> set (keys s) then keys s else keys s @ [k]) \<and> frame s' = frame s"
begin

lemma put_all_spec:
  "inv s \<Longrightarrow> \<exists>s'. put_all put kvs s = Some s' \<and> inv s' \<and> get s' = get s ++ map_of (rev kvs) \<and>
     set (keys s') = set (keys s) \<union> fst ` set kvs \<and> frame s' = frame s"
proof (induction kvs arbitrary: s)
  case (Cons x kvs)
  obtain k v where x: "x = (k, v)" by (cases x)
  obtain s1 where s1: "put (k, v) s = Some s1" "inv s1" "get s1 = (get s)(k \<mapsto> v)"
    "keys s1 = (if k \<in> set (keys s) then keys s else keys s @ [k])" "frame s1 = frame s"
    using put_spec [OF Cons.prems] by blast
  have "get s1 ++ map_of (rev kvs) = get s ++ map_of (rev (x # kvs))"
    by (simp add: x s1(3) map_add_def fun_eq_iff split: option.split)
  moreover have "set (keys s1) = insert k (set (keys s))" by (auto simp: s1(4))
  ultimately show ?case using Cons.IH [OF s1(2)] s1(1,5) by (auto simp: x)
qed simp

lemma put_all_keys:
  "inv s \<Longrightarrow> distinct (map fst kvs) \<Longrightarrow> put_all put kvs s = Some s' \<Longrightarrow>
   keys s' = keys s @ [k\<leftarrow>map fst kvs. k \<notin> set (keys s)]"
proof (induction kvs arbitrary: s)
  case (Cons x kvs)
  obtain k v where x: "x = (k, v)" by (cases x)
  obtain s1 where s1: "put (k, v) s = Some s1" "inv s1"
    "keys s1 = (if k \<in> set (keys s) then keys s else keys s @ [k])"
    using put_spec [OF Cons.prems(1)] by blast
  have "[j\<leftarrow>map fst kvs. j \<notin> insert k (set (keys s))] = [j\<leftarrow>map fst kvs. j \<notin> set (keys s)]"
    using Cons.prems(2) by (intro filter_cong) (auto simp: x)
  then show ?case using Cons.IH [OF s1(2)] Cons.prems(2,3) s1(1,3) by (simp add: x split: if_splits)
qed simp

end

subsection \<open>The index of the keys\<close>

definition sc_keys :: "SubsysConfig \<Rightarrow> string list" where
  "sc_keys c = map kv_Key (sc_KV c)"

text \<open>The index knows exactly the positions of the keys; so a key has one position.\<close>

definition indexed :: "SubsysConfig \<Rightarrow> bool" where
  "indexed c \<longleftrightarrow> (\<forall>k i. gm_get (sc_index c) k = Some i \<longleftrightarrow> i < length (sc_KV c) \<and> kv_Key (sc_KV c ! i) = k)"

definition entry :: "SubsysConfig \<Rightarrow> string \<Rightarrow> ConfigKV option" where
  "entry c k = (case gm_get (sc_index c) k of None \<Rightarrow> None | Some i \<Rightarrow> Some (sc_KV c ! i))"

definition value_of :: "SubsysConfig \<Rightarrow> string \<Rightarrow> string option" where
  "value_of c k = map_option kv_Value (entry c k)"

definition env_of :: "SubsysConfig \<Rightarrow> string \<Rightarrow> EnvOverride option" where
  "env_of c k = (case entry c k of None \<Rightarrow> None | Some kv \<Rightarrow> kv_Env kv)"

lemma indexed_get: "indexed c \<Longrightarrow> gm_get (sc_index c) k = Some i \<Longrightarrow> i < length (sc_KV c) \<and> kv_Key (sc_KV c ! i) = k"
  by (simp add: indexed_def)

lemma indexed_None: "indexed c \<Longrightarrow> gm_get (sc_index c) k = None \<longleftrightarrow> k \<notin> set (sc_keys c)"
proof -
  assume c: "indexed c"
  have "gm_get (sc_index c) k = None \<longleftrightarrow> (\<forall>i. gm_get (sc_index c) k \<noteq> Some i)" by (cases "gm_get (sc_index c) k") auto
  also have "\<dots> \<longleftrightarrow> (\<forall>i. \<not> (i < length (sc_KV c) \<and> kv_Key (sc_KV c ! i) = k))" using c by (simp add: indexed_def)
  also have "\<dots> \<longleftrightarrow> k \<notin> set (sc_keys c)" by (auto simp: sc_keys_def in_set_conv_nth simp del: set_map)
  finally show ?thesis .
qed

lemma indexed_distinct: "indexed c \<Longrightarrow> distinct (sc_keys c)"
  by (auto simp: sc_keys_def distinct_conv_nth indexed_def) (metis option.inject)

lemma indexed_entry: "indexed c \<Longrightarrow> entry c k = Some kv \<longleftrightarrow> kv \<in> set (sc_KV c) \<and> kv_Key kv = k"
  by (auto simp: entry_def in_set_conv_nth dest: indexed_get split: option.splits)
    (metis indexed_def not_None_eq option.inject)+

lemma indexed_empty [simp]: "indexed \<lparr>sc_SubSystem = s, sc_Target = t, sc_KV = [], sc_index = None\<rparr>"
  by (simp add: indexed_def gm_get_def)

lemma gm_get_put: "gm_get (map_option (fmupd k v) (gm_make_if True m)) j = (if j = k then Some v else gm_get m j)"
  by (auto simp: gm_get_def gm_make_if_def split: option.splits)

text \<open>A position that is written again, and an entry that is appended.\<close>

lemma indexed_update:
  assumes "indexed c" and "gm_get (sc_index c) k = Some i" and "kv_Key kv = k"
  shows "indexed (c\<lparr>sc_index := gm_make_if True (sc_index c), sc_KV := (sc_KV c)[i := kv]\<rparr>)"
    and "entry (c\<lparr>sc_index := gm_make_if True (sc_index c), sc_KV := (sc_KV c)[i := kv]\<rparr>) = (entry c)(k \<mapsto> kv)"
    and "sc_keys (c\<lparr>sc_index := gm_make_if True (sc_index c), sc_KV := (sc_KV c)[i := kv]\<rparr>) = sc_keys c"
proof -
  note i = indexed_get [OF assms(1,2)]
  show keys: "sc_keys (c\<lparr>sc_index := gm_make_if True (sc_index c), sc_KV := (sc_KV c)[i := kv]\<rparr>) = sc_keys c"
    using i assms(3) by (simp add: sc_keys_def map_update list_update_same_conv)
  have k: "kv_Key ((sc_KV c)[i := kv] ! j) = kv_Key (sc_KV c ! j)" if "j < length (sc_KV c)" for j
    using i assms(3) that by (cases "i = j") simp_all
  show "indexed (c\<lparr>sc_index := gm_make_if True (sc_index c), sc_KV := (sc_KV c)[i := kv]\<rparr>)"
    using assms(1) k by (auto simp: indexed_def)
  have other: "i \<noteq> l" if "gm_get (sc_index c) j = Some l" "j \<noteq> k" for j l
    using indexed_get [OF assms(1) that(1)] i that(2) by blast
  show "entry (c\<lparr>sc_index := gm_make_if True (sc_index c), sc_KV := (sc_KV c)[i := kv]\<rparr>) = (entry c)(k \<mapsto> kv)"
  proof
    fix j
    show "entry (c\<lparr>sc_index := gm_make_if True (sc_index c), sc_KV := (sc_KV c)[i := kv]\<rparr>) j = ((entry c)(k \<mapsto> kv)) j"
      using i assms(2) other [of j] by (cases "j = k") (simp_all add: entry_def nth_list_update_neq split: option.split)
  qed
qed

lemma indexed_append:
  assumes "indexed c" and "gm_get (sc_index c) k = None" and "kv_Key kv = k"
    and c': "c' = c\<lparr>sc_KV := sc_KV c @ [kv], sc_index := map_option (fmupd k (length (sc_KV c))) (gm_make_if True (sc_index c))\<rparr>"
  shows "indexed c'" and "entry c' = (entry c)(k \<mapsto> kv)" and "sc_keys c' = sc_keys c @ [k]"
proof -
  have g: "gm_get (sc_index c') j = (if j = k then Some (length (sc_KV c)) else gm_get (sc_index c) j)" for j
    by (simp add: c' gm_get_put)
  have new: "kv_Key (sc_KV c ! i) \<noteq> k" if "i < length (sc_KV c)" for i
    using indexed_None [OF assms(1), of k] assms(2) that by (auto simp: sc_keys_def)
  have other: "gm_get (sc_index c) j = Some i \<longleftrightarrow> i < length (sc_KV c) \<and> kv_Key (sc_KV c ! i) = j" for i j
    using assms(1) by (simp add: indexed_def)
  show "indexed c'"
    unfolding indexed_def g using assms(3) new
    by (auto simp: c' other nth_append less_Suc_eq split: if_splits)
  have old: "i < length (sc_KV c)" if "gm_get (sc_index c) j = Some i" for i j
    using indexed_get [OF assms(1) that] by blast
  show "entry c' = (entry c)(k \<mapsto> kv)"
  proof
    fix j
    have "sc_KV c' = sc_KV c @ [kv]" by (simp add: c')
    then show "entry c' j = ((entry c)(k \<mapsto> kv)) j"
      using old [of j] by (cases "j = k") (simp_all add: entry_def g nth_append split: option.split)
  qed
  show "sc_keys c' = sc_keys c @ [k]" by (simp add: sc_keys_def c' assms(3))
qed

lemma AddConfigKV_spec:
  assumes "indexed c"
  shows "\<exists>c'. AddConfigKV kv c = Some c' \<and> indexed c' \<and> entry c' = (entry c)(kv_Key kv \<mapsto> kv) \<and>
    sc_keys c' = (if kv_Key kv \<in> set (sc_keys c) then sc_keys c else sc_keys c @ [kv_Key kv]) \<and>
    sc_SubSystem c' = sc_SubSystem c \<and> sc_Target c' = sc_Target c"
proof (cases "gm_get (sc_index c) (kv_Key kv)")
  case None
  then show ?thesis
    using indexed_append [OF assms None refl refl] indexed_None [OF assms, of "kv_Key kv"]
    by (simp add: AddConfigKV_def Let_def)
next
  case (Some i)
  then show ?thesis
    using indexed_update [OF assms Some refl] indexed_get [OF assms Some] indexed_None [OF assms, of "kv_Key kv"]
    by (simp add: AddConfigKV_def Let_def)
qed

lemma fill_kv_spec:
  assumes "indexed c"
  shows "\<exists>c'. fill_kv kv c = Some c' \<and> indexed c' \<and> entry c' = (entry c)(kv_Key kv \<mapsto>
      (case entry c (kv_Key kv) of None \<Rightarrow> kv | Some old \<Rightarrow> old\<lparr>kv_Value := kv_Value kv\<rparr>)) \<and>
    sc_keys c' = (if kv_Key kv \<in> set (sc_keys c) then sc_keys c else sc_keys c @ [kv_Key kv]) \<and>
    sc_SubSystem c' = sc_SubSystem c \<and> sc_Target c' = sc_Target c"
proof (cases "gm_get (sc_index c) (kv_Key kv)")
  case None
  then show ?thesis
    using AddConfigKV_spec [OF assms, of kv] by (simp add: fill_kv_def entry_def)
next
  case (Some i)
  let ?kv = "(sc_KV c ! i)\<lparr>kv_Value := kv_Value kv\<rparr>"
  have m: "gm_make_if True (sc_index c) = sc_index c" using Some by (cases "sc_index c") (simp_all add: gm_make_if_def gm_get_def)
  have "kv_Key ?kv = kv_Key kv" using indexed_get [OF assms Some] by simp
  note u = indexed_update [OF assms Some this]
  show ?thesis
    using u indexed_get [OF assms Some] indexed_None [OF assms, of "kv_Key kv"] Some
    by (simp add: fill_kv_def m entry_def [of c "kv_Key kv"])
qed

text \<open>Both steps of the parser keep the contract: one for whole entries, one for the values only.\<close>

interpretation add: kv_store indexed "\<lambda>c k. map_option (\<lambda>kv. (kv_Value kv, kv_Env kv)) (entry c k)" sc_keys
  "\<lambda>c. (sc_SubSystem c, sc_Target c)" "\<lambda>(k, v, e). AddConfigKV \<lparr>kv_Key = k, kv_Value = v, kv_Env = e\<rparr>"
proof
  fix c k and v :: "string \<times> EnvOverride option" assume "indexed c"
  from AddConfigKV_spec [OF this, of "\<lparr>kv_Key = k, kv_Value = fst v, kv_Env = snd v\<rparr>"]
  show "\<exists>c'. (case (k, v) of (k, v, e) \<Rightarrow> AddConfigKV \<lparr>kv_Key = k, kv_Value = v, kv_Env = e\<rparr>) c = Some c' \<and> indexed c' \<and>
      (\<lambda>k. map_option (\<lambda>kv. (kv_Value kv, kv_Env kv)) (entry c' k)) =
        (\<lambda>k. map_option (\<lambda>kv. (kv_Value kv, kv_Env kv)) (entry c k))(k \<mapsto> v) \<and>
      sc_keys c' = (if k \<in> set (sc_keys c) then sc_keys c else sc_keys c @ [k]) \<and>
      (sc_SubSystem c', sc_Target c') = (sc_SubSystem c, sc_Target c)"
    by (auto simp: split_beta fun_eq_iff)
qed

interpretation fill: kv_store indexed value_of sc_keys "\<lambda>c. (sc_SubSystem c, sc_Target c, env_of c)"
  "\<lambda>(k, v). fill_kv \<lparr>kv_Key = k, kv_Value = v, kv_Env = None\<rparr>"
proof
  fix c k v assume "indexed c"
  from fill_kv_spec [OF this, of "\<lparr>kv_Key = k, kv_Value = v, kv_Env = None\<rparr>"]
  show "\<exists>c'. (case (k, v) of (k, v) \<Rightarrow> fill_kv \<lparr>kv_Key = k, kv_Value = v, kv_Env = None\<rparr>) c = Some c' \<and> indexed c' \<and>
      value_of c' = (value_of c)(k \<mapsto> v) \<and>
      sc_keys c' = (if k \<in> set (sc_keys c) then sc_keys c else sc_keys c @ [k]) \<and>
      (sc_SubSystem c', sc_Target c', env_of c') = (sc_SubSystem c, sc_Target c, env_of c)"
    by (auto simp: value_of_def env_of_def fun_eq_iff split: option.splits)
qed

end
