(* ===== verification/Config_Roundtrip.thy ===== *)
theory Config_Roundtrip
  imports Config_Parse
begin

text \<open>
  What the configuration parser does with any output (it never panics, and every configuration it
  returns has a consistent index), and with an output in the format that the comments of
  \<open>ParseServerConfigOutput\<close> describe: it returns the configurations that were printed.
\<close>

subsection \<open>Any output\<close>

lemma parse_kvs_indexed:
  "indexed c \<Longrightarrow> \<exists>r. parse_kvs s c = Some r \<and> (\<forall>c'. r = Inr c' \<longrightarrow> indexed c')"
proof (induction s c rule: parse_kvs.induct)
  case (1 s c)
  show ?case
  proof (cases "length s = 0")
    case False
    show ?thesis
    proof (cases "parseConfigKey s")
      case k: (Inr p)
      obtain key s1 where p: "p = (key, s1)" by (cases p)
      show ?thesis
      proof (cases "parseConfigValue s1")
        case v: (Inr q)
        obtain v s2 where q: "q = (v, s2)" by (cases q)
        obtain c1 where "AddConfigKV \<lparr>kv_Key = key, kv_Value = v, kv_Env = None\<rparr> c = Some c1" "indexed c1"
          using AddConfigKV_spec [OF "1.prems"] by blast
        moreover from "1.IH" [OF False k p [symmetric] v q [symmetric] this]
        obtain r where "parse_kvs s2 c1 = Some r" "\<forall>c'. r = Inr c' \<longrightarrow> indexed c'" by blast
        ultimately show ?thesis using False k p v q by (simp add: parse_kvs.simps [of s c])
      qed (use False k p in \<open>simp add: parse_kvs.simps [of s c]\<close>)
    qed (use False in \<open>simp add: parse_kvs.simps [of s c]\<close>)
  next
    case True
    then show ?thesis using "1.prems" by (subst parse_kvs.simps) simp
  qed
qed

lemma parseConfigLine_indexed: "\<exists>r. parseConfigLine s = Some r \<and> (\<forall>c'. r = Inr c' \<longrightarrow> indexed c')"
  by (auto simp: parseConfigLine_def Let_def split: prod.split option.split intro!: parse_kvs_indexed)

lemma fill_kvs_indexed: "indexed c \<Longrightarrow> \<exists>c'. fill_kvs kvs c = Some c' \<and> indexed c'"
proof (induction kvs arbitrary: c)
  case (Cons kv kvs)
  obtain c1 where "fill_kv kv c = Some c1" "indexed c1" using fill_kv_spec [OF Cons.prems] by blast
  then show ?case using Cons.IH by simp
qed simp

lemma parse_group_indexed:
  "indexed c \<Longrightarrow> \<exists>r. parse_group sub target ls c = Some r \<and> (\<forall>c'. r = Inr c' \<longrightarrow> indexed c')"
proof (induction ls arbitrary: c)
  case (Cons l ls)
  show ?case
  proof (cases "isEnvLine l")
    case True
    show ?thesis
    proof (cases "parseEnvVarLine l sub target")
      case (Inr kv)
      obtain c1 where "AddConfigKV kv c = Some c1" "indexed c1" using AddConfigKV_spec [OF Cons.prems] by blast
      then show ?thesis using Cons.IH True Inr by simp
    qed (simp add: True)
  next
    case False
    obtain r where r: "parseConfigLine l = Some r" using parseConfigLine_indexed by blast
    show ?thesis
    proof (cases r)
      case (Inr lc)
      obtain c1 where "fill_kvs (sc_KV lc) c = Some c1" "indexed c1" using fill_kvs_indexed [OF Cons.prems] by blast
      then show ?thesis using Cons.IH False r Inr by simp
    qed (simp add: False r)
  qed
qed simp

lemma parse_groups_indexed: "\<exists>r. parse_groups gs = Some r \<and> (\<forall>cs. r = Inr cs \<longrightarrow> list_all indexed cs)"
proof (induction gs)
  case (Cons g gs)
  obtain sub target ls where g: "g = (sub, target, ls)" by (cases g)
  obtain r where r: "parse_groups gs = Some r" "\<forall>cs. r = Inr cs \<longrightarrow> list_all indexed cs" using Cons.IH by blast
  obtain q where q: "parse_group sub target ls
      \<lparr>sc_SubSystem = sub, sc_Target = (if target \<noteq> Default then target else []), sc_KV = [], sc_index = None\<rparr> = Some q"
    "\<forall>c'. q = Inr c' \<longrightarrow> indexed c'"
    using parse_group_indexed [OF indexed_empty] by blast
  show ?case using r q by (cases q; cases r) (simp_all add: g)
qed simp

lemma ParseServerConfigOutput_indexed:
  "\<exists>r. ParseServerConfigOutput s = Some r \<and> (\<forall>cs. r = Inr cs \<longrightarrow> list_all indexed cs)"
  by (simp add: ParseServerConfigOutput_def parse_groups_indexed)

text \<open>The lookups of an indexed configuration.\<close>

lemma Lookup_indexed:
  "indexed c \<Longrightarrow> Lookup c k = Some (case entry c k of None \<Rightarrow> ([], False)
     | Some kv \<Rightarrow> ((case kv_Env kv of Some ev \<Rightarrow> eo_Value ev | None \<Rightarrow> kv_Value kv), True))"
  by (auto simp: Lookup_def entry_def split: option.split dest: indexed_get)

lemma LookupEnv_indexed:
  "indexed c \<Longrightarrow> LookupEnv c k = Some (case entry c k of None \<Rightarrow> ([], [], False)
     | Some kv \<Rightarrow> (kv_Value kv, (case kv_Env kv of Some ev \<Rightarrow> eo_Value ev | None \<Rightarrow> []), True))"
  by (auto simp: LookupEnv_def entry_def split: option.split dest: indexed_get)

subsection \<open>The format of the server\<close>

text \<open>A configuration to print: its target (\<open>Default\<close> if it has none), overrides and values.\<close>

record config_spec =
  cs_sub :: string
  cs_target :: string
  cs_env :: "(string \<times> string) list"
  cs_kvs :: "(string \<times> string) list"

definition plain_value :: "string \<Rightarrow> bool" where
  "plain_value v \<longleftrightarrow> list_all graphic v \<and> \<not> prefix [CHR 0x22] v"

definition show_value :: "string \<Rightarrow> string" where
  "show_value v = (if plain_value v then v else [CHR 0x22] @ v @ [CHR 0x22])"

fun show_kvs :: "(string \<times> string) list \<Rightarrow> string" where
  "show_kvs [] = []"
| "show_kvs [(k, v)] = k @ ''='' @ show_value v"
| "show_kvs ((k, v) # kvs) = k @ ''='' @ show_value v @ '' '' @ show_kvs kvs"

definition show_line :: "config_spec \<Rightarrow> string" where
  "show_line s = cs_sub s @ (if cs_target s = Default then [] else '':'' @ cs_target s)
     @ (if cs_kvs s = [] then [] else '' '' @ show_kvs (cs_kvs s))"

definition env_name :: "config_spec \<Rightarrow> string \<Rightarrow> string" where
  "env_name s k = EnvPrefix @ ToUpper (cs_sub s) @ ''_'' @ ToUpper k
     @ (if cs_target s = Default then [] else ''_'' @ cs_target s)"

definition show_env :: "config_spec \<Rightarrow> string \<times> string \<Rightarrow> string" where
  "show_env s kv = ''# '' @ env_name s (fst kv) @ ''='' @ snd kv"

definition spec_lines :: "config_spec \<Rightarrow> string list" where
  "spec_lines s = map (show_env s) (cs_env s) @ [show_line s]"

definition show_specs :: "config_spec list \<Rightarrow> string" where
  "show_specs ss = concat (map (\<lambda>l. l @ [CHR 0x0A]) (concat (map spec_lines ss)))"

text \<open>Names and values that the format has room for.\<close>

definition name_ok :: "string \<Rightarrow> bool" where
  "name_ok s \<longleftrightarrow> s \<noteq> [] \<and> list_all graphic s \<and> CHR ''='' \<notin> set s"

definition value_ok :: "string \<Rightarrow> bool" where
  "value_ok v \<longleftrightarrow> CHR 0x0A \<notin> set v \<and> (plain_value v \<or> CHR 0x22 \<notin> set v)"

definition env_ok :: "string \<Rightarrow> bool" where
  "env_ok v \<longleftrightarrow> CHR 0x0A \<notin> set v \<and> (v = [] \<or> graphic (last v))"

definition spec_ok :: "config_spec \<Rightarrow> bool" where
  "spec_ok s \<longleftrightarrow> name_ok (cs_sub s) \<and> CHR '':'' \<notin> set (cs_sub s) \<and> hd (cs_sub s) \<noteq> CHR ''#'' \<and> name_ok (cs_target s) \<and>
     distinct (map fst (cs_env s)) \<and> distinct (map fst (cs_kvs s)) \<and>
     list_all (\<lambda>(k, v). name_ok k \<and> lower_name k \<and> env_ok v) (cs_env s) \<and>
     list_all (\<lambda>(k, v). name_ok k \<and> value_ok v) (cs_kvs s)"

text \<open>What a parsed configuration should say: its keys, in order, and for each key the value of the
  configuration line and the override.\<close>

definition describes :: "config_spec \<Rightarrow> SubsysConfig \<Rightarrow> bool" where
  "describes s c \<longleftrightarrow> sc_SubSystem c = cs_sub s \<and> sc_Target c = (if cs_target s = Default then [] else cs_target s) \<and>
     sc_keys c = map fst (cs_env s) @ [k\<leftarrow>map fst (cs_kvs s). k \<notin> fst ` set (cs_env s)] \<and>
     (\<forall>k. value_of c k = (case map_of (cs_kvs s) k of Some v \<Rightarrow> Some v
        | None \<Rightarrow> if map_of (cs_env s) k = None then None else Some []) \<and>
      env_of c k = map_option (\<lambda>v. \<lparr>eo_Name = env_name s k, eo_Value = v\<rparr>) (map_of (cs_env s) k)) \<and>
     indexed c"

subsection \<open>Printed lines\<close>

lemma name_ok_simps: "name_ok s \<Longrightarrow> s \<noteq> [] \<and> graphic (hd s) \<and> graphic (last s) \<and> CHR ''='' \<notin> set s \<and>
  CHR '' '' \<notin> set s \<and> CHR 0x0A \<notin> set s \<and> TrimSpace s = s"
proof -
  assume s: "name_ok s"
  have g: "\<not> graphic CHR '' ''" "\<not> graphic CHR 0x0A" by (simp_all add: graphic_def)
  have "graphic (hd s) \<and> graphic (last s)" using s by (auto simp: name_ok_def list_all_iff)
  moreover have "CHR '' '' \<notin> set s" "CHR 0x0A \<notin> set s" using s g by (auto simp: name_ok_def list_all_iff)
  ultimately show ?thesis using s TrimSpace_graphic [of s] by (simp add: name_ok_def)
qed

lemma graphic_quote [simp]: "graphic CHR 0x22" "graphic CHR ''=''" "graphic CHR ''#''"
  by (simp_all add: graphic_def)

lemma plain_value_simps: "plain_value v \<Longrightarrow> CHR '' '' \<notin> set v \<and> (v = [] \<or> graphic (last v))"
proof -
  assume v: "plain_value v"
  have "\<not> graphic CHR '' ''" by (simp add: graphic_def)
  then show ?thesis using v by (cases v rule: rev_cases) (auto simp: plain_value_def list_all_iff)
qed

lemma show_value_end: "k @ ''='' @ show_value v \<noteq> [] \<and> graphic (last (k @ ''='' @ show_value v))"
  using plain_value_simps [of v] by (auto simp: show_value_def)

lemma show_kvs_ends:
  "kvs \<noteq> [] \<Longrightarrow> list_all (\<lambda>(k, v). name_ok k \<and> value_ok v) kvs \<Longrightarrow>
   show_kvs kvs \<noteq> [] \<and> graphic (hd (show_kvs kvs)) \<and> graphic (last (show_kvs kvs))"
proof (induction kvs rule: show_kvs.induct)
  case (2 k v)
  then show ?case using show_value_end [of k v] name_ok_simps [of k] by (auto simp: hd_append)
next
  case (3 k v x kvs)
  then show ?case using name_ok_simps [of k] by (auto simp: hd_append last_append)
qed simp

lemma show_kvs_trim:
  "list_all (\<lambda>(k, v). name_ok k \<and> value_ok v) kvs \<Longrightarrow> TrimSpace (show_kvs kvs) = show_kvs kvs"
  using show_kvs_ends [of kvs] by (cases kvs) (auto intro: TrimSpace_graphic simp: TrimSpace_def)

lemma parse_show_value:
  assumes "value_ok v" and "TrimSpace rest = rest"
  shows "parseConfigValue (show_value v @ (if rest = [] then [] else '' '' @ rest)) = Inr (v, rest)"
proof (cases "plain_value v")
  case True
  then have "\<not> prefix [CHR 0x22] (v @ (if rest = [] then [] else '' '' @ rest))"
    by (cases v) (auto simp: plain_value_def)
  then show ?thesis
    using True plain_value_simps [OF True] assms(2) by (simp add: parseConfigValue_def show_value_def)
next
  case False
  then have "CHR 0x22 \<notin> set v" using assms(1) by (simp add: value_ok_def)
  then have "split2 CHR 0x22 (v @ CHR 0x22 # r) = (v, Some r)" for r by simp
  moreover have "TrimSpace [] = []" by (simp add: TrimSpace_def)
  ultimately show ?thesis
    using False assms(2) by (simp add: parseConfigValue_def show_value_def TrimPrefix_def)
qed

lemma parse_show_key: "name_ok k \<Longrightarrow> parseConfigKey (k @ ''='' @ r) = Inr (k, r)"
  using name_ok_simps [of k] by (simp add: parseConfigKey_def)

abbreviation kv_of :: "string \<times> string \<Rightarrow> ConfigKV" where
  "kv_of \<equiv> \<lambda>(k, v). \<lparr>kv_Key = k, kv_Value = v, kv_Env = None\<rparr>"

lemma parse_show_kvs:
  "list_all (\<lambda>(k, v). name_ok k \<and> value_ok v) kvs \<Longrightarrow>
   parse_kvs (show_kvs kvs) c = map_option Inr (put_all AddConfigKV (map kv_of kvs) c)"
proof (induction kvs arbitrary: c rule: show_kvs.induct)
  case 1
  then show ?case by (simp add: parse_kvs.simps)
next
  case (2 k v)
  have "TrimSpace [] = []" by (simp add: TrimSpace_def)
  then have "parseConfigValue (show_value v) = Inr (v, [])" using parse_show_value [of v "[]"] 2 by simp
  then show ?case
    using 2 parse_show_key [of k "show_value v"]
    by (subst parse_kvs.simps) (simp add: parse_kvs.simps [of "[]"] split: option.split)
next
  case (3 k v x kvs)
  have t: "TrimSpace (show_kvs (x # kvs)) = show_kvs (x # kvs)" using 3 by (intro show_kvs_trim) simp
  have ne: "show_kvs (x # kvs) \<noteq> []" using show_kvs_ends [of "x # kvs"] 3 by auto
  have v: "parseConfigValue (show_value v @ '' '' @ show_kvs (x # kvs)) = Inr (v, show_kvs (x # kvs))"
    using parse_show_value [OF _ t, of v] 3(2) ne by simp
  have k: "parseConfigKey (k @ ''='' @ show_value v @ '' '' @ show_kvs (x # kvs)) =
      Inr (k, show_value v @ '' '' @ show_kvs (x # kvs))"
    using 3(2) by (intro parse_show_key) simp
  show ?case
  proof (cases "AddConfigKV \<lparr>kv_Key = k, kv_Value = v, kv_Env = None\<rparr> c")
    case None
    then show ?thesis using k v by (subst parse_kvs.simps) simp
  next
    case (Some c1)
    then show ?thesis using k v 3 by (subst parse_kvs.simps) simp
  qed
qed

lemma show_kvs_newline:
  "list_all (\<lambda>(k, v). name_ok k \<and> value_ok v) kvs \<Longrightarrow> CHR 0x0A \<notin> set (show_kvs kvs)"
proof (induction kvs rule: show_kvs.induct)
  case (2 k v)
  then show ?case using name_ok_simps [of k] by (auto simp: show_value_def value_ok_def)
next
  case (3 k v x kvs)
  then show ?case using name_ok_simps [of k] by (auto simp: show_value_def value_ok_def)
qed simp

definition line_head :: "config_spec \<Rightarrow> string" where
  "line_head s = cs_sub s @ (if cs_target s = Default then [] else '':'' @ cs_target s)"

lemma line_head_simps:
  assumes "spec_ok s"
  shows "CHR '' '' \<notin> set (line_head s)" and "CHR 0x0A \<notin> set (line_head s)"
    and "line_head s \<noteq> []" and "hd (line_head s) \<noteq> CHR ''#''" and "graphic (hd (line_head s))" and "graphic (last (line_head s))"
    and "split2 CHR '':'' (line_head s) = (cs_sub s, if cs_target s = Default then None else Some (cs_target s))"
  using assms name_ok_simps [of "cs_sub s"] name_ok_simps [of "cs_target s"]
  by (auto simp: spec_ok_def line_head_def)

lemma show_line_head: "show_line s = line_head s @ (if cs_kvs s = [] then [] else '' '' @ show_kvs (cs_kvs s))"
  by (simp add: show_line_def line_head_def)

lemma show_line_split:
  "spec_ok s \<Longrightarrow> split2 CHR '' '' (show_line s) = (line_head s, if cs_kvs s = [] then None else Some (show_kvs (cs_kvs s)))"
  using line_head_simps(1) [of s] by (simp add: show_line_head)

lemma show_line_simps:
  assumes "spec_ok s"
  shows "show_line s \<noteq> []" and "TrimSpace (show_line s) = show_line s" and "CHR 0x0A \<notin> set (show_line s)"
    and "\<not> isEnvLine (show_line s)" and "\<not> isCommentLine (show_line s)"
    and "getConfigLineSubSystemAndTarget (show_line s) = (cs_sub s, cs_target s)"
proof -
  have kvs: "list_all (\<lambda>(k, v). name_ok k \<and> value_ok v) (cs_kvs s)" using assms by (simp add: spec_ok_def)
  note h = line_head_simps [OF assms]
  show "show_line s \<noteq> []" using h(3) by (simp add: show_line_head)
  have "graphic (hd (show_line s))" using h(3,5) by (simp add: show_line_head)
  moreover have "graphic (last (show_line s))"
    using h(3,6) show_kvs_ends [OF _ kvs] by (auto simp: show_line_head last_append)
  ultimately show "TrimSpace (show_line s) = show_line s" using TrimSpace_graphic by blast
  show "CHR 0x0A \<notin> set (show_line s)" using h(2) show_kvs_newline [OF kvs] by (auto simp: show_line_head)
  have "hd (show_line s) \<noteq> CHR ''#''" using h(3,4) by (simp add: show_line_head)
  then show "\<not> isEnvLine (show_line s)" "\<not> isCommentLine (show_line s)"
    by (cases "show_line s"; simp add: isEnvLine_def isCommentLine_def)+
  show "getConfigLineSubSystemAndTarget (show_line s) = (cs_sub s, cs_target s)"
    using show_line_split [OF assms] h(7) by (simp add: getConfigLineSubSystemAndTarget_def)
qed

lemma AddConfigKV_new:
  "indexed c \<Longrightarrow> kv_Key kv \<notin> set (sc_keys c) \<Longrightarrow> AddConfigKV kv c = Some c' \<Longrightarrow> sc_KV c' = sc_KV c @ [kv]"
  by (auto simp: AddConfigKV_def Let_def indexed_None [symmetric])

lemma put_all_new:
  "indexed c \<Longrightarrow> distinct (map kv_Key kvs) \<Longrightarrow> set (map kv_Key kvs) \<inter> set (sc_keys c) = {} \<Longrightarrow>
   \<exists>c'. put_all AddConfigKV kvs c = Some c' \<and> indexed c' \<and> sc_KV c' = sc_KV c @ kvs"
proof (induction kvs arbitrary: c)
  case (Cons kv kvs)
  obtain c1 where c1: "AddConfigKV kv c = Some c1" "indexed c1"
    "sc_keys c1 = (if kv_Key kv \<in> set (sc_keys c) then sc_keys c else sc_keys c @ [kv_Key kv])"
    using AddConfigKV_spec [OF Cons.prems(1)] by blast
  have kv: "sc_KV c1 = sc_KV c @ [kv]" using AddConfigKV_new [OF Cons.prems(1) _ c1(1)] Cons.prems(3) by simp
  have "\<exists>c'. put_all AddConfigKV kvs c1 = Some c' \<and> indexed c' \<and> sc_KV c' = sc_KV c1 @ kvs"
    using Cons.prems(2,3) by (intro Cons.IH c1(2)) (auto simp: c1(3) split: if_splits)
  then show ?case using c1(1) kv by simp
qed simp

lemma parse_show_line:
  assumes "spec_ok s"
  shows "\<exists>c. parseConfigLine (show_line s) = Some (Inr c) \<and> sc_KV c = map kv_of (cs_kvs s)"
proof -
  have kvs: "list_all (\<lambda>(k, v). name_ok k \<and> value_ok v) (cs_kvs s)" "distinct (map fst (cs_kvs s))"
    using assms by (simp_all add: spec_ok_def)
  let ?c = "\<lparr>sc_SubSystem = cs_sub s, sc_Target = (if cs_target s = Default then [] else cs_target s), sc_KV = [], sc_index = None\<rparr>"
  have "map kv_Key (map kv_of (cs_kvs s)) = map fst (cs_kvs s)" by (simp add: comp_def split_beta)
  then have d: "distinct (map kv_Key (map kv_of (cs_kvs s)))" using kvs(2) by (simp only:)
  have "set (map kv_Key (map kv_of (cs_kvs s))) \<inter> set (sc_keys ?c) = {}" by (simp add: sc_keys_def)
  from put_all_new [OF indexed_empty d this]
  obtain c where c: "put_all AddConfigKV (map kv_of (cs_kvs s)) ?c = Some c" "sc_KV c = map kv_of (cs_kvs s)"
    by auto
  show ?thesis
    using parse_show_kvs [OF kvs(1), of ?c] show_kvs_trim [OF kvs(1)] c show_line_split [OF assms]
      line_head_simps(7) [OF assms]
    by (cases "cs_kvs s = []"; cases "cs_target s = Default") (simp_all add: parseConfigLine_def Let_def)
qed

subsection \<open>Printed overrides\<close>

lemma upper_simps: "name_ok s \<Longrightarrow> CHR ''='' \<notin> set (ToUpper s) \<and> CHR 0x0A \<notin> set (ToUpper s)"
proof -
  have u: "CHR ''='' = char_upper c \<longleftrightarrow> c = CHR ''=''" "CHR 0x0A = char_upper c \<longleftrightarrow> c = CHR 0x0A" for c
    by (subst eq_commute, rule char_upper_iff; simp)+
  show "name_ok s \<Longrightarrow> CHR ''='' \<notin> set (ToUpper s) \<and> CHR 0x0A \<notin> set (ToUpper s)"
    using name_ok_simps [of s] by (simp add: ToUpper_def image_iff u)
qed

lemma env_name_simps:
  assumes "spec_ok s" and "name_ok k"
  shows "CHR ''='' \<notin> set (env_name s k)" and "CHR 0x0A \<notin> set (env_name s k)"
  using assms upper_simps [of "cs_sub s"] upper_simps [of k] name_ok_simps [of "cs_target s"]
  by (auto simp: env_name_def spec_ok_def EnvPrefix_def)

lemma show_env_simps:
  assumes "spec_ok s" and "name_ok k" and "env_ok v"
  shows "show_env s (k, v) \<noteq> []" and "TrimSpace (show_env s (k, v)) = show_env s (k, v)"
    and "CHR 0x0A \<notin> set (show_env s (k, v))" and "isEnvLine (show_env s (k, v))"
proof -
  show "show_env s (k, v) \<noteq> []" by (simp add: show_env_def)
  have "graphic (last (show_env s (k, v)))" using assms(3) by (auto simp: show_env_def env_ok_def last_append)
  moreover have "graphic (hd (show_env s (k, v)))" by (simp add: show_env_def)
  ultimately show "TrimSpace (show_env s (k, v)) = show_env s (k, v)" using TrimSpace_graphic by blast
  show "CHR 0x0A \<notin> set (show_env s (k, v))"
    using env_name_simps(2) [OF assms(1,2)] assms(3) by (simp add: show_env_def env_ok_def)
  show "isEnvLine (show_env s (k, v))" by (simp add: show_env_def isEnvLine_def env_name_def)
qed

lemma parse_show_env:
  assumes "spec_ok s" and "name_ok k" and "lower_name k"
  shows "parseEnvVarLine (show_env s (k, v)) (cs_sub s) (cs_target s) =
    Inr \<lparr>kv_Key = k, kv_Value = [], kv_Env = Some \<lparr>eo_Name = env_name s k, eo_Value = v\<rparr>\<rparr>"
proof -
  have t: "TrimPrefix (show_env s (k, v)) ''# '' = env_name s k @ CHR ''='' # v"
    by (simp add: show_env_def TrimPrefix_def)
  let ?t = "ToUpper k @ (if cs_target s = Default then [] else ''_'' @ cs_target s)"
  have n: "env_name s k = (EnvPrefix @ ToUpper (cs_sub s) @ ''_'') @ ?t" by (simp add: env_name_def)
  then have p: "prefix (EnvPrefix @ ToUpper (cs_sub s) @ ''_'') (env_name s k)"
    "TrimPrefix (env_name s k) (EnvPrefix @ ToUpper (cs_sub s) @ ''_'') = ?t"
    by (simp_all only: TrimPrefix_append) (simp add: prefix_def)
  have "TrimSuffix ?t (''_'' @ cs_target s) = ToUpper k" if "cs_target s \<noteq> Default"
    using that by (simp only: if_False TrimSuffix_append)
  then have "(if cs_target s \<noteq> Default then TrimSuffix ?t (''_'' @ cs_target s) else ?t) = ToUpper k" by simp
  then show ?thesis
    unfolding parseEnvVarLine_def Let_def t split2_append [OF env_name_simps(1) [OF assms(1,2)]]
    using p ToLower_ToUpper [OF assms(3)] by simp
qed

subsection \<open>Groups\<close>

lemma group_spec_lines:
  assumes "spec_ok s"
  shows "group_lines [] (spec_lines s @ rest) = (cs_sub s, cs_target s, spec_lines s) # group_lines [] rest"
proof -
  have "group_lines cur (map (show_env s) kvs @ show_line s # rest) =
      (cs_sub s, cs_target s, cur @ map (show_env s) kvs @ [show_line s]) # group_lines [] rest"
    if "list_all (\<lambda>(k, v). name_ok k \<and> lower_name k \<and> env_ok v) kvs" for kvs cur
    using that
  proof (induction kvs arbitrary: cur)
    case Nil
    then show ?case using show_line_simps [OF assms] by simp
  next
    case (Cons kv kvs)
    obtain k v where "kv = (k, v)" by (cases kv)
    then show ?case using Cons show_env_simps(4) [OF assms, of k v] by simp
  qed
  from this [of "cs_env s" "[]"] show ?thesis using assms by (simp add: spec_lines_def spec_ok_def)
qed

lemma group_specs:
  "list_all spec_ok ss \<Longrightarrow>
   group_lines [] (concat (map spec_lines ss)) = map (\<lambda>s. (cs_sub s, cs_target s, spec_lines s)) ss"
proof (induction ss)
  case (Cons s ss)
  then show ?case using group_spec_lines [of s "concat (map spec_lines ss)"] by simp
qed simp

lemma spec_lines_clean:
  assumes "list_all spec_ok ss" and "l \<in> set (concat (map spec_lines ss))"
  shows "l \<noteq> []" and "TrimSpace l = l" and "CHR 0x0A \<notin> set l"
proof -
  obtain s where s: "spec_ok s" "l \<in> set (spec_lines s)" using assms by (auto simp: list_all_iff)
  consider "l = show_line s" | k v where "l = show_env s (k, v)" "name_ok k" "env_ok v"
    using s by (auto simp: spec_lines_def spec_ok_def list_all_iff)
  then have "l \<noteq> [] \<and> TrimSpace l = l \<and> CHR 0x0A \<notin> set l"
    by cases (use show_line_simps(1-3) [OF s(1)] show_env_simps(1-3) [OF s(1)] in simp_all)
  then show "l \<noteq> []" "TrimSpace l = l" "CHR 0x0A \<notin> set l" by simp_all
qed

lemma parse_env_lines:
  assumes "spec_ok s"
  shows "list_all (\<lambda>(k, v). name_ok k \<and> lower_name k \<and> env_ok v) kvs \<Longrightarrow> indexed c \<Longrightarrow>
    parse_group (cs_sub s) (cs_target s) (map (show_env s) kvs @ rest) c =
      (case put_all (\<lambda>(k, v, e). AddConfigKV \<lparr>kv_Key = k, kv_Value = v, kv_Env = e\<rparr>)
         (map (\<lambda>(k, v). (k, [], Some \<lparr>eo_Name = env_name s k, eo_Value = v\<rparr>)) kvs) c of None \<Rightarrow> None
       | Some c \<Rightarrow> parse_group (cs_sub s) (cs_target s) rest c)"
proof (induction kvs arbitrary: c)
  case (Cons kv kvs)
  obtain k v where kv: "kv = (k, v)" by (cases kv)
  obtain c1 where "AddConfigKV \<lparr>kv_Key = k, kv_Value = [], kv_Env = Some \<lparr>eo_Name = env_name s k, eo_Value = v\<rparr>\<rparr> c = Some c1"
    "indexed c1" using AddConfigKV_spec [OF Cons.prems(2)] by blast
  then show ?case
    using Cons kv show_env_simps(4) [OF assms, of k v] parse_show_env [OF assms, of k v] by simp
qed simp

lemma fill_kvs_put_all:
  "fill_kvs (map kv_of kvs) = put_all (\<lambda>(k, v). fill_kv \<lparr>kv_Key = k, kv_Value = v, kv_Env = None\<rparr>) kvs"
proof (rule ext)
  fix c show "fill_kvs (map kv_of kvs) c = put_all (\<lambda>(k, v). fill_kv \<lparr>kv_Key = k, kv_Value = v, kv_Env = None\<rparr>) kvs c"
    by (induction kvs arbitrary: c) (auto simp: split_beta split: option.split)
qed

lemma map_of_rev: "distinct (map fst xs) \<Longrightarrow> map_of (rev xs) k = map_of xs k"
proof (induction xs)
  case (Cons x xs)
  obtain j v where x: "x = (j, v)" by (cases x)
  have ih: "map_of (rev xs) k = map_of xs k" using Cons by simp
  have "map_of xs j = None" using Cons.prems x by (simp add: map_of_eq_None_iff)
  then show ?case
    using ih by (cases "map_of xs k") (auto simp: x map_add_def)
qed simp

lemma parse_spec_group:
  assumes "spec_ok s"
  shows "\<exists>c. parse_group (cs_sub s) (cs_target s) (spec_lines s)
      \<lparr>sc_SubSystem = cs_sub s, sc_Target = (if cs_target s \<noteq> Default then cs_target s else []), sc_KV = [], sc_index = None\<rparr> =
      Some (Inr c) \<and> describes s c"
proof -
  let ?c = "\<lparr>sc_SubSystem = cs_sub s, sc_Target = (if cs_target s \<noteq> Default then cs_target s else []), sc_KV = [], sc_index = None\<rparr>"
  let ?env = "map (\<lambda>(k, v). (k, [] :: string, Some \<lparr>eo_Name = env_name s k, eo_Value = v\<rparr>)) (cs_env s)"
  have env: "list_all (\<lambda>(k, v). name_ok k \<and> lower_name k \<and> env_ok v) (cs_env s)" "distinct (map fst (cs_env s))"
    and kvs: "distinct (map fst (cs_kvs s))"
    using assms by (simp_all add: spec_ok_def)
  have fst_env: "map fst ?env = map fst (cs_env s)" by (simp add: comp_def split_beta)
  have e0: "entry ?c k = None" for k by (simp add: entry_def gm_get_def)
  obtain c1 where c1: "put_all (\<lambda>(k, v, e). AddConfigKV \<lparr>kv_Key = k, kv_Value = v, kv_Env = e\<rparr>) ?env ?c = Some c1" "indexed c1"
    and m: "(\<lambda>k. map_option (\<lambda>kv. (kv_Value kv, kv_Env kv)) (entry c1 k)) =
        (\<lambda>k. map_option (\<lambda>kv. (kv_Value kv, kv_Env kv)) (entry ?c k)) ++ map_of (rev ?env)"
    and fr: "(sc_SubSystem c1, sc_Target c1) = (sc_SubSystem ?c, sc_Target ?c)"
    using add.put_all_spec [of ?c ?env, OF indexed_empty] by blast
  have m1: "map_option (\<lambda>kv. (kv_Value kv, kv_Env kv)) (entry c1 k) = map_of (rev ?env) k" for k
    using fun_cong [OF m, of k] by (simp only: map_add_def e0 option.map split: option.split) simp
  have k1: "sc_keys c1 = map fst (cs_env s)"
  proof -
    have "distinct (map fst ?env)" using env(2) by (simp only: fst_env)
    from add.put_all_keys [OF indexed_empty this c1(1)]
    have "sc_keys c1 = map fst ?env" by (simp add: sc_keys_def)
    then show ?thesis by (simp only: fst_env)
  qed
  have e1: "map_option (\<lambda>kv. (kv_Value kv, kv_Env kv)) (entry c1 k) =
      map_option (\<lambda>v. ([], Some \<lparr>eo_Name = env_name s k, eo_Value = v\<rparr>)) (map_of (cs_env s) k)" for k
  proof -
    have "map_of (map (\<lambda>(k, v). (k, [] :: string, Some \<lparr>eo_Name = env_name s k, eo_Value = v\<rparr>)) kvs) k =
        map_option (\<lambda>v. ([], Some \<lparr>eo_Name = env_name s k, eo_Value = v\<rparr>)) (map_of kvs k)" for kvs
      by (induction kvs) auto
    moreover have "distinct (map fst ?env)" using env(2) by (simp only: fst_env)
    ultimately show ?thesis using m1 [of k] map_of_rev [of ?env k] by simp
  qed
  obtain c2 where c2: "put_all (\<lambda>(k, v). fill_kv \<lparr>kv_Key = k, kv_Value = v, kv_Env = None\<rparr>) (cs_kvs s) c1 = Some c2"
    "indexed c2" "value_of c2 = value_of c1 ++ map_of (rev (cs_kvs s))"
    "sc_SubSystem c2 = sc_SubSystem c1" "sc_Target c2 = sc_Target c1" "env_of c2 = env_of c1"
    using fill.put_all_spec [OF c1(2), of "cs_kvs s"] by auto
  have k2: "sc_keys c2 = map fst (cs_env s) @ [k\<leftarrow>map fst (cs_kvs s). k \<notin> fst ` set (cs_env s)]"
    using fill.put_all_keys [OF c1(2) kvs c2(1)] k1 by simp
  have v2: "value_of c2 k = (case map_of (cs_kvs s) k of Some v \<Rightarrow> Some v
      | None \<Rightarrow> if map_of (cs_env s) k = None then None else Some [])" for k
    using e1 [of k] map_of_rev [OF kvs, of k]
    by (auto simp: c2(3) value_of_def map_add_def split: option.split)
  have o2: "env_of c2 k = map_option (\<lambda>v. \<lparr>eo_Name = env_name s k, eo_Value = v\<rparr>) (map_of (cs_env s) k)" for k
    using e1 [of k] by (cases "map_of (cs_env s) k") (auto simp: c2(6) env_of_def)
  have "describes s c2"
    using c2 fr k2 v2 o2 by (simp add: describes_def)
  moreover have "parse_group (cs_sub s) (cs_target s) (spec_lines s) ?c = Some (Inr c2)"
    using parse_env_lines [OF assms env(1), of ?c "[show_line s]"] c1(1) c2(1) show_line_simps(4) [OF assms]
      parse_show_line [OF assms]
    by (auto simp: spec_lines_def fill_kvs_put_all)
  ultimately show ?thesis by blast
qed

lemma parse_spec_groups:
  "list_all spec_ok ss \<Longrightarrow>
   \<exists>cs. parse_groups (map (\<lambda>s. (cs_sub s, cs_target s, spec_lines s)) ss) = Some (Inr cs) \<and> list_all2 describes ss cs"
proof (induction ss)
  case (Cons s ss)
  obtain c where "parse_group (cs_sub s) (cs_target s) (spec_lines s)
      \<lparr>sc_SubSystem = cs_sub s, sc_Target = (if cs_target s \<noteq> Default then cs_target s else []), sc_KV = [], sc_index = None\<rparr> =
      Some (Inr c)" "describes s c" using parse_spec_group [of s] Cons.prems by auto
  then show ?case using Cons by auto
qed simp

lemma ParseServerConfigOutput_show:
  assumes "list_all spec_ok ss"
  shows "\<exists>cs. ParseServerConfigOutput (show_specs ss) = Some (Inr cs) \<and> list_all2 describes ss cs"
proof -
  let ?ls = "concat (map spec_lines ss)"
  note clean = spec_lines_clean [OF assms]
  have "split_all CHR 0x0A (show_specs ss) = ?ls @ [[]]"
    unfolding show_specs_def by (rule split_all_lines) (rule clean(3))
  moreover have "map TrimSpace ?ls = ?ls" by (rule map_idI) (rule clean(2))
  moreover have "filter (\<lambda>l. l \<noteq> []) ?ls = ?ls" by (simp add: filter_id_conv clean(1))
  moreover have "TrimSpace [] = []" by (simp add: TrimSpace_def)
  ultimately have "ParseServerConfigOutput (show_specs ss) = parse_groups (group_lines [] ?ls)"
    by (simp add: ParseServerConfigOutput_def)
  then show ?thesis using group_specs [OF assms] parse_spec_groups [OF assms] by simp
qed

text \<open>The lookups of a described configuration: the override wins.\<close>

lemma Lookup_describes:
  assumes "describes s c"
  shows "Lookup c k = Some (case map_of (cs_env s) k of Some v \<Rightarrow> (v, True)
    | None \<Rightarrow> (case map_of (cs_kvs s) k of Some v \<Rightarrow> (v, True) | None \<Rightarrow> ([], False)))"
proof -
  have i: "indexed c" and v: "value_of c k = (case map_of (cs_kvs s) k of Some v \<Rightarrow> Some v
        | None \<Rightarrow> if map_of (cs_env s) k = None then None else Some [])"
    and e: "env_of c k = map_option (\<lambda>v. \<lparr>eo_Name = env_name s k, eo_Value = v\<rparr>) (map_of (cs_env s) k)"
    using assms by (auto simp: describes_def)
  show ?thesis
  proof (cases "entry c k")
    case None
    then show ?thesis using v e Lookup_indexed [OF i, of k]
      by (auto simp: value_of_def env_of_def split: option.splits if_splits)
  next
    case (Some kv)
    then show ?thesis using v e Lookup_indexed [OF i, of k]
      by (auto simp: value_of_def env_of_def split: option.splits if_splits)
  qed
qed

end
