(* ===== verification/Config_Properties.thy ===== *)
theory Config_Properties
  imports Config_Roundtrip
begin

text \<open>
  The properties of the configuration parser: what the server prints is read back, overrides win, and
  no output makes the parser or the lookups panic.
\<close>

text \<open>
  C10. The configuration output of a server is read back: printed configurations, each with its
  override comments and its line of keys and values, are parsed into the same configurations, in
  the same order. Each has the keys of its overrides and then those of its line, every key with its
  value and its override, and an index that is consistent with them.
\<close>

theorem config_read_back:
  assumes "list_all spec_ok ss"
  shows "\<exists>cs. ParseServerConfigOutput (show_specs ss) = Some (Inr cs) \<and> list_all2 describes ss cs"
  by (rule ParseServerConfigOutput_show [OF assms])

definition ex_site :: config_spec where
  "ex_site = \<lparr>cs_sub = ''site'', cs_target = Default, cs_env = [(''region'', ''eu west''), (''name'', ''a=b'')],
     cs_kvs = [(''name'', ''old''), (''comment'', ''the first one''), (''region'', '''')]\<rparr>"

definition ex_hook :: config_spec where
  "ex_hook = \<lparr>cs_sub = ''notify_webhook'', cs_target = ''primary'', cs_env = [],
     cs_kvs = [(''endpoint'', ''http://h:80/x?k=v''), (''enable'', ''on'')]\<rparr>"

lemma ex_specs_ok: "list_all spec_ok [ex_site, ex_hook]"
  by code_simp

theorem config_read_back_witness:
  "\<exists>c d. ParseServerConfigOutput (show_specs [ex_site, ex_hook]) = Some (Inr [c, d]) \<and>
     describes ex_site c \<and> describes ex_hook d"
proof -
  obtain cs where cs: "ParseServerConfigOutput (show_specs [ex_site, ex_hook]) = Some (Inr cs)"
    "list_all2 describes [ex_site, ex_hook] cs"
    using config_read_back [OF ex_specs_ok] by blast
  then show ?thesis by (auto simp: list_all2_Cons1)
qed

text \<open>
  C25. An override from the environment wins: looking a key up in a parsed configuration gives the
  value of its override if it has one, else the value of the configuration line, and else nothing.
\<close>

theorem config_override_wins:
  assumes "spec_ok s" and "ParseServerConfigOutput (show_specs [s]) = Some (Inr [c])"
  shows "Lookup c k = Some (case map_of (cs_env s) k of Some v \<Rightarrow> (v, True)
    | None \<Rightarrow> (case map_of (cs_kvs s) k of Some v \<Rightarrow> (v, True) | None \<Rightarrow> ([], False)))"
proof -
  have "describes s c" using ParseServerConfigOutput_show [of "[s]"] assms by (auto simp: list_all2_Cons1)
  then show ?thesis by (rule Lookup_describes)
qed

lemma ex_site_parsed: "\<exists>c. ParseServerConfigOutput (show_specs [ex_site]) = Some (Inr [c])"
  using ParseServerConfigOutput_show [of "[ex_site]"] ex_specs_ok by (auto simp: list_all2_Cons1)

theorem config_override_wins_witness:
  "\<exists>c. ParseServerConfigOutput (show_specs [ex_site]) = Some (Inr [c]) \<and>
     Lookup c ''region'' = Some (''eu west'', True) \<and> Lookup c ''comment'' = Some (''the first one'', True) \<and>
     Lookup c ''absent'' = Some ([], False)"
proof -
  obtain c where c: "ParseServerConfigOutput (show_specs [ex_site]) = Some (Inr [c])" using ex_site_parsed by blast
  have "spec_ok ex_site" using ex_specs_ok by simp
  note l = config_override_wins [OF this c]
  show ?thesis using c l [of "''region''"] l [of "''comment''"] l [of "''absent''"] by (simp add: ex_site_def)
qed

text \<open>
  C16. Whatever the server sends, the parser does not panic: it returns an error or configurations
  whose index names exactly the positions of their keys. So a key occurs once, and neither
  \<open>Lookup\<close> nor \<open>LookupEnv\<close> panics on any key.
\<close>

theorem config_any_output:
  "\<exists>r. ParseServerConfigOutput s = Some r \<and> (\<forall>cs. r = Inr cs \<longrightarrow> list_all (\<lambda>c. indexed c \<and>
     distinct (sc_keys c) \<and> (\<forall>k. Lookup c k \<noteq> None \<and> LookupEnv c k \<noteq> None)) cs)"
proof -
  obtain r where r: "ParseServerConfigOutput s = Some r" "\<forall>cs. r = Inr cs \<longrightarrow> list_all indexed cs"
    using ParseServerConfigOutput_indexed by blast
  have "Lookup c k \<noteq> None" "LookupEnv c k \<noteq> None" if "indexed c" for c k
    unfolding Lookup_indexed [OF that] LookupEnv_indexed [OF that] by (rule option.simps)+
  then have "\<forall>cs. r = Inr cs \<longrightarrow> list_all (\<lambda>c. indexed c \<and> distinct (sc_keys c) \<and>
      (\<forall>k. Lookup c k \<noteq> None \<and> LookupEnv c k \<noteq> None)) cs"
    using r(2) indexed_distinct unfolding list_all_iff by blast
  with r(1) show ?thesis by blast
qed

theorem config_any_output_witness:
  "\<exists>c. ParseServerConfigOutput (show_specs [ex_site]) = Some (Inr [c]) \<and> distinct (sc_keys c) \<and>
     LookupEnv c ''absent'' \<noteq> None"
proof -
  obtain c where c: "ParseServerConfigOutput (show_specs [ex_site]) = Some (Inr [c])" using ex_site_parsed by blast
  obtain r where "ParseServerConfigOutput (show_specs [ex_site]) = Some r" and
    r: "\<forall>cs. r = Inr cs \<longrightarrow> list_all (\<lambda>c. indexed c \<and> distinct (sc_keys c) \<and>
      (\<forall>k. Lookup c k \<noteq> None \<and> LookupEnv c k \<noteq> None)) cs"
    using config_any_output [of "show_specs [ex_site]"] by blast
  then have "r = Inr [c]" using c by simp
  with r c show ?thesis unfolding list_all_iff by (metis list.set_intros(1))
qed

end
