(* ===== verification/Retry.thy ===== *)
theory Retry
  imports Go_Strings
begin

text \<open>
  \<open>retry.go\<close> and \<open>executeMethod\<close> of \<open>api.go\<close>: the request that is sent again until it is answered.
  The network, the clock and the context of the caller are the argument \<open>env\<close>: what each attempt
  gives, which wait is interrupted, and what \<open>ctx.Err()\<close> is at each moment. What the client does is
  recorded in its state: the requests it sent, the waits between them, and the bodies it left open.
\<close>

subsection \<open>What is retried\<close>

definition retryableAdminErrCodes :: "string list" where
  "retryableAdminErrCodes = [''RequestError'', ''RequestTimeout'', ''Throttling'', ''ThrottlingException'',
     ''RequestLimitExceeded'', ''RequestThrottled'', ''SlowDown'']"

definition isAdminErrCodeRetryable :: "string \<Rightarrow> bool" where
  "isAdminErrCodeRetryable code \<longleftrightarrow> code \<in> set retryableAdminErrCodes"

definition retryableHTTPStatusCodes :: "int list" where
  "retryableHTTPStatusCodes = [408, 429, 502, 503]"

definition isHTTPStatusRetryable :: "int \<Rightarrow> bool" where
  "isHTTPStatusRetryable httpStatusCode \<longleftrightarrow> httpStatusCode \<in> set retryableHTTPStatusCodes"

definition successStatus :: "int list" where
  "successStatus = [200, 204, 206]"

definition StatusUpgradeRequired :: int where
  "StatusUpgradeRequired = 426"

subsection \<open>The back-off\<close>

definition DefaultRetryUnit :: duration where "DefaultRetryUnit = 1000000000"
definition DefaultRetryCap :: duration where "DefaultRetryCap = DefaultRetryUnit * 30"

text \<open>
  \<open>exponentialBackoffWait\<close>. The jitter is a \<open>float64\<close>; \<open>scaled sleep jitter\<close> is the random part,
  \<open>time.Duration(adm.random.Float64() * float64(sleep) * jitter)\<close>.
\<close>

definition exponentialBackoffWait ::
  "duration \<Rightarrow> duration \<Rightarrow> ('f::{ord,zero,one}) \<Rightarrow> (duration \<Rightarrow> 'f \<Rightarrow> duration) \<Rightarrow> nat \<Rightarrow> duration" where
  "exponentialBackoffWait unit' capDur jitter scaled attempt =
    (let jitter = (if jitter < 0 then 0 else jitter);
         jitter = (if 1 < jitter then 1 else jitter);
         sleep = push_bit attempt (unit' * 1);
         sleep = (if capDur <s sleep then capDur else sleep);
         sleep = (if 0 < jitter then sleep - scaled sleep jitter else sleep)
     in sleep)"

subsection \<open>Sending a request\<close>

text \<open>A response: its status, the code of the error in its body, and the error of reading the body.\<close>

record 'e response =
  rs_status :: int
  rs_code :: string
  rs_read :: "'e option"

record request =
  rq_path :: string
  rq_body :: "byte list"

text \<open>
  \<open>ev_used i\<close> is how much of the content reader attempt \<open>i\<close> takes. The moments of \<open>ev_ctx\<close> are the start
  (0), the end of attempt \<open>i\<close> (\<open>2 * i + 1\<close>) and the end of the wait after it (\<open>2 * i + 2\<close>).
  \<open>ev_random i\<close> is the random part of the wait after attempt \<open>i\<close>.
\<close>

record 'e env =
  ev_newRequest :: "string \<Rightarrow> 'e option"
  ev_do :: "nat \<Rightarrow> 'e + 'e response"
  ev_used :: "nat \<Rightarrow> nat"
  ev_refused :: "'e \<Rightarrow> bool"
  ev_ctx :: "nat \<Rightarrow> 'e option"
  ev_woken :: "nat \<Rightarrow> bool"
  ev_random :: "nat \<Rightarrow> duration \<Rightarrow> duration"
  ev_prefix :: string

record client =
  cl_path :: string
  cl_content :: "byte list"
  cl_reader :: "byte list option"
  cl_sent :: "request list"
  cl_open :: nat
  cl_waits :: "duration list"
  cl_idleClosed :: bool

text \<open>The timer of \<open>executeMethod\<close>: the default unit and cap, and the jitter \<open>MaxJitter\<close>, which is 1.\<close>

definition MaxJitter :: nat where "MaxJitter = 1"

definition retry_wait :: "'e env \<Rightarrow> nat \<Rightarrow> duration" where
  "retry_wait env i =
    exponentialBackoffWait DefaultRetryUnit DefaultRetryCap MaxJitter (\<lambda>sleep _. ev_random env i sleep) i"

definition adminAPIOldPrefix :: string where "adminAPIOldPrefix = ''/v3''"

text \<open>\<open>newRequest\<close> and \<open>do\<close>: the body of the request, and what is left in the reader after it.\<close>

definition send_request :: "nat \<Rightarrow> 'e env \<Rightarrow> client \<Rightarrow> client" where
  "send_request i env cl =
    (let body = (case cl_reader cl of Some r \<Rightarrow> r | None \<Rightarrow> cl_content cl)
     in cl\<lparr>cl_sent := cl_sent cl @ [\<lparr>rq_path = cl_path cl, rq_body = body\<rparr>],
           cl_reader := map_option (drop (ev_used env i)) (cl_reader cl)\<rparr>)"

text \<open>The check of \<open>retryCtx.Err()\<close> behind the loop.\<close>

definition after_loop :: "'e env \<Rightarrow> nat \<Rightarrow> client \<Rightarrow> 'e response option \<Rightarrow> 'e option \<Rightarrow>
  client \<times> 'e response option \<times> 'e option" where
  "after_loop env moment cl res err = (case ev_ctx env moment of
     Some e \<Rightarrow> (cl, None, Some e) | None \<Rightarrow> (cl, res, err))"

text \<open>The body of the loop: it returns, breaks off, or goes on, with the results assigned so far.\<close>

datatype 'e verdict = Return client "'e response option" "'e option"
  | Break client "'e response option" "'e option" | Continue client "'e response option" "'e option"

definition attempt :: "nat \<Rightarrow> 'e env \<Rightarrow> client \<Rightarrow> 'e verdict" where
  "attempt i env cl = (case ev_newRequest env (cl_path cl) of Some e \<Rightarrow> Return cl None (Some e)
     | None \<Rightarrow>
         (let cl = send_request i env cl
          in case ev_do env i of
               Inl e \<Rightarrow>
                 if ev_refused env e then Return cl None (Some e)
                 else (case ev_ctx env (2 * i + 1) of Some e' \<Rightarrow> Return cl None (Some e')
                   | None \<Rightarrow> Continue cl None (Some e))
             | Inr r \<Rightarrow>
                 if rs_status r \<in> set successStatus then Return cl (Some r) None
                 else if rs_status r = StatusUpgradeRequired then
                   Continue (cl\<lparr>cl_path := ReplaceAll (cl_path cl) (ev_prefix env) adminAPIOldPrefix,
                                cl_open := cl_open cl + 1\<rparr>) (Some r) None
                 else (case rs_read r of Some e \<Rightarrow> Return cl None (Some e)
                   | None \<Rightarrow>
                       if isAdminErrCodeRetryable (rs_code r) then Continue cl (Some r) None
                       else if isHTTPStatusRetryable (rs_status r) then Continue cl (Some r) None
                       else Break cl (Some r) None)))"

text \<open>
  The loop over \<open>newRetryTimer\<close>: \<open>n\<close> attempts are left, \<open>i\<close> have been made. When the body goes on the
  timer waits, also behind the last attempt.
\<close>

fun retry_loop :: "nat \<Rightarrow> nat \<Rightarrow> 'e env \<Rightarrow> client \<Rightarrow> 'e response option \<Rightarrow> 'e option \<Rightarrow>
  client \<times> 'e response option \<times> 'e option" where
  "retry_loop 0 i env cl res err = after_loop env (2 * i) cl res err"
| "retry_loop (Suc n) i env cl res err = (case attempt i env cl of
     Return cl res err \<Rightarrow> (cl, res, err)
   | Break cl res err \<Rightarrow> after_loop env (2 * i + 1) cl res err
   | Continue cl res err \<Rightarrow>
       (let cl = cl\<lparr>cl_waits := cl_waits cl @ [retry_wait env i]\<rparr>
        in if ev_woken env i then after_loop env (2 * i + 2) cl res err
        else retry_loop n (Suc i) env cl res err))"

text \<open>The timer yields nothing when the context is canceled at the start.\<close>

definition executeMethod :: "nat \<Rightarrow> 'e env \<Rightarrow> client \<Rightarrow> client \<times> 'e response option \<times> 'e option" where
  "executeMethod MaxRetry env cl =
    (let (cl, res, err) = (if ev_ctx env 0 \<noteq> None then after_loop env 0 cl None None
           else retry_loop MaxRetry 0 env cl None None)
     in (cl\<lparr>cl_idleClosed := err \<noteq> None\<rparr>, res, err))"

subsection \<open>The back-off is bounded\<close>

definition scaled_ok :: "(duration \<Rightarrow> 'f \<Rightarrow> duration) \<Rightarrow> bool" where
  "scaled_ok scaled \<longleftrightarrow> (\<forall>s j. 0 \<le> sint s \<longrightarrow> 0 \<le> sint (scaled s j) \<and> sint (scaled s j) \<le> sint s)"

lemma sint_push_unit:
  assumes "k \<le> 33"
  shows "sint (push_bit k DefaultRetryUnit) = 1000000000 * 2 ^ k"
proof -
  have "(1000000000::int) * 2 ^ k \<le> 1000000000 * 2 ^ 33"
    using assms by (intro mult_left_mono power_increasing) simp_all
  moreover have "(0::int) \<le> 1000000000 * 2 ^ k" by simp
  moreover have "(1000000000::int) * 2 ^ 33 < 2 ^ 63" by simp
  ultimately have f: "fits64 (1000000000 * 2 ^ k)" unfolding fits64_def by (intro conjI; linarith)
  have "push_bit k DefaultRetryUnit = word_of_int (1000000000 * 2 ^ k)"
    by (simp add: DefaultRetryUnit_def push_bit_eq_mult mult.commute)
  then show ?thesis using sint_word_of_int64 [OF f] by simp
qed

lemma sint_cap: "sint DefaultRetryCap = 30000000000"
  by (simp add: DefaultRetryCap_def DefaultRetryUnit_def)

lemma backoff_bounds:
  fixes jitter :: "'f::{ord,zero,one}"
  assumes "scaled_ok scaled" and "k \<le> 33"
  shows "0 \<le> sint (exponentialBackoffWait DefaultRetryUnit DefaultRetryCap jitter scaled k) \<and>
    sint (exponentialBackoffWait DefaultRetryUnit DefaultRetryCap jitter scaled k) \<le> min 30000000000 (1000000000 * 2 ^ k)"
proof -
  define s where "s = (if DefaultRetryCap <s push_bit k (DefaultRetryUnit * 1) then DefaultRetryCap
    else push_bit k (DefaultRetryUnit * 1))"
  have s: "sint s = min 30000000000 (1000000000 * 2 ^ k)"
    using sint_push_unit [OF assms(2)] sint_cap by (simp add: s_def word_sless_alt)
  have p: "0 \<le> sint s" unfolding s by simp
  have q: "0 \<le> sint (s - scaled s j) \<and> sint (s - scaled s j) \<le> sint s" for j
  proof -
    have b: "0 \<le> sint (scaled s j)" "sint (scaled s j) \<le> sint s" using assms(1) p by (simp_all add: scaled_ok_def)
    have "fits64 (sint s)" by simp
    then have f: "fits64 (sint s - sint (scaled s j))" using b unfolding fits64_def by linarith
    have "s - scaled s j = word_of_int (sint s - sint (scaled s j))" by simp
    then have "sint (s - scaled s j) = sint s - sint (scaled s j)" using sint_word_of_int64 [OF f] by simp
    then show ?thesis using b by linarith
  qed
  let ?j = "if 1 < (if jitter < 0 then 0 else jitter) then 1 else if jitter < 0 then 0 else jitter"
  have "exponentialBackoffWait DefaultRetryUnit DefaultRetryCap jitter scaled k = (if 0 < ?j then s - scaled s ?j else s)"
    by (simp only: exponentialBackoffWait_def Let_def s_def)
  then show ?thesis using q [of ?j] p s by (cases "0 < ?j") (simp_all only: if_True if_False order_refl simp_thms)
qed

lemma retry_wait_bounds:
  assumes "\<And>s. 0 \<le> sint s \<Longrightarrow> 0 \<le> sint (ev_random env k s) \<and> sint (ev_random env k s) \<le> sint s" and "k \<le> 33"
  shows "0 \<le> sint (retry_wait env k) \<and> sint (retry_wait env k) \<le> min 30000000000 (1000000000 * 2 ^ k)"
proof -
  have "scaled_ok (\<lambda>sleep (_ :: nat). ev_random env k sleep)" using assms(1) by (simp add: scaled_ok_def)
  from backoff_bounds [OF this assms(2)] show ?thesis by (simp add: retry_wait_def)
qed

text \<open>One more attempt, and the shift leaves the 64 bits.\<close>

lemma retry_wait_overflow:
  assumes "\<And>s. sint s < 0 \<Longrightarrow> sint s \<le> sint (ev_random env 34 s) \<and> sint (ev_random env 34 s) \<le> 0"
  shows "sint (retry_wait env 34) \<le> 0"
proof -
  define s :: duration where "s = push_bit 34 (DefaultRetryUnit * 1)"
  have s: "sint s = - 1266874889709551616" by (simp add: s_def DefaultRetryUnit_def push_bit_eq_mult)
  have b: "- 1266874889709551616 \<le> sint (ev_random env 34 s)" "sint (ev_random env 34 s) \<le> 0"
    using assms [of s] s by simp_all
  have f: "fits64 (sint s - sint (ev_random env 34 s))" using b s unfolding fits64_def by simp
  have "s - ev_random env 34 s = word_of_int (sint s - sint (ev_random env 34 s))" by simp
  then have "sint (s - ev_random env 34 s) \<le> 0" using sint_word_of_int64 [OF f] s b by simp
  moreover have "retry_wait env 34 = s - ev_random env 34 s"
    unfolding retry_wait_def exponentialBackoffWait_def MaxJitter_def Let_def s_def [symmetric]
    using s sint_cap by (simp add: word_sless_alt)
  ultimately show ?thesis by simp
qed

subsection \<open>One attempt\<close>

lemma send_request_sel [simp]:
  "cl_waits (send_request i env cl) = cl_waits cl" "cl_content (send_request i env cl) = cl_content cl"
  "cl_path (send_request i env cl) = cl_path cl" "cl_open (send_request i env cl) = cl_open cl"
  "cl_reader (send_request i env cl) = map_option (drop (ev_used env i)) (cl_reader cl)"
  "cl_sent (send_request i env cl) = cl_sent cl @ [\<lparr>rq_path = cl_path cl,
     rq_body = (case cl_reader cl of Some r \<Rightarrow> r | None \<Rightarrow> cl_content cl)\<rparr>]"
  by (simp_all add: send_request_def Let_def)

text \<open>An answer that makes the loop go on, and what the attempt has assigned then.\<close>

definition retried :: "'e env \<Rightarrow> nat \<Rightarrow> bool" where
  "retried env i \<longleftrightarrow> (case ev_do env i of
     Inl e \<Rightarrow> \<not> ev_refused env e \<and> ev_ctx env (2 * i + 1) = None
   | Inr r \<Rightarrow> rs_status r \<notin> set successStatus \<and> (rs_status r = StatusUpgradeRequired \<or>
       rs_read r = None \<and> (isAdminErrCodeRetryable (rs_code r) \<or> isHTTPStatusRetryable (rs_status r))))"

definition outcome :: "'e env \<Rightarrow> nat \<Rightarrow> 'e response option \<times> 'e option" where
  "outcome env i = (case ev_do env i of Inl e \<Rightarrow> (None, Some e) | Inr r \<Rightarrow> (Some r, None))"

definition upgraded :: "'e env \<Rightarrow> nat \<Rightarrow> bool" where
  "upgraded env i \<longleftrightarrow> (case ev_do env i of Inl _ \<Rightarrow> False
     | Inr r \<Rightarrow> rs_status r \<notin> set successStatus \<and> rs_status r = StatusUpgradeRequired)"

definition after_answer :: "nat \<Rightarrow> 'e env \<Rightarrow> client \<Rightarrow> client" where
  "after_answer i env cl = (let cl = send_request i env cl
     in if upgraded env i then cl\<lparr>cl_path := ReplaceAll (cl_path cl) (ev_prefix env) adminAPIOldPrefix,
          cl_open := cl_open cl + 1\<rparr> else cl)"

lemma after_answer_sel [simp]:
  "cl_waits (after_answer i env cl) = cl_waits cl" "cl_content (after_answer i env cl) = cl_content cl"
  "cl_open (after_answer i env cl) = cl_open cl + (if upgraded env i then 1 else 0)"
  "cl_reader (after_answer i env cl) = map_option (drop (ev_used env i)) (cl_reader cl)"
  "cl_sent (after_answer i env cl) = cl_sent cl @ [\<lparr>rq_path = cl_path cl,
     rq_body = (case cl_reader cl of Some r \<Rightarrow> r | None \<Rightarrow> cl_content cl)\<rparr>]"
  by (simp_all add: after_answer_def Let_def)

lemma attempt_retried:
  "ev_newRequest env (cl_path cl) = None \<Longrightarrow> retried env i \<Longrightarrow>
   attempt i env cl = Continue (after_answer i env cl) (fst (outcome env i)) (snd (outcome env i))"
  by (auto simp: attempt_def retried_def outcome_def upgraded_def after_answer_def Let_def split: sum.splits)

lemma attempt_continue:
  "attempt i env cl = Continue cl' res err \<Longrightarrow>
   retried env i \<and> cl' = after_answer i env cl \<and> (res, err) = outcome env i"
  by (auto simp: attempt_def retried_def outcome_def upgraded_def after_answer_def Let_def
    split: sum.splits option.splits if_splits)

lemma attempt_stop:
  "attempt i env cl = Return cl' res err \<or> attempt i env cl = Break cl' res err \<Longrightarrow> cl' = cl \<or> cl' = send_request i env cl"
  by (auto simp: attempt_def Let_def split: sum.splits option.splits if_splits)

lemma attempt_success:
  "ev_newRequest env (cl_path cl) = None \<Longrightarrow> ev_do env i = Inr r \<Longrightarrow> rs_status r \<in> set successStatus \<Longrightarrow>
   attempt i env cl = Return (send_request i env cl) (Some r) None"
  by (simp add: attempt_def Let_def)

lemma attempt_final:
  "ev_newRequest env (cl_path cl) = None \<Longrightarrow> ev_do env i = Inr r \<Longrightarrow> rs_status r \<notin> set successStatus \<Longrightarrow>
   \<not> retried env i \<Longrightarrow> rs_read r = None \<Longrightarrow> attempt i env cl = Break (send_request i env cl) (Some r) None"
  by (auto simp: attempt_def retried_def Let_def)

lemma attempt_refused:
  "ev_newRequest env (cl_path cl) = None \<Longrightarrow> ev_do env i = Inl e \<Longrightarrow> ev_refused env e \<Longrightarrow>
   attempt i env cl = Return (send_request i env cl) None (Some e)"
  by (simp add: attempt_def Let_def)

subsection \<open>Every run is bounded\<close>

lemma after_loop_client [simp]: "fst (after_loop env m cl res err) = cl"
  by (simp add: after_loop_def split: option.split)

definition counted :: "nat \<Rightarrow> nat \<Rightarrow> 'e env \<Rightarrow> client \<Rightarrow> client \<Rightarrow> bool" where
  "counted n i env cl cl' \<longleftrightarrow> length (cl_sent cl') \<le> length (cl_sent cl) + n \<and>
     (\<exists>m\<le>n. cl_waits cl' = cl_waits cl @ map (retry_wait env) [i..<i + m])"

lemma counted_refl [simp]: "counted n i env cl cl"
  unfolding counted_def by (intro conjI exI [of _ 0]) simp_all

lemma counted_stop: "cl' = cl \<or> cl' = send_request i env cl \<Longrightarrow> counted (Suc n) i env cl cl'"
  unfolding counted_def by (intro conjI exI [of _ 0]) auto

lemma counted_step:
  assumes "counted n (Suc i) env cl1 cl'" and "length (cl_sent cl1) = Suc (length (cl_sent cl))"
    and "cl_waits cl1 = cl_waits cl @ [retry_wait env i]"
  shows "counted (Suc n) i env cl cl'"
proof -
  obtain m where m: "m \<le> n" "cl_waits cl' = cl_waits cl1 @ map (retry_wait env) [Suc i..<Suc i + m]"
    using assms(1) by (auto simp: counted_def)
  have "[i..<i + Suc m] = i # [Suc i..<Suc i + m]" by (simp add: upt_conv_Cons)
  then show ?thesis using assms m unfolding counted_def by (intro conjI exI [of _ "Suc m"]) simp_all
qed

lemma retry_loop_counts: "counted n i env cl (fst (retry_loop n i env cl res err))"
proof (induction n arbitrary: i cl res err)
  case (Suc n)
  show ?case
  proof (cases "attempt i env cl")
    case (Return cl' res' err')
    then show ?thesis using attempt_stop [of i env cl cl' res' err'] counted_stop by simp
  next
    case (Break cl' res' err')
    then show ?thesis using attempt_stop [of i env cl cl' res' err'] counted_stop by simp
  next
    case (Continue cl' res' err')
    let ?c = "cl'\<lparr>cl_waits := cl_waits cl' @ [retry_wait env i]\<rparr>"
    have c: "length (cl_sent ?c) = Suc (length (cl_sent cl))" "cl_waits ?c = cl_waits cl @ [retry_wait env i]"
      using attempt_continue [OF Continue] by simp_all
    have "counted n (Suc i) env ?c (fst (retry_loop (Suc n) i env cl res err))"
      using Suc.IH [of "Suc i" ?c res' err'] Continue by (simp add: Let_def)
    from counted_step [OF this c] show ?thesis .
  qed
qed simp

lemma executeMethod_counts: "counted MaxRetry 0 env cl (fst (executeMethod MaxRetry env cl))"
proof -
  define r where "r = (if ev_ctx env 0 \<noteq> None then after_loop env 0 cl None None
    else retry_loop MaxRetry 0 env cl None None)"
  have "counted MaxRetry 0 env cl (fst r)" by (simp add: r_def retry_loop_counts)
  moreover have "executeMethod MaxRetry env cl = (let (cl, res, err) = r in (cl\<lparr>cl_idleClosed := err \<noteq> None\<rparr>, res, err))"
    by (simp only: executeMethod_def r_def)
  ultimately show ?thesis by (cases r) (simp add: counted_def)
qed

subsection \<open>Runs that are retried\<close>

text \<open>The client after \<open>k\<close> attempts, each of which was retried.\<close>

fun client_after :: "nat \<Rightarrow> 'e env \<Rightarrow> client \<Rightarrow> client" where
  "client_after 0 env cl = cl"
| "client_after (Suc k) env cl =
    (let cl = after_answer k env (client_after k env cl) in cl\<lparr>cl_waits := cl_waits cl @ [retry_wait env k]\<rparr>)"

definition retried_until :: "nat \<Rightarrow> 'e env \<Rightarrow> bool" where
  "retried_until k env \<longleftrightarrow> (\<forall>p. ev_newRequest env p = None) \<and> (\<forall>i<k. retried env i \<and> \<not> ev_woken env i)"

lemma retry_loop_until:
  "retried_until k env \<Longrightarrow> retry_loop (k + n) 0 env cl res err =
   retry_loop n k env (client_after k env cl) (if k = 0 then res else fst (outcome env (k - 1)))
     (if k = 0 then err else snd (outcome env (k - 1)))"
proof (induction k arbitrary: n)
  case (Suc k)
  have "retried_until k env" using Suc.prems by (simp add: retried_until_def)
  from Suc.IH [OF this, of "Suc n"] show ?case
    using Suc.prems attempt_retried [of env "client_after k env cl" k]
    by (simp add: retried_until_def Let_def)
qed simp

lemma client_after_sent:
  "length (cl_sent (client_after k env cl)) = length (cl_sent cl) + k"
  "cl_waits (client_after k env cl) = cl_waits cl @ map (retry_wait env) [0..<k]"
  "cl_open (client_after k env cl) = cl_open cl + length (filter (upgraded env) [0..<k])"
  "cl_content (client_after k env cl) = cl_content cl"
  "cl_reader (client_after k env cl) = map_option (drop (\<Sum>i<k. ev_used env i)) (cl_reader cl)"
proof (induction k)
  case (Suc k)
  {
    case 5
    then show ?case using Suc.IH(5) by (cases "cl_reader cl") (simp_all add: Let_def add.commute)
  }
qed (simp_all add: Let_def option.map_id option.map_ident)

lemma executeMethod_until:
  assumes "retried_until k env" and "k \<le> MaxRetry" and "ev_ctx env 0 = None"
  shows "executeMethod MaxRetry env cl =
    (let (cl, res, err) = retry_loop (MaxRetry - k) k env (client_after k env cl)
           (if k = 0 then None else fst (outcome env (k - 1))) (if k = 0 then None else snd (outcome env (k - 1)))
     in (cl\<lparr>cl_idleClosed := err \<noteq> None\<rparr>, res, err))"
  using retry_loop_until [OF assms(1), of "MaxRetry - k" cl None None] assms(2,3) by (simp add: executeMethod_def)

lemma executeMethod_success:
  assumes "retried_until k env" and "k < MaxRetry" and "ev_ctx env 0 = None"
    and "ev_do env k = Inr r" and "rs_status r \<in> set successStatus"
  shows "executeMethod MaxRetry env cl = ((send_request k env (client_after k env cl))\<lparr>cl_idleClosed := False\<rparr>, Some r, None)"
proof -
  obtain n where n: "MaxRetry - k = Suc n" using assms(2) by (cases "MaxRetry - k") simp_all
  have "ev_newRequest env (cl_path (client_after k env cl)) = None" using assms(1) by (simp add: retried_until_def)
  from attempt_success [OF this assms(4,5)] show ?thesis
    using executeMethod_until [OF assms(1) _ assms(3), of MaxRetry cl] assms(2) n by simp
qed

text \<open>The bodies that were sent: the content again and again, but the reader only from where it stands.\<close>

definition body_sent :: "'e env \<Rightarrow> client \<Rightarrow> nat \<Rightarrow> byte list" where
  "body_sent env cl i = (case cl_reader cl of Some r \<Rightarrow> drop (\<Sum>j<i. ev_used env j) r | None \<Rightarrow> cl_content cl)"

lemma client_after_bodies:
  "map rq_body (cl_sent (client_after k env cl)) = map rq_body (cl_sent cl) @ map (body_sent env cl) [0..<k]"
proof (induction k)
  case (Suc k)
  then show ?case by (cases "cl_reader cl") (simp_all add: Let_def client_after_sent body_sent_def)
qed simp

text \<open>The paths: the old prefix as soon as an upgrade has been asked for.\<close>

fun path_sent :: "'e env \<Rightarrow> string \<Rightarrow> nat \<Rightarrow> string" where
  "path_sent env p 0 = p"
| "path_sent env p (Suc i) = (let q = path_sent env p i
     in if upgraded env i then ReplaceAll q (ev_prefix env) adminAPIOldPrefix else q)"

lemma client_after_path: "cl_path (client_after k env cl) = path_sent env (cl_path cl) k"
  by (induction k) (simp_all add: Let_def after_answer_def)

lemma client_after_paths:
  "map rq_path (cl_sent (client_after k env cl)) = map rq_path (cl_sent cl) @ map (path_sent env (cl_path cl)) [0..<k]"
  by (induction k) (simp_all add: Let_def client_after_path)

end
