(* ===== verification/Retry_Properties.thy ===== *)
theory Retry_Properties
  imports Retry
begin

text \<open>
  The properties of the request loop: how many requests and how much waiting a call can cost, which
  outcome it returns, and what the retried requests look like.
\<close>

text \<open>Random parts that lie between zero and the wait they shorten, as a factor of \<open>[0, 1)\<close> gives them.\<close>

definition random_ok :: "'e env \<Rightarrow> bool" where
  "random_ok env \<longleftrightarrow> (\<forall>i s. if 0 \<le> sint s then 0 \<le> sint (ev_random env i s) \<and> sint (ev_random env i s) \<le> sint s
     else sint s \<le> sint (ev_random env i s) \<and> sint (ev_random env i s) \<le> 0)"

text \<open>A network for the instances: an upgrade, a lost connection, a busy server, and then an answer.\<close>

definition ex_ok :: "string response" where
  "ex_ok = \<lparr>rs_status = 200, rs_code = [], rs_read = None\<rparr>"

definition ex_net :: "string env" where
  "ex_net = \<lparr>ev_newRequest = (\<lambda>_. None),
     ev_do = (\<lambda>i. if i = 0 then Inr (ex_ok\<lparr>rs_status := 426\<rparr>) else if i = 1 then Inl ''EOF''
       else if i = 2 then Inr (ex_ok\<lparr>rs_status := 503, rs_code := ''SlowDown''\<rparr>) else Inr ex_ok),
     ev_used = (\<lambda>_. 5), ev_refused = (\<lambda>e. e = ''ECONNREFUSED''), ev_ctx = (\<lambda>_. None), ev_woken = (\<lambda>_. False),
     ev_random = (\<lambda>_ _. 0), ev_prefix = ''/v4''\<rparr>"

definition ex_client :: "byte list option \<Rightarrow> client" where
  "ex_client r = \<lparr>cl_path = ''/v4/info'', cl_content = [7], cl_reader = r, cl_sent = [], cl_open = 0,
     cl_waits = [], cl_idleClosed = False\<rparr>"

lemma ex_net_random: "random_ok ex_net"
  by (simp add: random_ok_def ex_net_def)

lemma ex_net_retried: "k \<le> 3 \<Longrightarrow> retried_until k ex_net"
proof -
  have "retried ex_net i" if "i < 3" for i :: nat
  proof -
    have "i = 0 \<or> i = 1 \<or> i = 2" using that by linarith
    then show ?thesis by (auto simp: retried_def ex_net_def ex_ok_def successStatus_def StatusUpgradeRequired_def
      isAdminErrCodeRetryable_def retryableAdminErrCodes_def)
  qed
  then show "k \<le> 3 \<Longrightarrow> retried_until k ex_net" by (simp add: retried_until_def ex_net_def)
qed

lemma ex_net_answer: "ev_ctx ex_net t = None" "ev_do ex_net 3 = Inr ex_ok" "rs_status ex_ok \<in> set successStatus"
  by (simp_all add: ex_net_def ex_ok_def successStatus_def)

text \<open>
  C18. Every call ends, whatever the network answers: it sends at most \<open>MaxRetry\<close> requests, and its
  waits are those of the attempts 0, 1, 2 and so on, in this order, at most \<open>MaxRetry\<close> of them.
\<close>

theorem requests_bounded:
  "length (cl_sent (fst (executeMethod MaxRetry env cl))) \<le> length (cl_sent cl) + MaxRetry \<and>
   (\<exists>m\<le>MaxRetry. cl_waits (fst (executeMethod MaxRetry env cl)) = cl_waits cl @ map (retry_wait env) [0..<m])"
  using executeMethod_counts [of MaxRetry env cl] by (simp add: counted_def)

text \<open>
  C17. The waits of a call with at most 34 retries lie between zero and half a minute, and they are
  not longer than the doubling unit; with the default of ten retries they are at most 181 seconds.
\<close>

theorem waits_bounded:
  assumes "random_ok env" and "MaxRetry \<le> 34" and "cl_waits cl = []"
  shows "list_all (\<lambda>w. 0 \<le> sint w \<and> sint w \<le> 30000000000) (cl_waits (fst (executeMethod MaxRetry env cl))) \<and>
    (MaxRetry = 10 \<longrightarrow> sum_list (map sint (cl_waits (fst (executeMethod MaxRetry env cl)))) \<le> 181000000000)"
proof -
  obtain m where m: "m \<le> MaxRetry" "cl_waits (fst (executeMethod MaxRetry env cl)) = map (retry_wait env) [0..<m]"
    using executeMethod_counts [of MaxRetry env cl] assms(3) by (auto simp: counted_def)
  have b: "0 \<le> sint (retry_wait env i) \<and> sint (retry_wait env i) \<le> min 30000000000 (1000000000 * 2 ^ i)"
    if "i < m" for i
  proof (rule retry_wait_bounds)
    show "i \<le> 33" using that m(1) assms(2) by simp
  qed (use assms(1) in \<open>auto simp: random_ok_def\<close>)
  have "sum_list (map sint (map (retry_wait env) [0..<m])) = (\<Sum>i<m. sint (retry_wait env i))"
    by (simp add: interv_sum_list_conv_sum_set_nat atLeast0LessThan comp_def)
  also have "\<dots> \<le> (\<Sum>i<m. min 30000000000 (1000000000 * 2 ^ i))" using b by (intro sum_mono) simp
  also have "\<dots> \<le> (\<Sum>i<MaxRetry. min 30000000000 (1000000000 * 2 ^ i))" using m(1) by (intro sum_mono2) auto
  finally have t: "sum_list (map sint (map (retry_wait env) [0..<m])) \<le> (\<Sum>i<MaxRetry. min 30000000000 (1000000000 * 2 ^ i))" .
  have "(\<Sum>i<10. min 30000000000 (1000000000 * 2 ^ i)) = (181000000000 :: int)"
    by (simp add: eval_nat_numeral lessThan_Suc)
  then show ?thesis using b t m(2) by (auto simp: list_all_iff)
qed

theorem waits_bounded_witness:
  "sum_list (map sint (cl_waits (fst (executeMethod 10 ex_net (ex_client None))))) \<le> 181000000000"
  using waits_bounded [OF ex_net_random, of 10 "ex_client None"] by (simp add: ex_client_def)

text \<open>
  Thirty-five retries are too many: the unit is shifted out of the 64 bits of a duration, and the
  wait after attempt 34 is not positive, so that the next request is sent at once.
\<close>

theorem wait_overflows:
  assumes "random_ok env"
  shows "sint (retry_wait env 34) \<le> 0"
  by (rule retry_wait_overflow) (use assms in \<open>auto simp: random_ok_def\<close>)

theorem wait_overflows_witness: "sint (retry_wait ex_net 34) \<le> 0"
  by (rule wait_overflows [OF ex_net_random])



text \<open>
  When every attempt is retried, the last outcome is returned, after \<open>MaxRetry\<close> requests and as many
  waits: the call also waits when no request will follow.
\<close>

theorem all_retried:
  assumes "retried_until MaxRetry env" and "0 < MaxRetry" and "ev_ctx env 0 = None" and "ev_ctx env (2 * MaxRetry) = None"
  shows "\<exists>cl'. executeMethod MaxRetry env cl = (cl', outcome env (MaxRetry - 1)) \<and>
    length (cl_sent cl') = length (cl_sent cl) + MaxRetry \<and>
    cl_waits cl' = cl_waits cl @ map (retry_wait env) [0..<MaxRetry]"
  using executeMethod_until [OF assms(1) order_refl assms(3), of cl] assms(2,4)
  by (cases "outcome env (MaxRetry - 1)") (simp add: after_loop_def client_after_sent)

theorem all_retried_witness:
  "\<exists>cl'. executeMethod 2 ex_net (ex_client None) = (cl', None, Some ''EOF'') \<and> length (cl_waits cl') = 2"
proof -
  have "outcome ex_net 1 = (None, Some ''EOF'')" by (simp add: outcome_def ex_net_def)
  then show ?thesis
    using all_retried [OF ex_net_retried _ ex_net_answer(1) ex_net_answer(1), of 2 "ex_client None"]
    by (auto simp: ex_client_def)
qed

text \<open>Without any attempt there is neither a response nor an error.\<close>

lemma no_attempt: "ev_ctx env 0 = None \<Longrightarrow> snd (executeMethod 0 env cl) = (None, None)"
  by (simp add: executeMethod_def after_loop_def)

text \<open>
  C26. The body of a retried request is the content again, but a content reader is not rewound: the
  request of attempt \<open>i\<close> gets only what the attempts before it left unread. When the first one read
  everything, all that follow have an empty body.
\<close>

theorem retried_bodies:
  assumes "retried_until k env" and "k < MaxRetry" and "ev_ctx env 0 = None"
    and "ev_do env k = Inr r" and "rs_status r \<in> set successStatus"
    and "cl_sent cl = []"
  shows "\<exists>cl'. executeMethod MaxRetry env cl = (cl', Some r, None) \<and>
    map rq_body (cl_sent cl') = map (body_sent env cl) [0..<k + 1] \<and>
    (\<forall>b. cl_reader cl = Some b \<longrightarrow> length b \<le> ev_used env 0 \<longrightarrow>
       map rq_body (cl_sent cl') = b # replicate k [])"
proof -
  have b: "map rq_body (cl_sent (send_request k env (client_after k env cl))) = map (body_sent env cl) [0..<k + 1]"
    using client_after_bodies [of k env cl] assms(6)
    by (cases "cl_reader cl") (simp_all add: client_after_sent body_sent_def)
  have e: "map (body_sent env cl) [0..<k + 1] = b # replicate k []" if r: "cl_reader cl = Some b" "length b \<le> ev_used env 0" for b
  proof -
    have "length b \<le> (\<Sum>j<Suc i. ev_used env j)" for i
      using r(2) by (simp add: sum.lessThan_Suc_shift del: sum.lessThan_Suc)
    then have "body_sent env cl (Suc i) = []" for i using r(1) by (simp add: body_sent_def)
    moreover have "body_sent env cl 0 = b" using r(1) by (simp add: body_sent_def)
    ultimately show ?thesis
      by (simp add: upt_conv_Cons comp_def map_replicate_const del: upt_Suc flip: map_Suc_upt)
  qed
  show ?thesis using b e by (simp add: executeMethod_success [OF assms(1-5)])
qed

theorem retried_bodies_witness:
  "\<exists>cl'. executeMethod 10 ex_net (ex_client (Some [1, 2])) = (cl', Some ex_ok, None) \<and>
     map rq_body (cl_sent cl') = [[1, 2], [], [], []]"
  using retried_bodies [OF ex_net_retried _ ex_net_answer, of 10 "ex_client (Some [1, 2])"]
  by (auto simp: ex_client_def ex_net_def eval_nat_numeral)

text \<open>
  C40. A server that asks for an upgrade is asked again with the old prefix of the interface: the
  paths of the requests are those of \<open>path_sent\<close>. The bodies of these answers are never closed, so each
  of them leaves one more connection in use.
\<close>

theorem upgrade_paths:
  assumes "retried_until k env" and "k < MaxRetry" and "ev_ctx env 0 = None"
    and "ev_do env k = Inr r" and "rs_status r \<in> set successStatus"
    and "cl_sent cl = []"
  shows "\<exists>cl'. executeMethod MaxRetry env cl = (cl', Some r, None) \<and>
    map rq_path (cl_sent cl') = map (path_sent env (cl_path cl)) [0..<k + 1] \<and>
    cl_open cl' = cl_open cl + length (filter (upgraded env) [0..<k])"
  using assms(6) by (simp add: executeMethod_success [OF assms(1-5)] client_after_sent client_after_paths client_after_path)

theorem upgrade_paths_witness:
  "\<exists>cl'. executeMethod 10 ex_net (ex_client None) = (cl', Some ex_ok, None) \<and>
     map rq_path (cl_sent cl') = [''/v4/info'', ''/v3/info'', ''/v3/info'', ''/v3/info''] \<and> cl_open cl' = 1"
proof -
  have p: "map (path_sent ex_net ''/v4/info'') [0..<3 + 1] = [''/v4/info'', ''/v3/info'', ''/v3/info'', ''/v3/info'']"
    by code_simp
  have "length (filter (upgraded ex_net) [0..<3]) = 1" by code_simp
  then show ?thesis
    using upgrade_paths [OF ex_net_retried _ ex_net_answer, of 10 "ex_client None"] p
    by (auto simp: ex_client_def)
qed

end
