(* ===== verification/Durations.thy ===== *)
theory Durations
  imports Go_Strings
begin

text \<open>
  \<open>xtime/time_contrib.go\<close> and the durations of \<open>xtime/time.go\<close>: the parser of durations that knows days
  and weeks. A string is its bytes. The \<open>float64\<close> arithmetic of fractions is a parameter: \<open>'f\<close> with the
  conversions \<open>of64\<close> and \<open>to64\<close>.
\<close>

subsection \<open>Units\<close>

definition Day :: duration where "Day = 3600000000000 * 24"
definition Week :: duration where "Week = Day * 7"

definition unitMap :: "(string \<times> i64) list" where
  "unitMap = [(''ns'', 1), (''us'', 1000), ([CHR 0xC2, CHR 0xB5, CHR ''s''], 1000), ([CHR 0xCE, CHR 0xBC, CHR ''s''], 1000),
     (''ms'', 1000000), (''s'', 1000000000), (''m'', 60000000000), (''h'', 3600000000000), (''d'', Day), (''w'', Week)]"

subsection \<open>Numbers\<close>

definition isDigit :: "char \<Rightarrow> bool" where
  "isDigit c \<longleftrightarrow> \<not> (c < CHR ''0'' \<or> CHR ''9'' < c)"

definition digit_of :: "char \<Rightarrow> i64" where
  "digit_of c = of_nat (of_char c)"

fun leadingInt :: "i64 \<Rightarrow> string \<Rightarrow> (i64 \<times> string) option" where
  "leadingInt x [] = Some (x, [])"
| "leadingInt x (c # s) =
    (if \<not> isDigit c then Some (x, c # s)
     else if quot64 9223372036854775807 10 <s x then None
     else
       let x = x * 10 + digit_of c - 48
       in if x <s 0 then None else leadingInt x s)"

fun leadingFraction :: "(i64 \<Rightarrow> 'f::times) \<Rightarrow> i64 \<Rightarrow> 'f \<Rightarrow> bool \<Rightarrow> string \<Rightarrow> i64 \<times> 'f \<times> string" where
  "leadingFraction of64 x scale overflow [] = (x, scale, [])"
| "leadingFraction of64 x scale overflow (c # s) =
    (if \<not> isDigit c then (x, scale, c # s)
     else if overflow then leadingFraction of64 x scale overflow s
     else if quot64 9223372036854775807 10 <s x then leadingFraction of64 x scale True s
     else
       let y = x * 10 + digit_of c - 48
       in if y <s 0 then leadingFraction of64 x scale True s
       else leadingFraction of64 y (scale * of64 10) overflow s)"

subsection \<open>Durations\<close>

datatype duration_err = InvalidDuration string | MissingUnit string | UnknownUnit string string

lemma leadingInt_length: "leadingInt x s = Some (v, r) \<Longrightarrow> length r \<le> length s"
  by (induction x s rule: leadingInt.induct) (auto simp: Let_def split: if_splits)

lemma leadingFraction_length: "length (snd (snd (leadingFraction of64 x scale ov s))) \<le> length s"
  by (induction s arbitrary: x scale ov) (auto simp: Let_def le_SucI)

text \<open>The optional fraction behind a period: its digits, its scale, whether it has any, and the rest.\<close>

definition fraction_part :: "(i64 \<Rightarrow> 'f::{one,times}) \<Rightarrow> string \<Rightarrow> i64 \<times> 'f \<times> bool \<times> string" where
  "fraction_part of64 s =
    (if s \<noteq> [] \<and> hd s = CHR ''.'' then
       let s = tl s;
           (f, scale, r) = leadingFraction of64 0 1 False s
       in (f, scale, length s \<noteq> length r, r)
     else (0, 1, False, s))"

definition isUnit :: "char \<Rightarrow> bool" where
  "isUnit c \<longleftrightarrow> \<not> (c = CHR ''.'' \<or> isDigit c)"

text \<open>The value of one number with its unit, and the rest of the string.\<close>

definition parse_segment :: "(i64 \<Rightarrow> 'f::{one,times,inverse}) \<Rightarrow> ('f \<Rightarrow> i64) \<Rightarrow> string \<Rightarrow> string \<Rightarrow>
  duration_err + i64 \<times> string" where
  "parse_segment of64 to64 orig s =
    (if \<not> (s \<noteq> [] \<and> (hd s = CHR ''.'' \<or> isDigit (hd s))) then Inl (InvalidDuration orig)
     else (case leadingInt 0 s of None \<Rightarrow> Inl (InvalidDuration orig)
       | Some (v, r) \<Rightarrow>
           (let pre = length s \<noteq> length r;
                (f, scale, post, r) = fraction_part of64 r
            in if \<not> pre \<and> \<not> post then Inl (InvalidDuration orig)
            else
              let u = takeWhile isUnit r
              in if u = [] then Inl (MissingUnit orig)
              else (case map_of unitMap u of None \<Rightarrow> Inl (UnknownUnit u orig)
                | Some unit \<Rightarrow>
                    if quot64 9223372036854775807 unit <s v then Inl (InvalidDuration orig)
                    else
                      let v = v * unit;
                          v = (if 0 <s f then v + to64 (of64 f * (of64 unit / scale)) else v)
                      in if 0 <s f \<and> v <s 0 then Inl (InvalidDuration orig)
                      else Inr (v, dropWhile isUnit r)))))"

lemma parse_segment_length: "parse_segment of64 to64 orig s = Inr (v, r) \<Longrightarrow> length r < length s"
proof -
  assume p: "parse_segment of64 to64 orig s = Inr (v, r)"
  then obtain n t where n: "leadingInt 0 s = Some (n, t)"
    by (auto simp: parse_segment_def split: if_splits option.splits)
  obtain f sc post t' where t': "fraction_part of64 t = (f, sc, post, t')" by (metis prod_cases4)
  have "length t' \<le> length t"
  proof -
    have "length (snd (snd (snd (fraction_part of64 t)))) \<le> length t"
      using leadingFraction_length [of of64 0 1 False "tl t"]
      by (cases t) (auto simp: fraction_part_def Let_def split: prod.split)
    then show ?thesis using t' by simp
  qed
  moreover have "length (dropWhile isUnit t') < length t'" if "takeWhile isUnit t' \<noteq> []"
    using that takeWhile_dropWhile_id [of isUnit t'] by (metis length_append length_greater_0_conv less_add_same_cancel2)
  moreover have "r = dropWhile isUnit t'" "takeWhile isUnit t' \<noteq> []"
    using p n t' by (auto simp: parse_segment_def Let_def split: if_splits option.splits)
  ultimately show ?thesis using leadingInt_length [OF n] by simp
qed

function parse_segments :: "(i64 \<Rightarrow> 'f::{one,times,inverse}) \<Rightarrow> ('f \<Rightarrow> i64) \<Rightarrow> string \<Rightarrow> i64 \<Rightarrow> string \<Rightarrow>
  duration_err + i64" where
  "parse_segments of64 to64 orig d s =
    (if s = [] then Inr d
     else (case parse_segment of64 to64 orig s of Inl e \<Rightarrow> Inl e
       | Inr (v, s) \<Rightarrow>
           let d = d + v
           in if d <s 0 then Inl (InvalidDuration orig) else parse_segments of64 to64 orig d s))"
  by pat_completeness auto
termination
  by (relation "measure (\<lambda>(of64, to64, orig, d, s). length s)") (auto dest: parse_segment_length)

declare parse_segments.simps [simp del]

definition parseDuration :: "(i64 \<Rightarrow> 'f::{one,times,inverse}) \<Rightarrow> ('f \<Rightarrow> i64) \<Rightarrow> string \<Rightarrow> duration_err + duration" where
  "parseDuration of64 to64 s =
    (let orig = s;
         neg = (s \<noteq> [] \<and> hd s = CHR ''-'');
         s = (if s \<noteq> [] \<and> (hd s = CHR ''-'' \<or> hd s = CHR ''+'') then tl s else s)
     in if s = ''0'' then Inr 0
     else if s = [] then Inl (InvalidDuration orig)
     else (case parse_segments of64 to64 orig 0 s of Inl e \<Rightarrow> Inl e
       | Inr d \<Rightarrow> Inr (if neg then - d else d)))"

text \<open>\<open>std\<close> is \<open>time.ParseDuration\<close>, which knows no days and weeks.\<close>

definition ParseDuration :: "(string \<Rightarrow> duration option) \<Rightarrow> (i64 \<Rightarrow> 'f::{one,times,inverse}) \<Rightarrow> ('f \<Rightarrow> i64) \<Rightarrow> string \<Rightarrow>
  duration_err + duration" where
  "ParseDuration std of64 to64 s = (case std s of Some dur \<Rightarrow> Inr dur | None \<Rightarrow> parseDuration of64 to64 s)"

subsection \<open>Numbers below the bound\<close>

lemma of_nat64:
  assumes "a < 9223372036854775808"
  shows "sint (of_nat a :: i64) = int a" and "unat (of_nat a :: i64) = a"
proof -
  have "fits64 (int a)" using assms by (simp add: fits64_def)
  from sint_word_of_int64 [OF this] show "sint (of_nat a :: i64) = int a" by simp
  show "unat (of_nat a :: i64) = a" using assms by (simp add: take_bit_nat_eq_self unat_of_nat)
qed

lemma of_nat64_high:
  assumes "9223372036854775808 \<le> a" and "a < 18446744073709551616"
  shows "sint (of_nat a :: i64) < 0"
proof -
  have "sint (of_nat a :: i64) = (int a + 9223372036854775808) mod 18446744073709551616 - 9223372036854775808"
    using int_word_sint [of "int a", where 'a = 64] by simp
  also have "(int a + 9223372036854775808) mod 18446744073709551616 =
      (int a + 9223372036854775808 - 18446744073709551616) mod 18446744073709551616"
    by (rule minus_mod_self2 [symmetric])
  also have "\<dots> = int a + 9223372036854775808 - 18446744073709551616"
    using assms by (intro mod_pos_pos_trivial) linarith+
  finally show ?thesis using assms by linarith
qed

lemma of_nat64_neg: "a < 18446744073709551616 \<Longrightarrow> (of_nat a :: i64) <s 0 \<longleftrightarrow> 9223372036854775808 \<le> a"
  using of_nat64(1) [of a] of_nat64_high [of a] by (cases "a < 9223372036854775808") (simp_all add: word_sless_alt)

text \<open>The number that a string of digits stands for, behind the digits that gave \<open>a\<close>.\<close>

definition add_digit :: "nat \<Rightarrow> char \<Rightarrow> nat" where
  "add_digit a c = a * 10 + (of_char c - 48)"

definition dec :: "string \<Rightarrow> nat" where
  "dec s = foldl add_digit 0 s"

lemma isDigit_range: "isDigit c \<longleftrightarrow> 48 \<le> (of_char c :: nat) \<and> of_char c \<le> (57 :: nat)"
  by (simp add: isDigit_def less_char_def not_less)

lemma foldl_digit_mono: "a \<le> b \<Longrightarrow> b \<le> foldl add_digit b s \<and> foldl add_digit a s \<le> foldl add_digit b s"
proof (induction s arbitrary: a b)
  case (Cons c s)
  have "add_digit a c \<le> add_digit b c" "b \<le> add_digit b c" using Cons.prems by (simp_all add: add_digit_def)
  then show ?case using Cons.IH [of "add_digit a c" "add_digit b c"] by auto
qed simp

lemma digit_step:
  assumes "isDigit c"
  shows "of_nat a * 10 + digit_of c - 48 = (of_nat (add_digit a c) :: i64)"
proof -
  have "(of_nat (of_char c) :: i64) - 48 = of_nat (of_char c - 48)"
    using assms by (simp add: isDigit_range of_nat_diff)
  then show ?thesis by (simp add: digit_of_def add_digit_def algebra_simps)
qed

lemma quot_max: "quot64 9223372036854775807 10 = 922337203685477580"
  by code_simp

lemma leadingInt_digits:
  assumes "list_all isDigit ds" and "r = [] \<or> \<not> isDigit (hd r)" and "a < 9223372036854775808"
  shows "leadingInt (of_nat a) (ds @ r) =
    (if foldl add_digit a ds < 9223372036854775808 then Some (of_nat (foldl add_digit a ds), r) else None)"
  using assms
proof (induction ds arbitrary: a)
  case Nil
  then show ?case by (cases r) simp_all
next
  case (Cons c ds)
  let ?b = "add_digit a c"
  have c: "isDigit c" using Cons.prems(1) by simp
  have q: "quot64 9223372036854775807 10 <s (of_nat a :: i64) \<longleftrightarrow> 922337203685477580 < a"
    using of_nat64(1) [OF Cons.prems(3)] by (simp add: quot_max word_sless_alt)
  have m: "?b \<le> foldl add_digit ?b ds" using foldl_digit_mono [of ?b ?b ds] by simp
  show ?case
  proof (cases "922337203685477580 < a")
    case True
    then have "9223372036854775808 < ?b" by (simp add: add_digit_def)
    then have "9223372036854775808 < foldl add_digit ?b ds" using m by linarith
    then show ?thesis using True c q by simp
  next
    case False
    then have l: "?b < 18446744073709551616" using c unfolding add_digit_def isDigit_range by linarith
    note n = of_nat64_neg [OF l]
    have "list_all isDigit ds" using Cons.prems(1) by simp
    note IH = Cons.IH [OF this Cons.prems(2), of ?b]
    show ?thesis
    proof (cases "9223372036854775808 \<le> ?b")
      case True
      then have "9223372036854775808 \<le> foldl add_digit ?b ds" using m by linarith
      then show ?thesis using True False c q n digit_step [OF c, of a] by simp
    next
      case False
      then show ?thesis using \<open>\<not> 922337203685477580 < a\<close> c q n digit_step [OF c, of a] IH by simp
    qed
  qed
qed

subsection \<open>Segments without a fraction\<close>

definition unit_nat :: "string \<Rightarrow> nat" where
  "unit_nat u = (case map_of unitMap u of None \<Rightarrow> 0 | Some w \<Rightarrow> unat w)"

definition segment_ok :: "string \<times> string \<Rightarrow> bool" where
  "segment_ok = (\<lambda>(ds, u). ds \<noteq> [] \<and> list_all isDigit ds \<and> u \<in> fst ` set unitMap)"

definition segment_value :: "string \<times> string \<Rightarrow> nat" where
  "segment_value = (\<lambda>(ds, u). dec ds * unit_nat u)"

definition show_segments :: "(string \<times> string) list \<Rightarrow> string" where
  "show_segments segs = concat (map (\<lambda>(ds, u). ds @ u) segs)"

lemma unitMap_facts:
  "list_all (\<lambda>(u, w). u \<noteq> [] \<and> list_all isUnit u \<and> map_of unitMap u = Some w \<and> 0 < sint w) unitMap"
  by (simp add: unitMap_def Day_def Week_def isUnit_def isDigit_def less_char_def)

lemma unit_facts:
  assumes "u \<in> fst ` set unitMap"
  obtains w where "map_of unitMap u = Some w" "u \<noteq> []" "list_all isUnit u" "w = of_nat (unit_nat u)" "0 < unit_nat u"
    "sint (quot64 9223372036854775807 w) = 9223372036854775807 div int (unit_nat u)"
proof -
  obtain w where "(u, w) \<in> set unitMap" using assms by auto
  from bspec [OF unitMap_facts [unfolded list_all_iff] this]
  have w: "u \<noteq> []" "list_all isUnit u" "map_of unitMap u = Some w" "0 < sint w" by (simp_all add: list_all_iff)
  have n: "unit_nat u = unat w" using w(3) by (simp add: unit_nat_def)
  have u: "unat w < 18446744073709551616" by (rule order_less_le_trans [OF unsigned_less]) simp
  have "unat w < 9223372036854775808" using of_nat64_high [of "unat w", OF _ u] w(4)
    by (cases "unat w < 9223372036854775808") simp_all
  from of_nat64(1) [OF this] have i: "sint w = int (unat w)" by simp
  have "sint (quot64 9223372036854775807 w) = 9223372036854775807 div int (unit_nat u)"
    using sint_quot64_pos [of 9223372036854775807 w] w(4) unfolding n by (simp add: i)
  moreover have "0 < unit_nat u" using w(4) i n by linarith
  moreover have "w = of_nat (unit_nat u)" using n by simp
  ultimately show thesis using w that by blast
qed

lemma parse_segment_show:
  assumes "segment_ok (ds, u)" and "r = [] \<or> isDigit (hd r)"
  shows "parse_segment of64 to64 orig (ds @ u @ r) =
    (if segment_value (ds, u) < 9223372036854775808 then Inr (of_nat (segment_value (ds, u)), r)
     else Inl (InvalidDuration orig))"
proof -
  from assms(1) have ds: "ds \<noteq> []" "list_all isDigit ds" and "u \<in> fst ` set unitMap" by (simp_all add: segment_ok_def)
  from unit_facts [OF this(3)] obtain w where
    w: "map_of unitMap u = Some w" "u \<noteq> []" "list_all isUnit u" "w = of_nat (unit_nat u)" "0 < unit_nat u"
      "sint (quot64 9223372036854775807 w) = 9223372036854775807 div int (unit_nat u)" .
  let ?n = "dec ds" and ?k = "unit_nat u"
  have hu: "isUnit (hd u)" "hd (u @ r) = hd u" using w(2,3) by (cases u; simp)+
  then have hd: "\<not> isDigit (hd (u @ r))" "hd (u @ r) \<noteq> CHR ''.''" by (simp_all add: isUnit_def)
  have fp: "fraction_part of64 (u @ r) = (0, 1, False, u @ r)" using hd(2) by (simp add: fraction_part_def)
  have un: "takeWhile isUnit (u @ r) = u" "dropWhile isUnit (u @ r) = r"
    using w(3) assms(2) by (cases r; simp add: isUnit_def list_all_iff)+
  have l: "leadingInt 0 (ds @ u @ r) = (if ?n < 9223372036854775808 then Some (of_nat ?n, u @ r) else None)"
    using leadingInt_digits [of ds "u @ r" 0] ds(2) hd(1) by (simp add: dec_def)
  have h: "hd (ds @ u @ r) = hd ds" "isDigit (hd ds)" using ds by (cases ds; simp)+
  have big: "?n \<le> segment_value (ds, u)" using mult_le_mono2 [of 1 ?k ?n] w(5) by (simp add: segment_value_def)
  show ?thesis
  proof (cases "?n < 9223372036854775808")
    case False
    then have "\<not> segment_value (ds, u) < 9223372036854775808" using big by simp
    then show ?thesis using False l h ds(1) by (simp add: parse_segment_def)
  next
    case True
    have "quot64 9223372036854775807 w <s of_nat ?n \<longleftrightarrow> 9223372036854775807 div int ?k < int ?n"
      using of_nat64(1) [OF True] w(6) by (simp add: word_sless_alt)
    also have "\<dots> \<longleftrightarrow> 9223372036854775807 < int ?n * int ?k" using w(5) int_div_less_iff [of "int ?k"] by simp
    also have "\<dots> \<longleftrightarrow> \<not> segment_value (ds, u) < 9223372036854775808"
      unfolding segment_value_def by (simp flip: of_nat_mult) linarith
    finally have q: "quot64 9223372036854775807 w <s of_nat ?n \<longleftrightarrow> \<not> segment_value (ds, u) < 9223372036854775808" .
    have v: "of_nat ?n * w = of_nat (segment_value (ds, u))" by (simp add: segment_value_def w(4))
    show ?thesis using True l h ds(1) fp un w(1,2) q v
      by (simp add: parse_segment_def Let_def word_sless_alt)
  qed
qed

lemma parse_segments_show:
  assumes "list_all segment_ok segs" and "a < 9223372036854775808"
  shows "parse_segments of64 to64 orig (of_nat a) (show_segments segs) =
    (let t = a + sum_list (map segment_value segs)
     in if t < 9223372036854775808 then Inr (of_nat t) else Inl (InvalidDuration orig))"
  using assms
proof (induction segs arbitrary: a)
  case Nil
  then show ?case by (simp add: show_segments_def parse_segments.simps)
next
  case (Cons seg segs)
  obtain ds u where seg: "seg = (ds, u)" by (cases seg)
  have ok: "segment_ok (ds, u)" and ok': "list_all segment_ok segs" using Cons.prems(1) seg by simp_all
  let ?r = "show_segments segs" and ?v = "segment_value (ds, u)"
  have r: "?r = [] \<or> isDigit (hd ?r)"
  proof (cases segs)
    case (Cons s' ss)
    then have "fst s' \<noteq> []" "list_all isDigit (fst s')" using ok' by (auto simp: segment_ok_def)
    then show ?thesis using Cons by (cases "fst s'") (auto simp: show_segments_def split: prod.split)
  qed (simp add: show_segments_def)
  have s: "show_segments (seg # segs) = ds @ u @ ?r" by (simp add: show_segments_def seg)
  have ne: "ds \<noteq> []" using ok by (simp add: segment_ok_def)
  note p = parse_segment_show [OF ok r, of of64 to64 orig]
  show ?case
  proof (cases "?v < 9223372036854775808")
    case False
    then show ?thesis using p ne s seg by (simp add: parse_segments.simps Let_def)
  next
    case True
    then have l: "a + ?v < 18446744073709551616" using Cons.prems(2) by simp
    show ?thesis
    proof (cases "a + ?v < 9223372036854775808")
      case False
      then show ?thesis using p ne s seg True of_nat64_neg [OF l] by (simp add: parse_segments.simps Let_def)
    next
      case True
      then show ?thesis
        using p ne s seg \<open>?v < 9223372036854775808\<close> of_nat64_neg [OF l] Cons.IH [OF ok' True]
        by (simp add: parse_segments.simps [of _ _ _ _ "ds @ u @ ?r"] Let_def add.assoc)
    qed
  qed
qed

lemma parseDuration_show:
  assumes "list_all segment_ok segs" and "segs \<noteq> []" and "sg \<in> {[], ''+'', ''-''}"
  shows "parseDuration of64 to64 (sg @ show_segments segs) =
    (let t = sum_list (map segment_value segs)
     in if t < 9223372036854775808 then Inr (if sg = ''-'' then - of_nat t else of_nat t)
     else Inl (InvalidDuration (sg @ show_segments segs)))"
proof -
  let ?s = "show_segments segs"
  obtain ds u ss where seg: "segs = (ds, u) # ss" "segment_ok (ds, u)" using assms(1,2) by (cases segs) auto
  then obtain c ds' where ds: "ds = c # ds'" "isDigit c" by (cases ds) (auto simp: segment_ok_def)
  have "u \<noteq> []" using seg(2) unit_facts [of u] by (auto simp: segment_ok_def)
  moreover have "?s = c # ds' @ u @ show_segments ss" by (simp add: show_segments_def seg(1) ds(1))
  moreover have "c \<noteq> CHR ''-''" "c \<noteq> CHR ''+''" using ds(2) by (auto simp: isDigit_def less_char_def)
  ultimately have "?s \<noteq> []" "?s \<noteq> ''0''" "hd ?s \<noteq> CHR ''-''" "hd ?s \<noteq> CHR ''+''" by auto
  then show ?thesis
    using assms(3) parse_segments_show [OF assms(1), of 0 of64 to64]
    by (auto simp: parseDuration_def Let_def)
qed

end
