(* ===== verification/Arn.thy ===== *)
theory Arn
  imports Go_Strings
begin

text \<open>
  \<open>arn.go\<close>: resource names of remote targets, their text and the parser. The results of the parser
  are \<open>Inr\<close> the name or \<open>Inl\<close> the text that is no name.
\<close>

type_synonym ServiceType = string

record ARN =
  arn_Type :: ServiceType
  arn_ID :: string
  arn_Region :: string
  arn_Resource :: string
  arn_Bucket :: string

definition ReplicationService :: ServiceType where "ReplicationService = ''replication''"
definition NotificationService :: ServiceType where "NotificationService = ''sqs''"

definition ServiceType_IsValid :: "ServiceType \<Rightarrow> ServiceType \<Rightarrow> bool" where
  "ServiceType_IsValid t1 t2 \<longleftrightarrow> t1 = t2"

definition ARN_Empty :: "ARN \<Rightarrow> bool" where
  "ARN_Empty a \<longleftrightarrow> arn_Type a = []"

definition arn_text :: "ARN \<Rightarrow> string \<Rightarrow> string" where
  "arn_text a res = ''arn:minio:'' @ arn_Type a @ '':'' @ arn_Region a @ '':'' @ arn_ID a @ '':'' @ res"

definition ARN_String :: "ARN \<Rightarrow> string" where
  "ARN_String a = (if arn_Bucket a \<noteq> [] then arn_text a (arn_Bucket a) else arn_text a (arn_Resource a))"

definition ParseARN :: "string \<Rightarrow> string + ARN" where
  "ParseARN s =
    (if \<not> prefix ''arn:minio:'' s then Inl s
     else
       let tokens = split_all CHR '':'' s
       in if length tokens \<noteq> 6 then Inl s
       else if tokens ! 4 = [] \<or> tokens ! 5 = [] then Inl s
       else Inr \<lparr>arn_Type = tokens ! 2, arn_ID = tokens ! 4, arn_Region = tokens ! 3, arn_Resource = tokens ! 5,
         arn_Bucket = []\<rparr>)"

text \<open>Splitting at a separator is undone by joining with it.\<close>

fun join1 :: "char \<Rightarrow> string list \<Rightarrow> string" where
  "join1 c [] = []"
| "join1 c [p] = p"
| "join1 c (p # q # ps) = p @ c # join1 c (q # ps)"

lemma split_all_sep_free: "list_all (\<lambda>p. c \<notin> set p) (split_all c s)"
  by (induction s) (auto split: list.split)

lemma join1_Cons: "join1 c ((x # p) # ps) = x # join1 c (p # ps)"
  by (cases ps) simp_all

lemma join1_split_all: "join1 c (split_all c s) = s"
proof (induction s)
  case (Cons x s)
  obtain p ps where p: "split_all c s = p # ps" using split_all_not_Nil [of c s] by (cases "split_all c s") blast+
  show ?case
  proof (cases "x = c")
    case True
    then show ?thesis using Cons p by simp
  next
    case False
    then show ?thesis using Cons p by (simp add: join1_Cons)
  qed
qed simp

lemma length6: "length xs = 6 \<Longrightarrow> \<exists>a b c d e f. xs = [a, b, c, d, e, f]"
  by (simp add: length_Suc_conv eval_nat_numeral) blast

text \<open>A name that has been parsed, and what its text says.\<close>

definition arn_ok :: "ARN \<Rightarrow> bool" where
  "arn_ok a \<longleftrightarrow> CHR '':'' \<notin> set (arn_Type a) \<and> CHR '':'' \<notin> set (arn_Region a) \<and> CHR '':'' \<notin> set (arn_ID a) \<and>
     CHR '':'' \<notin> set (arn_Resource a) \<and> arn_ID a \<noteq> [] \<and> arn_Resource a \<noteq> [] \<and> arn_Bucket a = []"

lemma ParseARN_tokens:
  assumes "ParseARN s = Inr a"
  shows "s = ARN_String a \<and> arn_ok a"
proof -
  let ?t = "split_all CHR '':'' s"
  from assms have p: "prefix ''arn:minio:'' s" and l: "length ?t = 6" and ne: "?t ! 4 \<noteq> []" "?t ! 5 \<noteq> []"
    and a: "a = \<lparr>arn_Type = ?t ! 2, arn_ID = ?t ! 4, arn_Region = ?t ! 3, arn_Resource = ?t ! 5, arn_Bucket = []\<rparr>"
    by (auto simp: ParseARN_def Let_def split: if_splits)
  obtain x0 x1 x2 x3 x4 x5 where x: "?t = [x0, x1, x2, x3, x4, x5]" using length6 [OF l] by blast
  obtain r where r: "s = ''arn:minio:'' @ r" using p by (auto simp: prefix_def)
  have "split_all CHR '':'' s = ''arn'' # ''minio'' # split_all CHR '':'' r"
    unfolding r by (simp add: split_all_append [of _ "''arn''", simplified] split_all_append [of _ "''minio''", simplified])
  then have "x0 = ''arn''" "x1 = ''minio''" using x by simp_all
  moreover have "s = join1 CHR '':'' ?t" by (rule join1_split_all [symmetric])
  ultimately have "s = ''arn:minio:'' @ x2 @ '':'' @ x3 @ '':'' @ x4 @ '':'' @ x5" by (simp add: x)
  moreover have "list_all (\<lambda>p. CHR '':'' \<notin> set p) [x0, x1, x2, x3, x4, x5]"
    using split_all_sep_free [of "CHR '':''" s] unfolding x .
  moreover have "x4 \<noteq> []" "x5 \<noteq> []" using ne unfolding x by simp_all
  moreover have "a = \<lparr>arn_Type = x2, arn_ID = x4, arn_Region = x3, arn_Resource = x5, arn_Bucket = []\<rparr>"
    using a unfolding x by simp
  ultimately show ?thesis by (simp add: ARN_String_def arn_text_def arn_ok_def)
qed

lemma ParseARN_String: "arn_ok a \<Longrightarrow> ParseARN (ARN_String a) = Inr a"
proof -
  assume a: "arn_ok a"
  have s: "split_all CHR '':'' (ARN_String a) =
      [''arn'', ''minio'', arn_Type a, arn_Region a, arn_ID a, arn_Resource a]"
    using a split_all_append [of "CHR '':''" "''arn''"] split_all_append [of "CHR '':''" "''minio''"]
    by (simp add: arn_ok_def ARN_String_def arn_text_def split_all_append split_all_none)
  have "prefix ''arn:minio:'' (ARN_String a)" by (simp add: ARN_String_def arn_text_def)
  then show ?thesis using a unfolding ParseARN_def Let_def s by (cases a) (simp add: arn_ok_def)
qed

text \<open>The bucket of a name is printed where the parser reads a resource.\<close>

lemma ParseARN_bucket:
  assumes "arn_ok (a\<lparr>arn_Resource := arn_Bucket a, arn_Bucket := []\<rparr>)"
  shows "ParseARN (ARN_String a) = Inr (a\<lparr>arn_Resource := arn_Bucket a, arn_Bucket := []\<rparr>)"
proof -
  have "ARN_String a = ARN_String (a\<lparr>arn_Resource := arn_Bucket a, arn_Bucket := []\<rparr>)"
    using assms by (simp add: ARN_String_def arn_text_def arn_ok_def)
  with ParseARN_String [OF assms] show ?thesis by simp
qed

end
