(* ===== verification/Encryption.thy ===== *)
theory Encryption
  imports Go_Base
begin

text \<open>
  \<open>encrypt.go\<close>: the header of encrypted payloads and the choice of key derivation and cipher. The
  key derivations (argon2, PBKDF2) and the ciphers of \<open>sio-go\<close> are parameters, and so are the random
  bytes, the FIPS mode and the AES instructions of the machine that encrypts.
\<close>

datatype cipher = AES_256_GCM | ChaCha20Poly1305

record 'e crypto =
  ct_argon2 :: "string \<Rightarrow> byte list \<Rightarrow> byte list"
  ct_pbkdf2 :: "string \<Rightarrow> byte list \<Rightarrow> byte list"
  ct_stream :: "cipher \<Rightarrow> byte list \<Rightarrow> 'e option"
  ct_nonceSize :: nat
  ct_encrypt :: "cipher \<Rightarrow> byte list \<Rightarrow> byte list \<Rightarrow> byte list \<Rightarrow> 'e + byte list"
  ct_decrypt :: "cipher \<Rightarrow> byte list \<Rightarrow> byte list \<Rightarrow> byte list \<times> 'e option \<Rightarrow> byte list \<times> 'e option"

record machine =
  mc_FIPS :: bool
  mc_NativeAES :: bool
  mc_salt :: "nat \<Rightarrow> byte list"
  mc_nonce :: "nat \<Rightarrow> byte list"

definition argon2idAESGCM :: byte where "argon2idAESGCM = 0"
definition argon2idChaCHa20Poly1305 :: byte where "argon2idChaCHa20Poly1305 = 1"
definition pbkdf2AESGCM :: byte where "pbkdf2AESGCM = 2"

definition IsEncrypted :: "byte list \<Rightarrow> bool" where
  "IsEncrypted data =
    (if length data \<le> 32 then False
     else let b = data ! 32 in b = pbkdf2AESGCM \<or> b = argon2idAESGCM \<or> b = argon2idChaCHa20Poly1305)"

definition EncryptData :: "'e crypto \<Rightarrow> machine \<Rightarrow> string \<Rightarrow> byte list \<Rightarrow> 'e + byte list" where
  "EncryptData ct mc password data =
    (let salt = mc_salt mc 32;
         (cipher, key, id) =
           (if mc_FIPS mc then (AES_256_GCM, ct_pbkdf2 ct password salt, pbkdf2AESGCM)
            else
              let key = ct_argon2 ct password salt
              in if mc_NativeAES mc then (AES_256_GCM, key, argon2idAESGCM)
                 else (ChaCha20Poly1305, key, argon2idChaCHa20Poly1305))
     in case ct_stream ct cipher key of Some e \<Rightarrow> Inl e
        | None \<Rightarrow>
            (let nonce = mc_nonce mc (ct_nonceSize ct)
             in case ct_encrypt ct cipher key nonce data of Inl e \<Rightarrow> Inl e
                | Inr c \<Rightarrow> Inr (salt @ [id] @ nonce @ c)))"

text \<open>The errors of the decryption; a reader is the bytes it gives and its error behind them, if any but \<open>io.EOF\<close>.\<close>

datatype 'e decrypt_err = ErrUnexpectedHeader | UnexpectedEOF | InvalidAlgorithm | Failed 'e

definition header_len :: nat where "header_len = 32 + 1 + 8"

definition read_header :: "byte list \<times> 'e option \<Rightarrow> 'e decrypt_err option" where
  "read_header r = (case r of (bs, end_err) \<Rightarrow>
     if header_len \<le> length bs then None
     else (case end_err of Some e \<Rightarrow> Some (Failed e)
       | None \<Rightarrow> if bs = [] then Some ErrUnexpectedHeader else Some UnexpectedEOF))"

text \<open>The bytes that are decrypted, and the error; bytes before an error are returned with it.\<close>

definition DecryptData :: "'e crypto \<Rightarrow> string \<Rightarrow> byte list \<times> 'e option \<Rightarrow> byte list \<times> 'e decrypt_err option" where
  "DecryptData ct password r = (case read_header r of Some e \<Rightarrow> ([], Some e)
     | None \<Rightarrow>
         (let (bs, end_err) = r;
              salt = take 32 bs; alg = bs ! 32; nonce = take 8 (drop 33 bs); body = drop header_len bs;
              choice = (if alg = argon2idAESGCM then Some (AES_256_GCM, ct_argon2 ct password salt)
                else if alg = argon2idChaCHa20Poly1305 then Some (ChaCha20Poly1305, ct_argon2 ct password salt)
                else if alg = pbkdf2AESGCM then Some (AES_256_GCM, ct_pbkdf2 ct password salt)
                else None)
          in case choice of None \<Rightarrow> ([], Some InvalidAlgorithm)
             | Some (cipher, key) \<Rightarrow> (case ct_stream ct cipher key of Some e \<Rightarrow> ([], Some (Failed e))
                 | None \<Rightarrow> (let (plain, e) = ct_decrypt ct cipher key nonce (body, end_err) in (plain, map_option Failed e)))))"

text \<open>
  What the code relies on: the ciphers undo their own encryption and take nonces of eight bytes, and
  the random source gives as many bytes as it is asked for.
\<close>

definition crypto_ok :: "'e crypto \<Rightarrow> bool" where
  "crypto_ok ct \<longleftrightarrow> ct_nonceSize ct = 8 \<and>
     (\<forall>c k n p x. ct_encrypt ct c k n p = Inr x \<longrightarrow> ct_decrypt ct c k n (x, None) = (p, None))"

definition machine_ok :: "machine \<Rightarrow> bool" where
  "machine_ok mc \<longleftrightarrow> (\<forall>n. length (mc_salt mc n) = n \<and> length (mc_nonce mc n) = n)"

lemma EncryptData_layout:
  assumes "crypto_ok ct" and "machine_ok mc" and "EncryptData ct mc password data = Inr out"
  obtains cipher key id c where
    "out = mc_salt mc 32 @ [id] @ mc_nonce mc 8 @ c" "ct_stream ct cipher key = None"
    "ct_encrypt ct cipher key (mc_nonce mc 8) data = Inr c"
    "(cipher, key, id) \<in> {(AES_256_GCM, ct_pbkdf2 ct password (mc_salt mc 32), pbkdf2AESGCM),
       (AES_256_GCM, ct_argon2 ct password (mc_salt mc 32), argon2idAESGCM),
       (ChaCha20Poly1305, ct_argon2 ct password (mc_salt mc 32), argon2idChaCHa20Poly1305)}"
  using assms unfolding EncryptData_def Let_def crypto_ok_def
  by (auto split: if_splits option.splits sum.splits)

lemma header_parts:
  assumes "length salt = 32" and "length nonce = 8"
  shows "take 32 (salt @ [b] @ nonce @ c) = salt" "(salt @ [b] @ nonce @ c) ! 32 = b"
    "take 8 (drop 33 (salt @ [b] @ nonce @ c)) = nonce" "drop header_len (salt @ [b] @ nonce @ c) = c"
    "header_len \<le> length (salt @ [b] @ nonce @ c)"
  using assms by (simp_all add: header_len_def nth_append)

lemma DecryptData_EncryptData:
  assumes "crypto_ok ct" and "machine_ok mc" and "EncryptData ct mc password data = Inr out"
  shows "DecryptData ct password (out, None) = (data, None)" and "IsEncrypted out"
    and "length out = header_len + length (drop header_len out)"
proof -
  obtain cipher key b c where o: "out = mc_salt mc 32 @ [b] @ mc_nonce mc 8 @ c"
    and s: "ct_stream ct cipher key = None" and e: "ct_encrypt ct cipher key (mc_nonce mc 8) data = Inr c"
    and k: "(cipher, key, b) \<in> {(AES_256_GCM, ct_pbkdf2 ct password (mc_salt mc 32), pbkdf2AESGCM),
       (AES_256_GCM, ct_argon2 ct password (mc_salt mc 32), argon2idAESGCM),
       (ChaCha20Poly1305, ct_argon2 ct password (mc_salt mc 32), argon2idChaCHa20Poly1305)}"
    using EncryptData_layout [OF assms] by metis
  have l: "length (mc_salt mc 32) = 32" "length (mc_nonce mc 8) = 8" using assms(2) by (simp_all add: machine_ok_def)
  note h = header_parts [OF l, of b c, folded o]
  have d: "ct_decrypt ct cipher key (mc_nonce mc 8) (c, None) = (data, None)" using assms(1) e by (simp add: crypto_ok_def)
  have r: "read_header (out, None) = None" using h(5) by (simp add: read_header_def)
  show "DecryptData ct password (out, None) = (data, None)"
    using k s d unfolding DecryptData_def r Let_def prod.case option.case h(1-4)
    by (auto simp: argon2idAESGCM_def argon2idChaCHa20Poly1305_def pbkdf2AESGCM_def)
  show "IsEncrypted out" using k h(2,5) by (auto simp: IsEncrypted_def header_len_def)
  show "length out = header_len + length (drop header_len out)" using h(5) by simp
qed

lemma DecryptData_short:
  assumes "length bs < header_len"
  shows "DecryptData ct password (bs, None) = ([], Some (if bs = [] then ErrUnexpectedHeader else UnexpectedEOF))"
  using assms by (simp add: DecryptData_def read_header_def)

end
