(* ===== verification/Segmented_Codec.thy ===== *)
theory Segmented_Codec
  imports Segmented
begin

unbundle bit_operations_syntax

text \<open>
  \<open>metrics_msgp.go\<close>: the hand-written MessagePack encoding of a series. The encoders and decoders of
  the MessagePack library and of the element type are the records \<open>pack\<close> and \<open>unpack\<close>; an error of
  theirs is wrapped with the place where it occurred, as \<open>msgp.WrapError\<close> does.
\<close>

type_synonym bytes = "byte list"

datatype place = Field string | Index nat

type_synonym 'e wrapped = "'e \<times> place list"

record ('a, 'e) pack =
  pk_int :: "i64 \<Rightarrow> bytes"
  pk_time :: "gotime \<Rightarrow> bytes"
  pk_array :: "u32 \<Rightarrow> bytes"
  pk_elem :: "'a \<Rightarrow> 'e + bytes"
  pk_size :: "'a \<Rightarrow> nat"

record ('a, 'e) unpack =
  up_map :: "bytes \<Rightarrow> 'e + u32 \<times> bytes"
  up_key :: "bytes \<Rightarrow> 'e + bytes \<times> bytes"
  up_int :: "bytes \<Rightarrow> 'e + i64 \<times> bytes"
  up_time :: "bytes \<Rightarrow> 'e + gotime \<times> bytes"
  up_array :: "bytes \<Rightarrow> 'e + u32 \<times> bytes"
  up_elem :: "'a \<Rightarrow> bytes \<Rightarrow> 'a \<times> ('e + bytes)"
  up_skip :: "bytes \<Rightarrow> 'e + bytes"

definition key_int :: bytes where "key_int = [0x69, 0x6e, 0x74]"
definition key_ft :: bytes where "key_ft = [0x66, 0x74]"
definition key_segs :: bytes where "key_segs = [0x73, 0x65, 0x67, 0x73]"

lemmas keys = key_int_def key_ft_def key_segs_def

subsection \<open>Encoding\<close>

text \<open>The elements behind what has been written; on an error, what has been written so far.\<close>

fun marshal_elems :: "('a, 'e) pack \<Rightarrow> nat \<Rightarrow> 'a list \<Rightarrow> bytes \<Rightarrow> bytes \<times> 'e wrapped option" where
  "marshal_elems pk i [] out = (out, None)"
| "marshal_elems pk i (x # xs) out = (case pk_elem pk x of
     Inl e \<Rightarrow> (out, Some (e, [Field ''Segments'', Index i]))
   | Inr b \<Rightarrow> marshal_elems pk (i + 1) xs (out @ b))"

text \<open>\<open>isnil\<close> tells whether an empty slice of segments is nil; it only matters for an empty one.\<close>

definition Segmented_MarshalMsg :: "('a, 'e) pack \<Rightarrow> bool \<Rightarrow> 'a Segmented \<Rightarrow> bytes \<Rightarrow> bytes \<times> 'e wrapped option" where
  "Segmented_MarshalMsg pk isnil z out =
    (let omit_int = sg_Interval z = 0;
         omit_ft = sg_FirstTime z = 0;
         omit_segs = (isnil \<and> sg_Segments z = []);
         len = 3 - (if omit_int then 1 else 0) - (if omit_ft then 1 else 0) - (if omit_segs then 1 else 0);
         out = out @ [0x80 OR len]
     in if len = 0 then (out, None)
     else
       let out = (if omit_int then out else out @ [0xa3] @ key_int @ pk_int pk (sg_Interval z));
           out = (if omit_ft then out else out @ [0xa2] @ key_ft @ pk_time pk (sg_FirstTime z))
       in if omit_segs then (out, None)
          else marshal_elems pk 0 (sg_Segments z)
            (out @ [0xa4] @ key_segs @ pk_array pk (of_nat (length (sg_Segments z)))))"

text \<open>\<open>IntSize\<close>, \<open>TimeSize\<close> and \<open>ArrayHeaderSize\<close> of the library are 9, 15 and 5.\<close>

definition Segmented_Msgsize :: "('a, 'e) pack \<Rightarrow> 'a Segmented \<Rightarrow> nat" where
  "Segmented_Msgsize pk z = 1 + 4 + 9 + 3 + 15 + 5 + 5 + sum_list (map (pk_size pk) (sg_Segments z))"

subsection \<open>Decoding\<close>

text \<open>
  \<open>n\<close> elements from index \<open>i\<close> on. An element is decoded over the value its slot has, which is an old
  one when the capacity of the slice suffices.
\<close>

fun unmarshal_elems :: "('a, 'e) unpack \<Rightarrow> (nat \<Rightarrow> 'a) \<Rightarrow> nat \<Rightarrow> nat \<Rightarrow> bytes \<Rightarrow> 'a list \<times> ('e wrapped + bytes)" where
  "unmarshal_elems up slot i 0 b = ([], Inr b)"
| "unmarshal_elems up slot i (Suc n) b = (case up_elem up (slot i) b of
     (x, Inl e) \<Rightarrow> (x # map slot [i + 1..<i + 1 + n], Inl (e, [Field ''Segments'', Index i]))
   | (x, Inr b) \<Rightarrow> (let (xs, r) = unmarshal_elems up slot (i + 1) n b in (x # xs, r)))"

record found =
  fd_int :: bool
  fd_ft :: bool
  fd_segs :: bool

text \<open>One field; its key has been read.\<close>

definition unmarshal_field :: "('a, 'e) unpack \<Rightarrow> (nat \<Rightarrow> 'a) \<Rightarrow> bytes \<Rightarrow> bytes \<Rightarrow> 'a Segmented \<times> found \<Rightarrow>
  ('a Segmented \<times> found) \<times> ('e wrapped + bytes)" where
  "unmarshal_field up slot field b zf = (case zf of (z, f) \<Rightarrow>
     if field = key_int then (case up_int up b of Inl e \<Rightarrow> ((z, f), Inl (e, [Field ''Interval'']))
       | Inr (v, b) \<Rightarrow> ((z\<lparr>sg_Interval := v\<rparr>, f\<lparr>fd_int := True\<rparr>), Inr b))
     else if field = key_ft then (case up_time up b of Inl e \<Rightarrow> ((z, f), Inl (e, [Field ''FirstTime'']))
       | Inr (v, b) \<Rightarrow> ((z\<lparr>sg_FirstTime := v\<rparr>, f\<lparr>fd_ft := True\<rparr>), Inr b))
     else if field = key_segs then (case up_array up b of Inl e \<Rightarrow> ((z, f), Inl (e, [Field ''Segments'']))
       | Inr (n, b) \<Rightarrow> (case unmarshal_elems up slot 0 (unat n) b of
           (xs, Inl e) \<Rightarrow> ((z\<lparr>sg_Segments := xs\<rparr>, f), Inl e)
         | (xs, Inr b) \<Rightarrow> ((z\<lparr>sg_Segments := xs\<rparr>, f\<lparr>fd_segs := True\<rparr>), Inr b)))
     else (case up_skip up b of Inl e \<Rightarrow> ((z, f), Inl (e, [])) | Inr b \<Rightarrow> ((z, f), Inr b)))"

fun unmarshal_fields :: "('a, 'e) unpack \<Rightarrow> (nat \<Rightarrow> 'a) \<Rightarrow> nat \<Rightarrow> bytes \<Rightarrow> 'a Segmented \<times> found \<Rightarrow>
  ('a Segmented \<times> found) \<times> ('e wrapped + bytes)" where
  "unmarshal_fields up slot 0 b zf = (zf, Inr b)"
| "unmarshal_fields up slot (Suc n) b zf = (case up_key up b of Inl e \<Rightarrow> (zf, Inl (e, []))
   | Inr (field, b) \<Rightarrow> (case unmarshal_field up slot field b zf of (zf, Inl e) \<Rightarrow> (zf, Inl e)
     | (zf, Inr b) \<Rightarrow> unmarshal_fields up slot n b zf))"

definition clear_omitted :: "found \<Rightarrow> 'a Segmented \<Rightarrow> 'a Segmented" where
  "clear_omitted f z =
    (let z = (if fd_int f then z else z\<lparr>sg_Interval := 0\<rparr>);
         z = (if fd_ft f then z else z\<lparr>sg_FirstTime := 0\<rparr>)
     in if fd_segs f then z else z\<lparr>sg_Segments := []\<rparr>)"

definition Segmented_UnmarshalMsg :: "('a, 'e) unpack \<Rightarrow> (nat \<Rightarrow> 'a) \<Rightarrow> 'a Segmented \<Rightarrow> bytes \<Rightarrow>
  'a Segmented \<times> ('e wrapped + bytes)" where
  "Segmented_UnmarshalMsg up slot z b = (case up_map up b of Inl e \<Rightarrow> (z, Inl (e, []))
     | Inr (n, b) \<Rightarrow>
         (case unmarshal_fields up slot (unat n) b (z, \<lparr>fd_int = False, fd_ft = False, fd_segs = False\<rparr>) of
            ((z, f), Inl e) \<Rightarrow> (z, Inl e)
          | ((z, f), Inr b) \<Rightarrow> (clear_omitted f z, Inr b)))"

subsection \<open>Decoding undoes encoding\<close>

text \<open>
  What the encoding relies on: small maps and short strings have the headers the method writes
  itself, times whose Unix seconds fit 64 bits are kept, decoding an element replaces the old value,
  and the sizes are bounds.
\<close>

definition time_fits :: "gotime \<Rightarrow> bool" where
  "time_fits t \<longleftrightarrow> fits64 (t div 1000000000 - 62135596800)"

definition packs :: "('a, 'e) pack \<Rightarrow> ('a, 'e) unpack \<Rightarrow> bool" where
  "packs pk up \<longleftrightarrow>
     (\<forall>n<16. \<forall>r. up_map up ((0x80 OR of_nat n) # r) = Inr (of_nat n, r)) \<and>
     (\<forall>k r. length k < 32 \<longrightarrow> up_key up ((0xa0 OR of_nat (length k)) # k @ r) = Inr (k, r)) \<and>
     (\<forall>v r. up_int up (pk_int pk v @ r) = Inr (v, r)) \<and>
     (\<forall>t r. time_fits t \<longrightarrow> up_time up (pk_time pk t @ r) = Inr (t, r)) \<and>
     (\<forall>n r. up_array up (pk_array pk n @ r) = Inr (n, r)) \<and>
     (\<forall>x b old r. pk_elem pk x = Inr b \<longrightarrow> up_elem up old (b @ r) = (x, Inr r))"

definition pack_sizes :: "('a, 'e) pack \<Rightarrow> bool" where
  "pack_sizes pk \<longleftrightarrow> (\<forall>v. length (pk_int pk v) \<le> 9) \<and> (\<forall>t. length (pk_time pk t) \<le> 15) \<and>
     (\<forall>n. length (pk_array pk n) \<le> 5) \<and> (\<forall>x b. pk_elem pk x = Inr b \<longrightarrow> length b \<le> pk_size pk x)"

lemma marshal_elems_out:
  "marshal_elems pk i xs out = (out', None) \<Longrightarrow> \<exists>bs. out' = out @ bs \<and>
     (pack_sizes pk \<longrightarrow> length bs \<le> sum_list (map (pk_size pk) xs)) \<and>
     (\<forall>up slot j r. packs pk up \<longrightarrow> unmarshal_elems up slot j (length xs) (bs @ r) = (xs, Inr r))"
proof (induction pk i xs out rule: marshal_elems.induct)
  case (2 pk i x xs out)
  then obtain b where b: "pk_elem pk x = Inr b" "marshal_elems pk (i + 1) xs (out @ b) = (out', None)"
    by (auto split: sum.splits)
  from 2(1) [OF b] obtain bs where bs: "out' = (out @ b) @ bs"
    "pack_sizes pk \<longrightarrow> length bs \<le> sum_list (map (pk_size pk) xs)"
    "\<forall>up slot j r. packs pk up \<longrightarrow> unmarshal_elems up slot j (length xs) (bs @ r) = (xs, Inr r)" by blast
  have "unmarshal_elems up slot j (length (x # xs)) ((b @ bs) @ r) = (x # xs, Inr r)" if "packs pk up" for up slot j r
    using that b(1) bs(3) by (simp add: packs_def)
  moreover have "length (b @ bs) \<le> sum_list (map (pk_size pk) (x # xs))" if "pack_sizes pk"
    using that b(1) bs(2) by (fastforce simp: pack_sizes_def)
  moreover have "out' = out @ b @ bs" using bs(1) by simp
  ultimately show ?case by blast
qed simp

lemma packs_simps:
  assumes "packs pk up"
  shows "n < 16 \<Longrightarrow> up_map up ((0x80 OR of_nat n) # r) = Inr (of_nat n, r)"
    and "up_key up (0xa3 # key_int @ r) = Inr (key_int, r)"
    and "up_key up (0xa2 # key_ft @ r) = Inr (key_ft, r)"
    and "up_key up (0xa4 # key_segs @ r) = Inr (key_segs, r)"
    and "up_int up (pk_int pk v @ r) = Inr (v, r)"
    and "time_fits t \<Longrightarrow> up_time up (pk_time pk t @ r) = Inr (t, r)"
    and "up_array up (pk_array pk m @ r) = Inr (m, r)"
proof -
  have "up_key up ((0xa0 OR of_nat (length k)) # k @ r) = Inr (k, r)" if "length k < 32" for k
    using assms that by (simp add: packs_def)
  from this [of key_int] this [of key_ft] this [of key_segs] show
    "up_key up (0xa3 # key_int @ r) = Inr (key_int, r)" "up_key up (0xa2 # key_ft @ r) = Inr (key_ft, r)"
    "up_key up (0xa4 # key_segs @ r) = Inr (key_segs, r)" by (simp_all add: keys)
qed (use assms in \<open>simp_all add: packs_def\<close>)

lemma key_neq: "key_ft \<noteq> key_int" "key_segs \<noteq> key_int" "key_segs \<noteq> key_ft"
  by (simp_all add: keys)

text \<open>The fields a decoder finds; an omitted one has no bytes.\<close>

lemma unmarshal_int:
  assumes "packs pk up"
  shows "unmarshal_fields up slot (Suc n) (0xa3 # key_int @ pk_int pk v @ r) (z, f) =
    unmarshal_fields up slot n r (z\<lparr>sg_Interval := v\<rparr>, f\<lparr>fd_int := True\<rparr>)"
  by (simp add: packs_simps [OF assms] unmarshal_field_def)

lemma unmarshal_ft:
  assumes "packs pk up" and "time_fits t"
  shows "unmarshal_fields up slot (Suc n) (0xa2 # key_ft @ pk_time pk t @ r) (z, f) =
    unmarshal_fields up slot n r (z\<lparr>sg_FirstTime := t\<rparr>, f\<lparr>fd_ft := True\<rparr>)"
  by (simp add: packs_simps [OF assms(1)] assms(2) unmarshal_field_def key_neq)

lemma unmarshal_segs:
  assumes "packs pk up" and "length xs < 4294967296" and "unmarshal_elems up slot 0 (length xs) (bs @ r) = (xs, Inr r)"
  shows "unmarshal_fields up slot (Suc n) (0xa4 # key_segs @ pk_array pk (of_nat (length xs)) @ bs @ r) (z, f) =
    unmarshal_fields up slot n r (z\<lparr>sg_Segments := xs\<rparr>, f\<lparr>fd_segs := True\<rparr>)"
proof -
  have "unat (of_nat (length xs) :: u32) = length xs" using assms(2) by (simp add: unat_of_nat take_bit_nat_eq_self)
  then show ?thesis by (simp add: packs_simps [OF assms(1)] unmarshal_field_def key_neq assms(3))
qed

definition put_if :: "bool \<Rightarrow> bytes \<Rightarrow> bytes" where
  "put_if b x = (if b then x else [])"

text \<open>What is written, in one expression.\<close>

lemma Segmented_MarshalMsg_out:
  assumes "Segmented_MarshalMsg pk isnil z out = (out', None)"
  obtains bs where "out' = out @ [0x80 OR of_nat (3 - (if sg_Interval z = 0 then 1 else 0) -
        (if sg_FirstTime z = 0 then 1 else 0) - (if isnil \<and> sg_Segments z = [] then 1 else 0))] @
      put_if (sg_Interval z \<noteq> 0) (0xa3 # key_int @ pk_int pk (sg_Interval z)) @
      put_if (sg_FirstTime z \<noteq> 0) (0xa2 # key_ft @ pk_time pk (sg_FirstTime z)) @
      put_if (\<not> (isnil \<and> sg_Segments z = [])) (0xa4 # key_segs @ pk_array pk (of_nat (length (sg_Segments z))) @ bs)"
    "pack_sizes pk \<longrightarrow> length bs \<le> sum_list (map (pk_size pk) (sg_Segments z))"
    "\<And>up slot j r. packs pk up \<Longrightarrow>
       unmarshal_elems up slot j (length (sg_Segments z)) (bs @ r) = (sg_Segments z, Inr r)"
proof (cases "isnil \<and> sg_Segments z = []")
  case True
  with assms show thesis
    by (intro that [of "[]"]) (auto simp: Segmented_MarshalMsg_def put_if_def Let_def split: if_splits)
next
  case False
  define pre where "pre = out @ [0x80 OR of_nat (3 - (if sg_Interval z = 0 then 1 else 0) -
        (if sg_FirstTime z = 0 then 1 else 0) - (if isnil \<and> sg_Segments z = [] then 1 else 0))] @
      put_if (sg_Interval z \<noteq> 0) (0xa3 # key_int @ pk_int pk (sg_Interval z)) @
      put_if (sg_FirstTime z \<noteq> 0) (0xa2 # key_ft @ pk_time pk (sg_FirstTime z)) @
      0xa4 # key_segs @ pk_array pk (of_nat (length (sg_Segments z)))"
  have "marshal_elems pk 0 (sg_Segments z) pre = (out', None)"
    using assms False
    by (cases "sg_Interval z = 0"; cases "sg_FirstTime z = 0") (auto simp: Segmented_MarshalMsg_def pre_def put_if_def Let_def)
  from marshal_elems_out [OF this] obtain bs where "out' = pre @ bs"
    "pack_sizes pk \<longrightarrow> length bs \<le> sum_list (map (pk_size pk) (sg_Segments z))"
    "\<forall>up slot j r. packs pk up \<longrightarrow> unmarshal_elems up slot j (length (sg_Segments z)) (bs @ r) = (sg_Segments z, Inr r)"
    by blast
  with False show thesis by (intro that [of bs]) (simp_all add: pre_def put_if_def)
qed

lemma Segmented_codec:
  assumes "packs pk up" and "length (sg_Segments z) < 4294967296" and "time_fits (sg_FirstTime z)"
    and "Segmented_MarshalMsg pk isnil z out = (out', None)"
  shows "\<exists>m. out' = out @ m \<and> (\<forall>slot old r. Segmented_UnmarshalMsg up slot old (m @ r) = (z, Inr r)) \<and>
    (pack_sizes pk \<longrightarrow> length m \<le> Segmented_Msgsize pk z)"
proof -
  from Segmented_MarshalMsg_out [OF assms(4)] obtain bs where
    o: "out' = out @ [0x80 OR of_nat (3 - (if sg_Interval z = 0 then 1 else 0) -
        (if sg_FirstTime z = 0 then 1 else 0) - (if isnil \<and> sg_Segments z = [] then 1 else 0))] @
      put_if (sg_Interval z \<noteq> 0) (0xa3 # key_int @ pk_int pk (sg_Interval z)) @
      put_if (sg_FirstTime z \<noteq> 0) (0xa2 # key_ft @ pk_time pk (sg_FirstTime z)) @
      put_if (\<not> (isnil \<and> sg_Segments z = [])) (0xa4 # key_segs @ pk_array pk (of_nat (length (sg_Segments z))) @ bs)"
      (is "_ = out @ [_ OR of_nat ?n] @ ?i @ ?t @ ?s")
    and b: "pack_sizes pk \<longrightarrow> length bs \<le> sum_list (map (pk_size pk) (sg_Segments z))"
    and u: "\<And>slot j r. unmarshal_elems up slot j (length (sg_Segments z)) (bs @ r) = (sg_Segments z, Inr r)"
    using assms(1) by metis
  let ?m = "(0x80 OR of_nat ?n) # ?i @ ?t @ ?s"
  let ?none = "\<lparr>fd_int = False, fd_ft = False, fd_segs = False\<rparr>"
  have "Segmented_UnmarshalMsg up slot old (?m @ r) = (z, Inr r)" for slot old r
  proof -
    have h: "up_map up (?m @ r) = Inr (of_nat ?n, ?i @ ?t @ ?s @ r)"
      using packs_simps(1) [OF assms(1), of ?n "?i @ ?t @ ?s @ r"] by simp
    have n: "unat (of_nat ?n :: u32) = ?n" by (simp add: unat_of_nat take_bit_nat_eq_self)
    note steps = unmarshal_int [OF assms(1)] unmarshal_ft [OF assms(1,3)] unmarshal_segs [OF assms(1,2) u]
    have "unmarshal_fields up slot ?n (?i @ ?t @ ?s @ r) (old, ?none) =
      ((\<lparr>sg_Interval = (if sg_Interval z \<noteq> 0 then sg_Interval z else sg_Interval old),
         sg_FirstTime = (if sg_FirstTime z \<noteq> 0 then sg_FirstTime z else sg_FirstTime old),
         sg_Segments = (if isnil \<and> sg_Segments z = [] then sg_Segments old else sg_Segments z)\<rparr>,
        \<lparr>fd_int = sg_Interval z \<noteq> 0, fd_ft = sg_FirstTime z \<noteq> 0, fd_segs = \<not> (isnil \<and> sg_Segments z = [])\<rparr>), Inr r)"
      by (cases "sg_Interval z = 0"; cases "sg_FirstTime z = 0"; cases "isnil \<and> sg_Segments z = []"; cases old)
        (auto simp: put_if_def numeral_eq_Suc steps simp del: unmarshal_fields.simps(2))
    then show ?thesis unfolding Segmented_UnmarshalMsg_def h n
      by (cases z) (auto simp: h n clear_omitted_def Let_def)
  qed
  moreover have "length ?m \<le> Segmented_Msgsize pk z" if "pack_sizes pk"
  proof -
    have "length (pk_int pk (sg_Interval z)) \<le> 9" "length (pk_time pk (sg_FirstTime z)) \<le> 15"
      "length (pk_array pk (of_nat (length (sg_Segments z)))) \<le> 5"
      using that by (simp_all add: pack_sizes_def)
    then have "length ?i \<le> 4 + 9" "length ?t \<le> 3 + 15" "length ?s \<le> 5 + 5 + sum_list (map (pk_size pk) (sg_Segments z))"
      using b that by (simp_all add: put_if_def keys)
    then show ?thesis by (simp add: Segmented_Msgsize_def)
  qed
  ultimately show ?thesis using o by (intro exI [of _ ?m]) simp
qed

end
