(* ===== verification/Heal_State.thy ===== *)
theory Heal_State
  imports Go_Maps
begin

text \<open>
  \<open>heal-commands.go\<close>: the options of a heal sequence, the drive counts of a healed item, and the merge of
  the background heal states of several nodes. \<open>'d\<close> stands for \<open>Disk\<close>, whose fields are not looked at.
\<close>

subsection \<open>Options and results\<close>

record HealOpts =
  ho_Recursive :: bool
  ho_DryRun :: bool
  ho_Remove :: bool
  ho_Recreate :: bool
  ho_ScanMode :: i64
  ho_UpdateParity :: bool
  ho_NoLock :: bool
  ho_Pool :: "i64 option"
  ho_Set :: "i64 option"

definition HealOpts_Equal :: "HealOpts \<Rightarrow> HealOpts \<Rightarrow> bool" where
  "HealOpts_Equal o' no =
    (if ho_Recursive o' \<noteq> ho_Recursive no then False
     else if ho_DryRun o' \<noteq> ho_DryRun no then False
     else if ho_Remove o' \<noteq> ho_Remove no then False
     else if ho_Recreate o' \<noteq> ho_Recreate no then False
     else if ho_UpdateParity o' \<noteq> ho_UpdateParity no then False
     else ho_ScanMode o' = ho_ScanMode no)"

text \<open>The lock, the pool and the set are not compared.\<close>

lemma HealOpts_Equal_iff:
  "HealOpts_Equal o' no \<longleftrightarrow>
   no = o'\<lparr>ho_NoLock := ho_NoLock no, ho_Pool := ho_Pool no, ho_Set := ho_Set no\<rparr>"
  by (cases o'; cases no) (auto simp: HealOpts_Equal_def)

definition DriveStateOk :: string where "DriveStateOk = ''ok''"
definition DriveStateOffline :: string where "DriveStateOffline = ''offline''"
definition DriveStateCorrupt :: string where "DriveStateCorrupt = ''corrupt''"
definition DriveStateMissing :: string where "DriveStateMissing = ''missing''"

record HealDriveInfo =
  hd_UUID :: string
  hd_Endpoint :: string
  hd_State :: string

record HealResultItem =
  hr_Before :: "HealDriveInfo list"
  hr_After :: "HealDriveInfo list"

text \<open>The loop that the four \<open>Get...Counts\<close> share, and the methods; \<open>None\<close> is a nil item.\<close>

fun count_state :: "string \<Rightarrow> i64 \<Rightarrow> HealDriveInfo list \<Rightarrow> i64" where
  "count_state s n [] = n"
| "count_state s n (v # vs) = count_state s (if hd_State v = s then n + 1 else n) vs"

definition get_counts :: "string \<Rightarrow> HealResultItem option \<Rightarrow> i64 \<times> i64" where
  "get_counts s hri = (case hri of None \<Rightarrow> (0, 0)
     | Some hri \<Rightarrow> (count_state s 0 (hr_Before hri), count_state s 0 (hr_After hri)))"

definition GetMissingCounts :: "HealResultItem option \<Rightarrow> i64 \<times> i64" where
  "GetMissingCounts = get_counts DriveStateMissing"

definition GetOfflineCounts :: "HealResultItem option \<Rightarrow> i64 \<times> i64" where
  "GetOfflineCounts = get_counts DriveStateOffline"

definition GetCorruptedCounts :: "HealResultItem option \<Rightarrow> i64 \<times> i64" where
  "GetCorruptedCounts = get_counts DriveStateCorrupt"

definition GetOnlineCounts :: "HealResultItem option \<Rightarrow> i64 \<times> i64" where
  "GetOnlineCounts = get_counts DriveStateOk"

definition Healed :: "HealResultItem option \<Rightarrow> bool" where
  "Healed hri = (case hri of None \<Rightarrow> False
     | Some _ \<Rightarrow> (let (before, after) = GetOnlineCounts hri in before <s after))"

lemma count_state_count: "count_state s n vs = n + of_nat (count_list (map hd_State vs) s)"
  by (induction s n vs rule: count_state.induct) simp_all

subsection \<open>Background heal states\<close>

record 'd SetStatus =
  ss_ID :: string
  ss_PoolIndex :: i64
  ss_SetIndex :: i64
  ss_HealStatus :: string
  ss_HealPriority :: string
  ss_TotalObjects :: i64
  ss_Disks :: "'d list"

record MRFStatus =
  mrf_BytesHealed :: u64
  mrf_ItemsHealed :: u64

record 'd BgHealState =
  bh_OfflineEndpoints :: "string list"
  bh_ScannedItemsCount :: i64
  bh_HealDisks :: "string list"
  bh_Sets :: "'d SetStatus list"
  bh_MRF :: "(string, MRFStatus) gomap"
  bh_SCParity :: "(string, i64) gomap"

text \<open>The last set of the same pool and index; its position is \<open>found\<close>.\<close>

fun find_set :: "'d SetStatus \<Rightarrow> nat \<Rightarrow> nat option \<Rightarrow> 'd SetStatus list \<Rightarrow> nat option" where
  "find_set set' idx found [] = found"
| "find_set set' idx found (s # ss) = find_set set' (idx + 1)
    (if ss_PoolIndex s = ss_PoolIndex set' \<and> ss_SetIndex s = ss_SetIndex set' then Some idx else found) ss"

definition addDisksFromSet :: "'d SetStatus \<Rightarrow> 'd SetStatus list \<Rightarrow> 'd SetStatus list" where
  "addDisksFromSet set' sets = (case find_set set' 0 None sets of
     None \<Rightarrow> sets @ [set']
   | Some found \<Rightarrow> sets[found := (sets ! found)\<lparr>ss_Disks := ss_Disks (sets ! found) @ ss_Disks set'\<rparr>])"

definition merge_state :: "'d BgHealState \<Rightarrow> 'd BgHealState \<Rightarrow> 'd BgHealState option" where
  "merge_state b other =
    (let b = b\<lparr>bh_OfflineEndpoints := bh_OfflineEndpoints b @ bh_OfflineEndpoints other\<rparr>
     in case gm_copy (bh_MRF b) (bh_MRF other) of None \<Rightarrow> None
        | Some mrf \<Rightarrow>
            (let b = b\<lparr>bh_MRF := mrf\<rparr>;
                 b = b\<lparr>bh_ScannedItemsCount := bh_ScannedItemsCount b + bh_ScannedItemsCount other\<rparr>
             in Some (b\<lparr>bh_Sets := fold addDisksFromSet (bh_Sets other) (bh_Sets b)\<rparr>)))"

fun merge_states :: "'d BgHealState \<Rightarrow> 'd BgHealState list \<Rightarrow> 'd BgHealState option" where
  "merge_states b [] = Some b"
| "merge_states b (other # others) = (case merge_state b other of None \<Rightarrow> None
     | Some b \<Rightarrow> merge_states b others)"

text \<open>\<open>sort.Slice\<close> by pool and set index. It is not stable, but the states have at most one set per key.\<close>

definition heal_key :: "'d SetStatus \<Rightarrow> int list" where
  "heal_key s = [sint (ss_PoolIndex s), sint (ss_SetIndex s)]"

definition BgHealState_Merge :: "'d BgHealState list \<Rightarrow> 'd BgHealState \<Rightarrow> 'd BgHealState option" where
  "BgHealState_Merge others b =
    (case (if bh_SCParity b = None \<and> others \<noteq> []
             then gm_copy (Some fmempty) (bh_SCParity (hd others)) else Some (bh_SCParity b)) of
       None \<Rightarrow> None
     | Some parity \<Rightarrow>
         (let b = b\<lparr>bh_SCParity := parity\<rparr>;
              b = b\<lparr>bh_MRF := gm_make_if True (bh_MRF b)\<rparr>
          in case merge_states b others of None \<Rightarrow> None
             | Some b \<Rightarrow> Some (b\<lparr>bh_Sets := sort_key heal_key (bh_Sets b)\<rparr>)))"

subsection \<open>Every drive is listed with its set\<close>

definition heal_disks :: "'d SetStatus list \<Rightarrow> int list \<Rightarrow> 'd list" where
  "heal_disks sets k = concat (map ss_Disks (filter (\<lambda>s. heal_key s = k) sets))"

lemma heal_disks_simps [simp]:
  "heal_disks [] k = []"
  "heal_disks (s # ss) k = (if heal_key s = k then ss_Disks s else []) @ heal_disks ss k"
  "heal_disks (ss @ ts) k = heal_disks ss k @ heal_disks ts k"
  by (simp_all add: heal_disks_def)

lemma heal_key_eq: "heal_key s = heal_key t \<longleftrightarrow> ss_PoolIndex s = ss_PoolIndex t \<and> ss_SetIndex s = ss_SetIndex t"
  by (auto simp: heal_key_def intro: signed_word_eqI)

lemma find_set_spec:
  "find_set set' idx found ss = r \<Longrightarrow>
   r = found \<and> (\<forall>s\<in>set ss. heal_key s \<noteq> heal_key set') \<or>
   (\<exists>xs s ys. ss = xs @ s # ys \<and> r = Some (idx + length xs) \<and> heal_key s = heal_key set' \<and>
     (\<forall>y\<in>set ys. heal_key y \<noteq> heal_key set'))"
proof (induction set' idx found ss rule: find_set.induct)
  case (2 set' idx found s ss)
  let ?f = "if heal_key s = heal_key set' then Some idx else found"
  have "find_set set' (idx + 1) ?f ss = r" using 2(2) by (simp add: heal_key_eq)
  from 2(1) [unfolded heal_key_eq [symmetric], OF this] show ?case
  proof (elim disjE exE conjE)
    assume "r = ?f" "\<forall>s\<in>set ss. heal_key s \<noteq> heal_key set'"
    then show ?thesis
    proof (cases "heal_key s = heal_key set'")
      case True
      then show ?thesis using \<open>r = ?f\<close> \<open>\<forall>s\<in>set ss. _\<close> by (intro disjI2 exI [of _ "[]"] exI [of _ s] exI [of _ ss]) simp
    qed simp
  next
    fix xs t ys
    assume "ss = xs @ t # ys" "r = Some (idx + 1 + length xs)" "heal_key t = heal_key set'"
      "\<forall>y\<in>set ys. heal_key y \<noteq> heal_key set'"
    then show ?thesis by (intro disjI2 exI [of _ "s # xs"] exI [of _ t] exI [of _ ys]) simp
  qed
qed simp

lemma heal_disks_none: "\<forall>s\<in>set ss. heal_key s \<noteq> k \<Longrightarrow> heal_disks ss k = []"
  by (induction ss) simp_all

lemma addDisksFromSet_disks:
  "heal_disks (addDisksFromSet set' sets) k = heal_disks sets k @ (if heal_key set' = k then ss_Disks set' else [])"
  "map heal_key (addDisksFromSet set' sets) =
   map heal_key sets @ (if heal_key set' \<in> heal_key ` set sets then [] else [heal_key set'])"
proof -
  consider "find_set set' 0 None sets = None" "\<forall>s\<in>set sets. heal_key s \<noteq> heal_key set'"
    | xs s ys where "sets = xs @ s # ys" "find_set set' 0 None sets = Some (length xs)" "heal_key s = heal_key set'"
      "\<forall>y\<in>set ys. heal_key y \<noteq> heal_key set'"
    using find_set_spec [of set' 0 None sets, OF refl] by auto
  then have "heal_disks (addDisksFromSet set' sets) k = heal_disks sets k @ (if heal_key set' = k then ss_Disks set' else []) \<and>
    map heal_key (addDisksFromSet set' sets) =
      map heal_key sets @ (if heal_key set' \<in> heal_key ` set sets then [] else [heal_key set'])"
  proof cases
    case 1
    then show ?thesis by (auto simp: addDisksFromSet_def)
  next
    case 2
    have k: "heal_key (s\<lparr>ss_Disks := d\<rparr>) = heal_key s" for d by (simp add: heal_key_def)
    show ?thesis using 2 heal_disks_none [of ys k] by (auto simp: addDisksFromSet_def k)
  qed
  then show "heal_disks (addDisksFromSet set' sets) k = heal_disks sets k @ (if heal_key set' = k then ss_Disks set' else [])"
    "map heal_key (addDisksFromSet set' sets) =
      map heal_key sets @ (if heal_key set' \<in> heal_key ` set sets then [] else [heal_key set'])" by blast+
qed

lemma fold_addDisks:
  "heal_disks (fold addDisksFromSet ts ss) k = heal_disks ss k @ heal_disks ts k"
  "distinct (map heal_key ss) \<Longrightarrow> distinct (map heal_key (fold addDisksFromSet ts ss))"
  by (induction ts arbitrary: ss) (simp_all add: addDisksFromSet_disks)

text \<open>The other fields, and the merge as a whole.\<close>

lemma merge_states_spec:
  "bh_MRF b \<noteq> None \<Longrightarrow> distinct (map heal_key (bh_Sets b)) \<Longrightarrow> \<exists>q. merge_states b others = Some q \<and>
    (\<forall>k. heal_disks (bh_Sets q) k = heal_disks (bh_Sets b) k @ concat (map (\<lambda>o'. heal_disks (bh_Sets o') k) others)) \<and>
    distinct (map heal_key (bh_Sets q)) \<and>
    bh_OfflineEndpoints q = bh_OfflineEndpoints b @ concat (map bh_OfflineEndpoints others) \<and>
    bh_ScannedItemsCount q = bh_ScannedItemsCount b + sum_list (map bh_ScannedItemsCount others) \<and>
    (\<forall>n. gm_get (bh_MRF q) n = fold (\<lambda>o' v. case gm_get (bh_MRF o') n of None \<Rightarrow> v | Some w \<Rightarrow> Some w) others
      (gm_get (bh_MRF b) n))"
proof (induction others arbitrary: b)
  case (Cons other others)
  obtain mb where "bh_MRF b = Some mb" using Cons.prems(1) by blast
  then obtain mrf where m: "gm_copy (bh_MRF b) (bh_MRF other) = Some mrf" "mrf \<noteq> None"
    by (cases "bh_MRF other") (auto simp: gm_copy_def gm_range_def)
  obtain b' where b': "merge_state b other = Some b'" "bh_MRF b' = mrf"
    "bh_Sets b' = fold addDisksFromSet (bh_Sets other) (bh_Sets b)"
    "bh_OfflineEndpoints b' = bh_OfflineEndpoints b @ bh_OfflineEndpoints other"
    "bh_ScannedItemsCount b' = bh_ScannedItemsCount b + bh_ScannedItemsCount other"
    using m(1) by (simp add: merge_state_def Let_def)
  from Cons.IH [of b'] obtain q where "merge_states b' others = Some q" and
    "\<forall>k. heal_disks (bh_Sets q) k = heal_disks (bh_Sets b') k @ concat (map (\<lambda>o'. heal_disks (bh_Sets o') k) others)"
    "distinct (map heal_key (bh_Sets q))"
    "bh_OfflineEndpoints q = bh_OfflineEndpoints b' @ concat (map bh_OfflineEndpoints others)"
    "bh_ScannedItemsCount q = bh_ScannedItemsCount b' + sum_list (map bh_ScannedItemsCount others)"
    "\<forall>n. gm_get (bh_MRF q) n = fold (\<lambda>o' v. case gm_get (bh_MRF o') n of None \<Rightarrow> v | Some w \<Rightarrow> Some w) others
      (gm_get (bh_MRF b') n)"
    using m(2) b' fold_addDisks(2) [OF Cons.prems(2)] by auto
  then show ?case using b' by (intro exI [of _ q]) (simp add: fold_addDisks gm_get_copy [OF m(1)] add.assoc)
qed simp

lemma BgHealState_Merge_spec:
  assumes "distinct (map heal_key (bh_Sets b))"
  shows "\<exists>q. BgHealState_Merge others b = Some q \<and>
    (\<forall>k. heal_disks (bh_Sets q) k = heal_disks (bh_Sets b) k @ concat (map (\<lambda>o'. heal_disks (bh_Sets o') k) others)) \<and>
    sorted_wrt (<) (map heal_key (bh_Sets q)) \<and>
    bh_OfflineEndpoints q = bh_OfflineEndpoints b @ concat (map bh_OfflineEndpoints others) \<and>
    bh_ScannedItemsCount q = bh_ScannedItemsCount b + sum_list (map bh_ScannedItemsCount others) \<and>
    (\<forall>n. gm_get (bh_MRF q) n = fold (\<lambda>o' v. case gm_get (bh_MRF o') n of None \<Rightarrow> v | Some w \<Rightarrow> Some w) others
      (gm_get (bh_MRF b) n))"
proof -
  obtain parity where p: "(if bh_SCParity b = None \<and> others \<noteq> []
      then gm_copy (Some fmempty) (bh_SCParity (hd others)) else Some (bh_SCParity b)) = Some parity"
  proof -
    have "\<exists>m. gm_copy (Some fmempty) (bh_SCParity (hd others)) = Some m"
      by (simp add: gm_copy_def gm_range_def split: option.split)
    then show thesis using that by (cases "bh_SCParity b = None \<and> others \<noteq> []") auto
  qed
  let ?b = "b\<lparr>bh_SCParity := parity, bh_MRF := gm_make_if True (bh_MRF b)\<rparr>"
  have "bh_MRF ?b \<noteq> None" by (simp add: gm_make_if_def split: option.split)
  from merge_states_spec [OF this, of others] assms obtain q where q: "merge_states ?b others = Some q"
    "\<forall>k. heal_disks (bh_Sets q) k = heal_disks (bh_Sets b) k @ concat (map (\<lambda>o'. heal_disks (bh_Sets o') k) others)"
    "distinct (map heal_key (bh_Sets q))"
    "bh_OfflineEndpoints q = bh_OfflineEndpoints b @ concat (map bh_OfflineEndpoints others)"
    "bh_ScannedItemsCount q = bh_ScannedItemsCount b + sum_list (map bh_ScannedItemsCount others)"
    "\<forall>n. gm_get (bh_MRF q) n = fold (\<lambda>o' v. case gm_get (bh_MRF o') n of None \<Rightarrow> v | Some w \<Rightarrow> Some w) others
      (gm_get (bh_MRF b) n)" by auto
  let ?q = "q\<lparr>bh_Sets := sort_key heal_key (bh_Sets q)\<rparr>"
  have "BgHealState_Merge others b = Some ?q" using p q(1) by (simp add: BgHealState_Merge_def Let_def)
  moreover have "heal_disks (bh_Sets ?q) k = heal_disks (bh_Sets q) k" for k
    by (simp add: heal_disks_def sort_key_stable)
  moreover have "sorted_wrt (<) (map heal_key (bh_Sets ?q))"
    using q(3) by (simp add: strict_sorted_iff distinct_map)
  ultimately show ?thesis using q by (intro exI [of _ ?q]) simp
qed

end
