(* ===== verification/Replication_Stats.thy ===== *)
theory Replication_Stats
  imports Go_Maps
begin

text \<open>
  The statistics of \<open>replication-api.go\<close>: counts and bytes over time windows, and the recorder of total,
  average and maximum.
\<close>

record 'f RStat =
  rt_Count :: 'f
  rt_Bytes :: i64

definition RStat_Add :: "('f::plus) RStat \<Rightarrow> 'f RStat \<Rightarrow> 'f RStat" where
  "RStat_Add r r1 = \<lparr>rt_Count = rt_Count r + rt_Count r1, rt_Bytes = rt_Bytes r + rt_Bytes r1\<rparr>"

record 'f TimedErrStats =
  te_LastMinute :: "'f RStat"
  te_LastHour :: "'f RStat"
  te_Totals :: "'f RStat"
  te_ErrCounts :: "(string, i64) gomap"

text \<open>The map of the sum is a new one, so writing to it cannot panic: \<open>m\<close> is copied, then added to.\<close>

definition TimedErrStats_Add :: "('f::plus) TimedErrStats \<Rightarrow> 'f TimedErrStats \<Rightarrow> 'f TimedErrStats option" where
  "TimedErrStats_Add te o' =
    (case gm_copy (Some fmempty) (te_ErrCounts te) of None \<Rightarrow> None
     | Some m \<Rightarrow> (case gm_accum (+) 0 m (te_ErrCounts o') of None \<Rightarrow> None
       | Some m \<Rightarrow> Some \<lparr>te_LastMinute = RStat_Add (te_LastMinute te) (te_LastMinute o'),
           te_LastHour = RStat_Add (te_LastHour te) (te_LastHour o'),
           te_Totals = RStat_Add (te_Totals te) (te_Totals o'), te_ErrCounts = m\<rparr>))"

record StatRecorder =
  st_Total :: i64
  st_Avg :: i64
  st_Max :: i64
  st_count :: i64

definition StatRecorder_zero :: StatRecorder where
  "StatRecorder_zero = \<lparr>st_Total = 0, st_Avg = 0, st_Max = 0, st_count = 0\<rparr>"

text \<open>\<open>None\<close> is the panic of a division by zero, when \<open>count\<close> has wrapped around.\<close>

definition StatRecorder_Record :: "i64 \<Rightarrow> StatRecorder \<Rightarrow> StatRecorder option" where
  "StatRecorder_Record value s =
    (let s = s\<lparr>st_Total := st_Total s + value\<rparr>;
         s = (if st_count s = 0 \<or> st_Max s <s value then s\<lparr>st_Max := value\<rparr> else s);
         s = s\<lparr>st_count := st_count s + 1\<rparr>
     in if st_count s = 0 then None else Some (s\<lparr>st_Avg := quot64 (st_Total s) (st_count s)\<rparr>))"

record DowntimeInfo =
  dt_Duration :: StatRecorder
  dt_Count :: StatRecorder

definition RecordCount :: "i64 \<Rightarrow> DowntimeInfo \<Rightarrow> DowntimeInfo option" where
  "RecordCount value d = map_option (\<lambda>c. d\<lparr>dt_Count := c\<rparr>) (StatRecorder_Record value (dt_Count d))"

definition RecordDuration :: "i64 \<Rightarrow> DowntimeInfo \<Rightarrow> DowntimeInfo option" where
  "RecordDuration value d = map_option (\<lambda>c. d\<lparr>dt_Duration := c\<rparr>) (StatRecorder_Record value (dt_Duration d))"

fun record_all :: "i64 list \<Rightarrow> StatRecorder \<Rightarrow> StatRecorder option" where
  "record_all [] s = Some s"
| "record_all (v # vs) s = (case StatRecorder_Record v s of None \<Rightarrow> None | Some s \<Rightarrow> record_all vs s)"

subsection \<open>Sums of error counts\<close>

lemma TimedErrStats_Add_counts:
  "\<exists>q. TimedErrStats_Add te o' = Some q \<and> (\<forall>k. gm_get (te_ErrCounts q) k =
     (case (gm_get (te_ErrCounts te) k, gm_get (te_ErrCounts o') k) of
        (None, None) \<Rightarrow> None | (Some v, None) \<Rightarrow> Some v | (None, Some w) \<Rightarrow> Some w | (Some v, Some w) \<Rightarrow> Some (v + w)))"
proof -
  obtain m where m: "gm_copy (Some fmempty) (te_ErrCounts te) = Some (Some m)"
    by (cases "te_ErrCounts te") (auto simp: gm_copy_def gm_range_def)
  obtain m' where m': "gm_accum (+) 0 (Some m) (te_ErrCounts o') = Some m'"
    by (cases "te_ErrCounts o'") (auto simp: gm_accum_def gm_range_def)
  have "gm_get (te_ErrCounts te) k = gm_get (Some m) k" for k
    using gm_get_copy [OF m, of k] by (auto simp: gm_get_def split: option.splits)
  then show ?thesis
    using gm_get_accum [OF m'] by (auto simp: TimedErrStats_Add_def m m' split: option.splits)
qed

subsection \<open>Recorded values\<close>

text \<open>What a recorder says of the values it has recorded.\<close>

definition records :: "StatRecorder \<Rightarrow> i64 list \<Rightarrow> bool" where
  "records s vs \<longleftrightarrow> st_count s = of_nat (length vs) \<and> st_Total s = sum_list vs \<and>
     (vs \<noteq> [] \<longrightarrow> st_Max s \<in> set vs \<and> (\<forall>v\<in>set vs. sint v \<le> sint (st_Max s)) \<and>
        st_Avg s = quot64 (sum_list vs) (of_nat (length vs)))"

lemma count_nonzero: "n < 18446744073709551615 \<Longrightarrow> (of_nat (Suc n) :: i64) \<noteq> 0"
proof
  assume n: "n < 18446744073709551615" and z: "(of_nat (Suc n) :: i64) = 0"
  from z have "unat (of_nat (Suc n) :: i64) = 0" by simp
  then show False using n by (simp only: unat_of_nat) (simp add: take_bit_nat_eq_self del: of_nat_Suc)
qed

lemma StatRecorder_Record_step:
  assumes "records s vs" and "length vs < 18446744073709551615"
  shows "\<exists>q. StatRecorder_Record v s = Some q \<and> records q (vs @ [v])"
proof -
  have c: "st_count s + 1 = of_nat (Suc (length vs))" using assms(1) by (simp add: records_def add.commute)
  have nz: "st_count s + 1 \<noteq> 0" unfolding c by (rule count_nonzero) (rule assms(2))
  have e: "st_count s = 0 \<longleftrightarrow> vs = []"
    using assms count_nonzero [of "length vs - 1"] by (cases vs) (auto simp: records_def)
  show ?thesis
  proof (cases "vs = []")
    case True
    then show ?thesis using assms(1) by (simp add: StatRecorder_Record_def records_def Let_def)
  next
    case False
    then have m: "st_Max s \<in> set vs" "\<forall>w\<in>set vs. sint w \<le> sint (st_Max s)" using assms(1) by (auto simp: records_def)
    define q where "q = s\<lparr>st_Total := st_Total s + v, st_Max := (if st_Max s <s v then v else st_Max s),
      st_count := st_count s + 1, st_Avg := quot64 (st_Total s + v) (st_count s + 1)\<rparr>"
    have "StatRecorder_Record v s = Some q" using nz e False by (simp add: StatRecorder_Record_def q_def Let_def)
    moreover have "st_Max q \<in> set (vs @ [v])" "\<forall>w\<in>set (vs @ [v]). sint w \<le> sint (st_Max q)"
      using m by (auto simp: q_def word_sless_alt)
    moreover have "st_Total q = sum_list (vs @ [v])" "st_count q = of_nat (length (vs @ [v]))"
      "st_Avg q = quot64 (sum_list (vs @ [v])) (of_nat (length (vs @ [v])))"
      using assms(1) c by (simp_all add: q_def records_def add.commute)
    ultimately show ?thesis by (intro exI [of _ q]) (simp add: records_def)
  qed
qed

lemma record_all_records:
  "records s us \<Longrightarrow> length us + length vs < 18446744073709551616 \<Longrightarrow>
   \<exists>q. record_all vs s = Some q \<and> records q (us @ vs)"
proof (induction vs arbitrary: s us)
  case (Cons v vs)
  obtain q where q: "StatRecorder_Record v s = Some q" "records q (us @ [v])"
    using StatRecorder_Record_step [OF Cons.prems(1)] Cons.prems(2) by auto
  from Cons.IH [OF q(2)] Cons.prems(2) q(1) show ?case by simp
qed simp

lemma records_zero: "records StatRecorder_zero []"
  by (simp add: records_def StatRecorder_zero_def)

end
