(* ===== verification/Admin_Requests.thy ===== *)
theory Admin_Requests
  imports Go_Maps
begin

text \<open>
  What the client checks before it sends a request: service accounts (\<open>user-commands.go\<close>) and policy
  associations (\<open>idp-commands.go\<close>); and the small types of \<open>info-commands.go\<close>, \<open>tier-config.go\<close> and
  \<open>api-log.go\<close> that carry logic. A check is \<open>None\<close> when it passes, else the text of its error.
\<close>

subsection \<open>Service accounts\<close>

definition char_between :: "char \<Rightarrow> char \<Rightarrow> char \<Rightarrow> bool" where
  "char_between lo hi c \<longleftrightarrow> lo \<le> c \<and> c \<le> hi"

definition isLetter :: "char \<Rightarrow> bool" where
  "isLetter = (\<lambda>c. char_between CHR ''a'' CHR ''z'' c \<or> char_between CHR ''A'' CHR ''Z'' c)"

definition isNameChar :: "char \<Rightarrow> bool" where
  "isNameChar = (\<lambda>c. isLetter c \<or> char_between CHR ''0'' CHR ''9'' c \<or> c \<in> {CHR ''_'', CHR ''-''})"

text \<open>\<open>MatchString\<close> of \<open>^[a-zA-Z][a-zA-Z0-9_-]*\<close>: some beginning of the name is in the language.\<close>

definition serviceAcctValidName :: "string \<Rightarrow> bool" where
  "serviceAcctValidName s \<longleftrightarrow> list_ex (\<lambda>n. case take n s of [] \<Rightarrow> False
     | c # cs \<Rightarrow> isLetter c \<and> list_all isNameChar cs) [0..<length s + 1]"

definition validateSAName :: "string \<Rightarrow> string option" where
  "validateSAName name =
    (if name = [] then None
     else if 32 < length name then Some ''name must not be longer than 32 characters''
     else if \<not> serviceAcctValidName name then
       Some ''name must contain only ASCII letters, digits, underscores and hyphens and must start with a letter''
     else None)"

definition validateSADescription :: "string \<Rightarrow> string option" where
  "validateSADescription desc =
    (if desc = [] then None
     else if 256 < length desc then Some ''description must be at most 256 bytes long'' else None)"

text \<open>1 January 1970 is 62135596800 seconds after the zero time.\<close>

definition timeSentinel :: gotime where "timeSentinel = 62135596800000000000"

definition validateSAExpiration :: "gotime \<Rightarrow> gotime option \<Rightarrow> string option" where
  "validateSAExpiration now expiration = (case expiration of None \<Rightarrow> None
     | Some t \<Rightarrow> if t = 0 \<or> t = timeSentinel then None
         else if Before t now then Some ''the expiration time should be in the future'' else None)"

record AddServiceAccountReq =
  sa_Name :: string
  sa_Description :: string
  sa_Expiration :: "gotime option"

definition AddServiceAccountReq_Validate :: "gotime \<Rightarrow> AddServiceAccountReq \<Rightarrow> string option" where
  "AddServiceAccountReq_Validate now r = (case validateSAName (sa_Name r) of Some e \<Rightarrow> Some e
     | None \<Rightarrow> (case validateSAExpiration now (sa_Expiration r) of Some e \<Rightarrow> Some e
       | None \<Rightarrow> validateSADescription (sa_Description r)))"

record UpdateServiceAccountReq =
  us_NewName :: string
  us_NewDescription :: string
  us_NewExpiration :: "gotime option"

definition UpdateServiceAccountReq_Validate :: "gotime \<Rightarrow> UpdateServiceAccountReq \<Rightarrow> string option" where
  "UpdateServiceAccountReq_Validate now u = (case validateSAName (us_NewName u) of Some e \<Rightarrow> Some e
     | None \<Rightarrow> (case validateSAExpiration now (us_NewExpiration u) of Some e \<Rightarrow> Some e
       | None \<Rightarrow> validateSADescription (us_NewDescription u)))"

text \<open>A beginning of one letter is enough, so only the first character is checked.\<close>

lemma serviceAcctValidName_iff: "serviceAcctValidName s \<longleftrightarrow> s \<noteq> [] \<and> isLetter (hd s)"
proof
  assume "serviceAcctValidName s"
  then obtain n where "case take n s of [] \<Rightarrow> False | c # cs \<Rightarrow> isLetter c \<and> list_all isNameChar cs"
    unfolding serviceAcctValidName_def list_ex_iff by blast
  then show "s \<noteq> [] \<and> isLetter (hd s)" by (cases s; cases n) simp_all
next
  assume s: "s \<noteq> [] \<and> isLetter (hd s)"
  then have "take 1 s = [hd s]" by (cases s) simp_all
  moreover have "1 \<in> set [0..<length s + 1]" using s by (simp add: Suc_le_eq del: upt_Suc)
  ultimately show "serviceAcctValidName s" using s unfolding serviceAcctValidName_def list_ex_iff
    by (intro bexI [of _ 1]) (simp_all del: set_upt)
qed

lemma AddServiceAccountReq_valid:
  "AddServiceAccountReq_Validate now r = None \<longleftrightarrow>
   (sa_Name r = [] \<or> length (sa_Name r) \<le> 32 \<and> isLetter (hd (sa_Name r))) \<and>
   length (sa_Description r) \<le> 256 \<and>
   (case sa_Expiration r of None \<Rightarrow> True | Some t \<Rightarrow> t = 0 \<or> t = timeSentinel \<or> now \<le> t)"
  by (auto simp: AddServiceAccountReq_Validate_def validateSAName_def validateSAExpiration_def validateSADescription_def
    serviceAcctValidName_iff split: option.splits if_splits)

subsection \<open>Policy associations\<close>

record PolicyAssociationReq =
  pa_Policies :: "string list"
  pa_User :: string
  pa_Group :: string
  pa_ConfigName :: string

definition PolicyAssociationReq_IsValid :: "PolicyAssociationReq \<Rightarrow> string option" where
  "PolicyAssociationReq_IsValid p =
    (if pa_Policies p = [] then Some ''no policy names were given''
     else if list_ex (\<lambda>q. q = []) (pa_Policies p) then Some ''an empty policy name was given''
     else if pa_User p = [] \<and> pa_Group p = [] then Some ''no user or group association was given''
     else if pa_User p \<noteq> [] \<and> pa_Group p \<noteq> [] then
       Some ''either a group or a user association must be given, not both''
     else None)"

lemma PolicyAssociationReq_valid:
  "PolicyAssociationReq_IsValid p = None \<longleftrightarrow> pa_Policies p \<noteq> [] \<and> [] \<notin> set (pa_Policies p) \<and>
   (pa_User p = [] \<longleftrightarrow> pa_Group p \<noteq> [])"
  by (auto simp: PolicyAssociationReq_IsValid_def list_ex_iff)

subsection \<open>Disks of a backend\<close>

type_synonym BackendDisks = "(string, i64) gomap"

text \<open>The loops over a map: \<open>ks\<close> is the order of the keys for the sum, which does not matter.\<close>

definition BackendDisks_Sum :: "string list \<Rightarrow> BackendDisks \<Rightarrow> i64" where
  "BackendDisks_Sum ks d1 = foldl (+) 0 (gm_vals d1 ks)"

definition BackendDisks_Merge :: "BackendDisks \<Rightarrow> BackendDisks \<Rightarrow> BackendDisks" where
  "BackendDisks_Merge d1 d2 =
    (let d2 = (if gm_nonempty d2 then d2 else Some fmempty)
     in case d1 of None \<Rightarrow> Some fmempty
        | Some d1 \<Rightarrow> Some (fmmap_keys (\<lambda>i1 v1. case gm_get d2 i1 of Some v2 \<Rightarrow> v2 + v1 | None \<Rightarrow> v1) d1))"

text \<open>Endpoints that only the second map has are lost.\<close>

lemma BackendDisks_Merge_get:
  "gm_get (BackendDisks_Merge d1 d2) k = (case gm_get d1 k of None \<Rightarrow> None
     | Some v \<Rightarrow> Some ((case gm_get d2 k of Some w \<Rightarrow> w | None \<Rightarrow> 0) + v))"
proof -
  have "gm_get (if gm_nonempty d2 then d2 else Some fmempty) k = gm_get d2 k"
    using gm_nonempty_iff [of d2] by (auto simp: gm_get_def)
  then show ?thesis
    by (cases d1) (simp_all add: BackendDisks_Merge_def gm_get_def Let_def split: option.split)
qed

subsection \<open>Tiers and log masks\<close>

type_synonym TierType = i64

definition Unsupported :: TierType where "Unsupported = 0"
definition TierTypeS3 :: TierType where "TierTypeS3 = 1"
definition TierTypeAzure :: TierType where "TierTypeAzure = 2"
definition TierTypeGCS :: TierType where "TierTypeGCS = 3"
definition TierTypeMinIO :: TierType where "TierTypeMinIO = 4"

definition TierType_String :: "TierType \<Rightarrow> string" where
  "TierType_String tt = (if tt = TierTypeS3 then ''s3'' else if tt = TierTypeAzure then ''azure''
     else if tt = TierTypeGCS then ''gcs'' else if tt = TierTypeMinIO then ''minio'' else ''unsupported'')"

text \<open>The type, and whether it is supported.\<close>

definition NewTierType :: "string \<Rightarrow> TierType \<times> bool" where
  "NewTierType scType =
    (if scType = TierType_String TierTypeS3 then (TierTypeS3, True)
     else if scType = TierType_String TierTypeAzure then (TierTypeAzure, True)
     else if scType = TierType_String TierTypeGCS then (TierTypeGCS, True)
     else if scType = TierType_String TierTypeMinIO then (TierTypeMinIO, True)
     else (Unsupported, False))"

lemma NewTierType_String:
  "NewTierType (TierType_String tt) =
   (if tt \<in> {TierTypeS3, TierTypeAzure, TierTypeGCS, TierTypeMinIO} then (tt, True) else (Unsupported, False))"
  by (auto simp: NewTierType_def TierType_String_def TierTypeS3_def TierTypeAzure_def TierTypeGCS_def
    TierTypeMinIO_def Unsupported_def)

type_synonym LogMask = u64

definition LogMaskAll :: LogMask where "LogMaskAll = 31"

definition LogMask_Contains :: "LogMask \<Rightarrow> LogMask \<Rightarrow> bool" where
  "LogMask_Contains m other \<longleftrightarrow> and m other = other"

definition LogKind_LogMask :: "string \<Rightarrow> LogMask" where
  "LogKind_LogMask l = (if l = ''FATAL'' then 1 else if l = ''WARNING'' then 2 else if l = ''ERROR'' then 4
     else if l = ''EVENT'' then 8 else if l = ''INFO'' then 16 else LogMaskAll)"

end
