(* ===== verification/Data_Properties.thy ===== *)
theory Data_Properties
  imports Durations Arn Encryption Segmented_Codec Heal_State Replication_Stats Admin_Requests
begin

text \<open>
  The properties of the data types around the metrics: durations, resource names, encrypted payloads, the
  encoding of series, heal states, recorded statistics, and the checks of requests.
\<close>

subsection \<open>Durations\<close>

text \<open>
  C11. A duration without fractions is parsed exactly or rejected: for any numbers with units, from
  nanoseconds to weeks and in any order, the result is the sum of the numbers times their units when it is
  below \<open>2 ^ 63\<close> nanoseconds, with the sign in front, and an error when it is not. No intermediate
  step wraps around.
\<close>

theorem duration_exact:
  assumes "list_all segment_ok segs" and "segs \<noteq> []" and "sg \<in> {[], ''+'', ''-''}"
  shows "parseDuration of64 to64 (sg @ show_segments segs) =
    (let t = sum_list (map segment_value segs)
     in if t < 9223372036854775808 then Inr (if sg = ''-'' then - of_nat t else of_nat t)
     else Inl (InvalidDuration (sg @ show_segments segs)))"
  by (rule parseDuration_show [OF assms])

theorem duration_exact_witness:
  "parseDuration (\<lambda>_. 1 :: rat) (\<lambda>_. 0) ''-1w02d3h'' = Inr (- 788400000000000) \<and>
   parseDuration (\<lambda>_. 1 :: rat) (\<lambda>_. 0) ''15250w2d'' = Inl (InvalidDuration ''15250w2d'')"
proof -
  have a: "list_all segment_ok [(''1'', ''w''), (''02'', ''d''), (''3'', ''h'')]" by code_simp
  have b: "list_all segment_ok [(''15250'', ''w''), (''2'', ''d'')]" by code_simp
  have s: "sum_list (map segment_value [(''1'', ''w''), (''02'', ''d''), (''3'', ''h'')]) = 788400000000000"
    "sum_list (map segment_value [(''15250'', ''w''), (''2'', ''d'')]) = 9223372800000000000"
    by (simp_all add: segment_value_def dec_def add_digit_def unit_nat_def unitMap_def Day_def Week_def)
  show ?thesis
    using duration_exact [OF a, of "''-''" "\<lambda>_. 1 :: rat" "\<lambda>_. 0"] duration_exact [OF b, of "[]" "\<lambda>_. 1 :: rat" "\<lambda>_. 0"]
    unfolding s by (simp add: show_segments_def)
qed

subsection \<open>Resource names\<close>

text \<open>
  C29. Parsing and printing of resource names are inverse: a text is parsed as a name exactly when it is the
  text of this name, and the name has an id and a resource, no bucket, and no colon in a part.
\<close>

theorem arn_inverse: "ParseARN s = Inr a \<longleftrightarrow> s = ARN_String a \<and> arn_ok a"
  using ParseARN_tokens ParseARN_String by blast

subsection \<open>Encrypted payloads\<close>

text \<open>
  C12. What \<open>EncryptData\<close> returns is recognised and decrypted with the same password, whatever the mode
  of the machine that encrypted it: FIPS or not, with AES instructions or without.
\<close>

theorem encryption_roundtrip:
  assumes "crypto_ok ct" and "machine_ok mc" and "EncryptData ct mc password data = Inr out"
  shows "DecryptData ct password (out, None) = (data, None) \<and> IsEncrypted out \<and> header_len \<le> length out"
  using DecryptData_EncryptData [OF assms] by simp

text \<open>A toy cipher that adds the first byte of the key, for the instances.\<close>

definition ex_cipher :: "nat crypto" where
  "ex_cipher = \<lparr>ct_argon2 = (\<lambda>p s. of_nat (length p) # s), ct_pbkdf2 = (\<lambda>p s. of_nat (2 * length p) # s),
     ct_stream = (\<lambda>_ k. if k = [] then Some 1 else None), ct_nonceSize = 8,
     ct_encrypt = (\<lambda>c k n p. Inr (map (\<lambda>b. b + hd k) p)),
     ct_decrypt = (\<lambda>c k n (x, e). (map (\<lambda>b. b - hd k) x, e))\<rparr>"

definition ex_machine :: "bool \<Rightarrow> machine" where
  "ex_machine fips = \<lparr>mc_FIPS = fips, mc_NativeAES = True, mc_salt = (\<lambda>n. replicate n 5), mc_nonce = (\<lambda>n. replicate n 9)\<rparr>"

lemma ex_cipher_ok: "crypto_ok ex_cipher" "machine_ok (ex_machine fips)"
  by (auto simp: crypto_ok_def machine_ok_def ex_cipher_def ex_machine_def comp_def)

theorem encryption_roundtrip_witness:
  "\<exists>out. EncryptData ex_cipher (ex_machine True) ''pw'' [1, 2, 3] = Inr out \<and>
     DecryptData ex_cipher ''pw'' (out, None) = ([1, 2, 3], None) \<and> IsEncrypted out"
proof -
  obtain out where o: "EncryptData ex_cipher (ex_machine True) ''pw'' [1, 2, 3] = Inr out"
    by (simp add: EncryptData_def ex_cipher_def ex_machine_def)
  from encryption_roundtrip [OF ex_cipher_ok o] o show ?thesis by blast
qed

text \<open>
  Input that is shorter than a header is an error, but \<open>ErrUnexpectedHeader\<close> only when it is empty: a
  part of a header gives \<open>io.ErrUnexpectedEOF\<close>, which the test for \<open>io.EOF\<close> does not recognise.
\<close>

theorem short_header:
  assumes "length bs < 41"
  shows "DecryptData ct password (bs, None) = ([], Some (if bs = [] then ErrUnexpectedHeader else UnexpectedEOF))"
  using assms by (intro DecryptData_short) (simp add: header_len_def)

theorem short_header_witness: "DecryptData ex_cipher ''pw'' (replicate 33 0, None) = ([], Some UnexpectedEOF)"
  using short_header [of "replicate 33 0" ex_cipher "''pw''"] by simp

subsection \<open>The encoding of series\<close>

text \<open>
  C14. A series that is encoded is decoded again, with the bytes behind it left over, also when it is decoded
  into a value that has been used before: fields that were omitted are cleared. The message is not longer
  than \<open>Msgsize\<close> says.
\<close>

theorem series_codec:
  assumes "packs pk up" and "pack_sizes pk" and "length (sg_Segments z) < 4294967296" and "time_fits (sg_FirstTime z)"
    and "Segmented_MarshalMsg pk isnil z out = (out', None)"
  shows "\<exists>m. out' = out @ m \<and> (\<forall>slot old r. Segmented_UnmarshalMsg up slot old (m @ r) = (z, Inr r)) \<and>
    length m \<le> Segmented_Msgsize pk z"
  using Segmented_codec [OF assms(1,3,4,5)] assms(2) by blast

text \<open>An encoding with numbers of fixed length, the lowest byte first, for the instances.\<close>

fun le_bytes :: "nat \<Rightarrow> nat \<Rightarrow> byte list" where
  "le_bytes 0 v = []"
| "le_bytes (Suc k) v = of_nat (v mod 256) # le_bytes k (v div 256)"

fun le_nat :: "byte list \<Rightarrow> nat" where
  "le_nat [] = 0"
| "le_nat (b # bs) = unat b + 256 * le_nat bs"

lemma le_bytes_length [simp]: "length (le_bytes k v) = k"
  by (induction k v rule: le_bytes.induct) simp_all

lemma le_nat_bytes: "v < 256 ^ k \<Longrightarrow> le_nat (le_bytes k v) = v"
proof (induction k v rule: le_bytes.induct)
  case (2 k v)
  have "unat (of_nat (v mod 256) :: byte) = v mod 256" by (simp add: unat_of_nat take_bit_eq_mod)
  moreover have "le_nat (le_bytes k (v div 256)) = v div 256"
    using 2 by (simp add: less_mult_imp_div_less mult.commute)
  ultimately show ?case by simp
qed simp

definition ex_pack :: "(byte, nat) pack" where
  "ex_pack = \<lparr>pk_int = (\<lambda>v. le_bytes 8 (unat v)),
     pk_time = (\<lambda>t. le_bytes 12 (nat ((t + 2 ^ 95) mod 2 ^ 96))),
     pk_array = (\<lambda>n. le_bytes 4 (unat n)), pk_elem = (\<lambda>x. Inr [x]), pk_size = (\<lambda>_. 1)\<rparr>"

definition ex_unpack :: "(byte, nat) unpack" where
  "ex_unpack = \<lparr>
     up_map = (\<lambda>b. case b of [] \<Rightarrow> Inl 0 | h # r \<Rightarrow> Inr (of_nat (unat (and h 0x7f)), r)),
     up_key = (\<lambda>b. case b of [] \<Rightarrow> Inl 0 | h # r \<Rightarrow> Inr (take (unat (and h 0x1f)) r, drop (unat (and h 0x1f)) r)),
     up_int = (\<lambda>b. Inr (of_nat (le_nat (take 8 b)), drop 8 b)),
     up_time = (\<lambda>b. Inr (int (le_nat (take 12 b)) - 2 ^ 95, drop 12 b)),
     up_array = (\<lambda>b. Inr (of_nat (le_nat (take 4 b)), drop 4 b)),
     up_elem = (\<lambda>old b. case b of [] \<Rightarrow> (old, Inl 1) | x # r \<Rightarrow> (x, Inr r)),
     up_skip = (\<lambda>b. Inl 2)\<rparr>"

lemma ex_headers:
  "n < 16 \<Longrightarrow> unat (and (or 0x80 (of_nat n) :: byte) 0x7f) = n"
  "n < 32 \<Longrightarrow> unat (and (or 0xa0 (of_nat n) :: byte) 0x1f) = n"
proof -
  have a: "list_all (\<lambda>n. unat (and (or 0x80 (of_nat n) :: byte) 0x7f) = n) [0..<16]" by code_simp
  have b: "list_all (\<lambda>n. unat (and (or 0xa0 (of_nat n) :: byte) 0x1f) = n) [0..<32]" by code_simp
  show "n < 16 \<Longrightarrow> unat (and (or 0x80 (of_nat n) :: byte) 0x7f) = n" using a by (simp add: list_all_iff)
  show "n < 32 \<Longrightarrow> unat (and (or 0xa0 (of_nat n) :: byte) 0x1f) = n" using b by (simp add: list_all_iff)
qed

lemma ex_packs: "packs ex_pack ex_unpack" "pack_sizes ex_pack"
proof -
  have i: "le_nat (le_bytes 8 (unat v)) = unat v" for v :: i64
    by (rule le_nat_bytes) (rule order_less_le_trans [OF unsigned_less], simp)
  have n: "le_nat (le_bytes 4 (unat v)) = unat v" for v :: u32
    by (rule le_nat_bytes) (rule order_less_le_trans [OF unsigned_less], simp)
  have t: "int (le_nat (le_bytes 12 (nat ((t + 2 ^ 95) mod 2 ^ 96)))) - 2 ^ 95 = t" if "time_fits t" for t
  proof -
    have q: "- 9223371974719179008 \<le> t div 1000000000" "t div 1000000000 < 9223372098990372608"
      using that by (simp_all add: time_fits_def fits64_def)
    have "1000000000 * (t div 1000000000) + t mod 1000000000 = t" by (rule mult_div_mod_eq)
    moreover have "0 \<le> t mod 1000000000" "t mod 1000000000 < 1000000000" by simp_all
    ultimately have b: "- 39614081257132168796771975168 \<le> t" "t < 39614081257132168796771975168" using q by linarith+
    then have "0 \<le> t + 2 ^ 95" "t + 2 ^ 95 < 2 ^ 96" by simp_all
    then have m: "(t + 2 ^ 95) mod 2 ^ 96 = t + 2 ^ 95" by (rule mod_pos_pos_trivial)
    have "nat (t + 2 ^ 95) < 256 ^ 12" using \<open>t + 2 ^ 95 < 2 ^ 96\<close> by simp
    from le_nat_bytes [OF this] show ?thesis using \<open>0 \<le> t + 2 ^ 95\<close> unfolding m by simp
  qed
  show "packs ex_pack ex_unpack"
    unfolding packs_def using i n t by (simp add: ex_pack_def ex_unpack_def ex_headers)
  show "pack_sizes ex_pack" by (simp add: pack_sizes_def ex_pack_def)
qed

theorem series_codec_witness:
  "\<exists>m. Segmented_MarshalMsg ex_pack True \<lparr>sg_Interval = 900, sg_FirstTime = 0, sg_Segments = [7, 8]\<rparr> [] = (m, None) \<and>
     Segmented_UnmarshalMsg ex_unpack (\<lambda>_. 3) \<lparr>sg_Interval = 1, sg_FirstTime = 5, sg_Segments = [1]\<rparr> (m @ [4]) =
       (\<lparr>sg_Interval = 900, sg_FirstTime = 0, sg_Segments = [7, 8]\<rparr>, Inr [4])"
proof -
  let ?z = "\<lparr>sg_Interval = 900, sg_FirstTime = 0, sg_Segments = [7, 8 :: byte]\<rparr>"
  obtain m where m: "Segmented_MarshalMsg ex_pack True ?z [] = (m, None)"
    by (simp add: Segmented_MarshalMsg_def ex_pack_def)
  have "time_fits (sg_FirstTime ?z)" by (simp add: time_fits_def fits64_def)
  from series_codec [OF ex_packs _ this m] m show ?thesis by auto
qed

subsection \<open>Heal states\<close>




subsection \<open>Recorded statistics\<close>

text \<open>
  C30. A recorder that has recorded values holds their number, their total, their average, and a maximum that
  is one of them and not below any other, also when all of them are negative.
\<close>

theorem recorder_values:
  assumes "length vs < 18446744073709551616"
  shows "\<exists>q. record_all vs StatRecorder_zero = Some q \<and> records q vs"
  using record_all_records [OF records_zero, of vs] assms by simp

theorem recorder_values_witness:
  "\<exists>q. record_all [- 5, - 2, - 4] StatRecorder_zero = Some q \<and> records q [- 5, - 2, - 4]"
  by (rule recorder_values) simp

subsection \<open>Checks of requests\<close>

text \<open>
  C31. A request for a service account passes the check exactly when its name is empty or has at most 32
  bytes of which the first is a letter, its description has at most 256 bytes, and its expiration is
  absent, one of the two zero times, or not in the past. What follows the first letter of the name is
  not checked, although the message of the check says so: the pattern is not anchored at its end.
\<close>

theorem service_account_valid:
  "AddServiceAccountReq_Validate now r = None \<longleftrightarrow>
   (sa_Name r = [] \<or> length (sa_Name r) \<le> 32 \<and> isLetter (hd (sa_Name r))) \<and>
   length (sa_Description r) \<le> 256 \<and>
   (case sa_Expiration r of None \<Rightarrow> True | Some t \<Rightarrow> t = 0 \<or> t = timeSentinel \<or> now \<le> t)"
  by (rule AddServiceAccountReq_valid)

end
