(* ===== verification/Spec2Isabelle.thy ===== *)
theory Spec2Isabelle
  imports Metrics_Properties Stream_Properties Client_Properties Config_Properties Retry_Properties Data_Properties
begin

text \<open>
  The client library \<open>madmin-go\<close> of the MinIO administration interface: a model of the parts of it that
  compute something, and what has been proved of them. Most of the library sends one HTTP request per
  method and decodes the answer into plain data; the logic is in the metrics that are merged over the
  nodes of a cluster, in the encrypted streams (\<open>estream/\<close>), in the loop that sends a request again, in
  the parsers, and in a few data types.

  \<^bold>\<open>How the parts interact.\<close> \<open>AdminClient.Metrics\<close> writes the flags and types of its options into a
  query (\<open>Flags\<close>), sends it through \<open>executeMethod\<close> (\<open>Retry\<close>), and gets one \<open>RealtimeMetrics\<close> after the
  other; whoever asks several nodes merges them with \<open>RealtimeMetrics.Merge\<close> (\<open>Realtime\<close>), which calls the
  merges of the thirteen metrics in it, and these those of their counters and series. Series travel in
  the encoding of \<open>metrics_msgp.go\<close> (\<open>Segmented_Codec\<close>). Inspection data come as a stream of blocks that a
  \<open>Writer\<close> has written, \<open>ReplaceKeys\<close> may have given a new key, and a \<open>Reader\<close> reads. Requests that carry
  secrets are encrypted by \<open>EncryptData\<close> with the secret key of the account. The answers to configuration
  requests are text, which \<open>ParseServerConfigOutput\<close> reads.

  \<^bold>\<open>Prelude.\<close> \<open>Go_Base\<close>: integers at their width, time and durations, the class of \<open>float64\<close>. \<open>Go_Maps\<close>: Go maps
  with nil and the two kinds of loops over them. \<open>Go_Text\<close> and \<open>Go_Strings\<close>: the parts of \<open>strconv\<close>, \<open>strings\<close> and
  \<open>unicode\<close> that are used, on bytes; case conversion is that of ASCII. \<open>Merge_Laws\<close>: the locales that
  state what a merge promises (it returns, it preserves an invariant, it commutes, it associates) and
  the facts that follow for lists and maps of merged values. They are interpreted in the theories of
  the merges.

  \<^bold>\<open>Metrics\<close> (\<open>metrics.go\<close>, \<open>utils.go\<close>, \<open>info-commands.go\<close>, \<open>external.go\<close>, \<open>scanner.go\<close>, \<open>health.go\<close>,
  \<open>batch-job-catalog.go\<close>). One record per Go struct, its fields with a prefix; one definition per method, with
  the name of the type in front: \<open>T_Merge r other\<close> is \<open>r.Merge(other)\<close>. A method that may panic returns
  an option.
  \<^item> \<open>Segmented\<close>: the time series, \<open>Segmented_Add\<close> and \<open>Segmented_Total\<close> for every element type. Where the slots of two
    series line up, the result holds at every time the merge of what both held; the totals agree; the
    slots that do not line up, and the steps that wrap around, are where it panics.
  \<^item> \<open>Counters\<close>: timed and disk actions, disk I/O, caches, minima and maxima, drive space, network counters.
  \<^item> \<open>Request_Stats\<close>, \<open>Request_Metrics\<close>: RPC, API and replication statistics, their series and totals.
  \<^item> \<open>Process_Metrics\<close>, \<open>Node_Metrics\<close>, \<open>Disk_Metrics\<close>: the metrics of a process, a node (scanner, OS, batch jobs,
    resync, network, memory, CPU, runtime) and a drive, with the cache pointer that a drive shares with
    the one it is merged with.
  \<^item> \<open>Realtime\<close>: \<open>Metrics.Merge\<close> and \<open>RealtimeMetrics.Merge\<close>. \<open>answers_fit\<close> says which answers can be merged; then the merge
    returns. The lemmas also say what becomes of hosts, drives, pools and sets.
  \<^item> \<open>Flags\<close> (also \<open>trace.go\<close>, \<open>tracetype_string.go\<close>, \<open>service-commands.go\<close>): the bit fields, their names, and the parameters
    of trace requests and back.
  A loop over a map that adds up is given the order of the keys as an argument, and a property says
  whether the order matters. A loop that writes one map from another is \<open>gm_range\<close>, for which
  \<open>Go_Maps\<close> proves that every order gives the same map.

  \<^bold>\<open>Streams\<close> (\<open>estream/\<close>). \<open>Estream_Wire\<close>: blocks, and the parameters for MessagePack, RSA, \<open>sio-go\<close> and the hash, with
  what the package relies on. \<open>Estream_Writer\<close>: \<open>Writer\<close>, its streams and the stuck error as explicit
  state; \<open>Estream_Reader\<close>: \<open>Reader\<close>, \<open>NextStream\<close> and \<open>Read\<close> over the rest of the input. Their loops take fuel;
  \<open>Estream_Reader\<close> and \<open>Estream_Replace\<close> prove that fuel above the length of the input always suffices, since every
  round takes a block away. \<open>Estream_Roundtrip\<close>: a script of calls of the writer, the file it gives, and that
  the reader returns it. \<open>Estream_Replace\<close>: \<open>ReplaceKeys\<close>, which is shown to write what the writer would have written with
  the new key. \<open>Estream_Instance\<close>: concrete libraries for which all assumptions hold.

  \<^bold>\<open>Requests.\<close> \<open>Retry\<close> (\<open>retry.go\<close>, \<open>executeMethod\<close> of \<open>api.go\<close>): the loop with its timer. The network, the random source
  and the context are the record \<open>env\<close>; the client records what it sends. The number of attempts is the
  recursion argument, so the loop ends by definition, as it does in the code.

  \<^bold>\<open>Configuration\<close> (\<open>parse-config.go\<close>). \<open>Config_Parse\<close>: the whole file. The contract of a store of keys is the locale
  \<open>kv_store\<close>, interpreted for \<open>AddConfigKV\<close> and for the step that fills in values. \<open>Config_Roundtrip\<close>: a printer of configurations
  in the format that the comments of the file describe, and that the parser inverts it; the invariant of
  the index holds for every input.

  \<^bold>\<open>Data.\<close> \<open>Durations\<close> (\<open>xtime/\<close>), \<open>Arn\<close> (\<open>arn.go\<close>), \<open>Encryption\<close> (\<open>encrypt.go\<close>), \<open>Segmented_Codec\<close> (\<open>metrics_msgp.go\<close>), \<open>Heal_State\<close>
  (\<open>heal-commands.go\<close>), \<open>Replication_Stats\<close> (\<open>replication-api.go\<close>), \<open>Admin_Requests\<close> (\<open>user-commands.go\<close>, \<open>idp-commands.go\<close>,
  \<open>info-commands.go\<close>, \<open>tier-config.go\<close>, \<open>api-log.go\<close>). \<open>Resource_Queries\<close> (\<open>info-v4-resources.go\<close>): \<open>SortSlice\<close> over a type of
  Go values, with the locale \<open>weak_order\<close> that states what sorting needs, interpreted for the comparison of
  fields; and the parameters of the paged queries.

  \<^bold>\<open>Properties\<close> stand in \<open>Metrics_Properties\<close>, \<open>Stream_Properties\<close>, \<open>Client_Properties\<close>, \<open>Config_Properties\<close>, \<open>Retry_Properties\<close>,
  \<open>Data_Properties\<close>, and below those of a whole answer. Each is stated in words in front of its theorem; where
  it has hypotheses, an instance follows.

  \<^bold>\<open>Not in the repository\<close>, hence parameters: the MessagePack codec, RSA, PKCS1, \<open>sio-go\<close>, xxhash, argon2,
  PBKDF2, the HTTP client, random sources and clocks. \<open>float64\<close> is a type variable with the operations of
  the code and no laws; theorems that need laws name them in their sort and then speak of exact numbers.

  \<^bold>\<open>Not modelled\<close>: the methods that are one HTTP request and the decoding of its answer, with their option
  and result types; request signing; the generated MessagePack methods (\<open>*_gen.go\<close>); reading \<open>/proc\<close> and
  system calls (\<open>health.go\<close>, \<open>kernel/\<close>, \<open>cgroup/\<close>); the terminal program \<open>mnav/\<close>; the loops that decode
  answers from a connection into a channel or an iterator (\<open>Metrics\<close>, \<open>ServiceTraceIter\<close>, \<open>DebugStream\<close>), which are
  glue between the network and a callback. Next are \<open>timings.go\<close>, the sampling options of
  \<open>opentelemetry.go\<close>, and the streaming encoders of \<open>metrics_msgp.go\<close>.
\<close>

subsection \<open>The answers of a cluster\<close>

text \<open>Answers of nodes, for the instances.\<close>

definition ex_node :: "string list \<Rightarrow> gotime \<Rightarrow> int \<Rightarrow> int RealtimeMetrics" where
  "ex_node hosts t load = RealtimeMetrics_zero\<lparr>rl_CollectedAt := t, rl_Hosts := hosts,
     rl_Aggregated := Metrics_zero\<lparr>mt_Process := Some (ProcessMetrics_zero\<lparr>pm_CollectedAt := t, pm_Nodes := 1,
       pm_TotalCPUPercent := load\<rparr>)\<rparr>\<rparr>"

definition ex_day :: "gotime \<Rightarrow> int APIStats list \<Rightarrow> int Metrics" where
  "ex_day t apis = Metrics_zero\<lparr>mt_API := Some (APIMetrics_zero\<lparr>am_LastDayAPI :=
     Some (fmap_of_list [(''GetObject'', ex_series 900 t apis)])\<rparr>)\<rparr>"

text \<open>
  C5. Merging the answers of two nodes returns as soon as the series that meet lie in common
  windows and the histograms that meet have their shape: nothing else makes any of the thirteen
  components, or the drives of any erasure set, panic.
\<close>

theorem answers_merge:
  fixes r :: "('f::{plus,zero,ord,inf,sup}) RealtimeMetrics"
  assumes "answers_fit r other"
  shows "\<exists>q. RealtimeMetrics_Merge r (Some other) = Some q"
  by (rule RealtimeMetrics_Merge_returns [OF assms])

lemma ex_window: "in_window 900 0 2700000000000 (ex_series 900 0 [ex_api 1, ex_api 2])"
  "in_window 900 0 2700000000000 (ex_series 900 1800000000000 [ex_api 5])"
  by (simp_all add: in_window_def)

lemma ex_day_fit: "metrics_fit (ex_day 0 [ex_api 1, ex_api 2]) (ex_day 1800000000000 [ex_api 5])"
proof -
  have "gm_get (am_LastDayAPI (APIMetrics_zero\<lparr>am_LastDayAPI := Some (fmap_of_list [(''GetObject'', x)])\<rparr>)) k =
      (if k = ''GetObject'' then Some x else None)" for x :: "int APIStats Segmented" and k
    by (simp add: gm_get_def fmlookup_of_list)
  then show ?thesis using ex_window
    by (auto simp: metrics_fit_def ex_day_def opt_rel_def Metrics_zero_def series_fit_def split: if_splits)
qed

theorem answers_merge_witness:
  "\<exists>q. RealtimeMetrics_Merge (RealtimeMetrics_zero\<lparr>rl_Aggregated := ex_day 0 [ex_api 1, ex_api 2]\<rparr>)
     (Some (RealtimeMetrics_zero\<lparr>rl_Aggregated := ex_day 1800000000000 [ex_api 5]\<rparr>)) = Some q"
  by (rule answers_merge)
    (use ex_day_fit in \<open>simp add: answers_fit_def RealtimeMetrics_zero_def disk_set_def gm_get_def opt_rel_def\<close>)

text \<open>
  C20. The order in which the nodes answer does not matter for the host list and the process
  statistics: two runs over the same answers, in any two orders, agree on both.
\<close>

theorem answers_any_order:
  fixes xs ys :: "('f::{lattice,comm_monoid_add}) RealtimeMetrics list"
  assumes "mset xs = mset ys"
    and "RealtimeMetrics_Merge_all xs RealtimeMetrics_zero = Some q"
    and "RealtimeMetrics_Merge_all ys RealtimeMetrics_zero = Some q'"
    and "list_all ProcessMetrics_wf (map process_of xs)"
  shows "rl_Hosts q = rl_Hosts q' \<and> process_of q = process_of q'"
  by (rule RealtimeMetrics_order [OF assms])

lemma ex_node_returns: "\<exists>q. RealtimeMetrics_Merge_all [ex_node h t a, ex_node k u b] RealtimeMetrics_zero = Some q"
  by (simp add: ex_node_def RealtimeMetrics_zero_def Metrics_zero_def RealtimeMetrics_Merge_def Metrics_Merge_def
    merge_ptr_def Let_def gm_nonempty_def gm_make_if_def gm_copy_def gm_range_try_def)

theorem answers_any_order_witness:
  "\<exists>q q'. RealtimeMetrics_Merge_all [ex_node [''b''] 3 7, ex_node [''a''] 5 1] RealtimeMetrics_zero = Some q \<and>
    RealtimeMetrics_Merge_all [ex_node [''a''] 5 1, ex_node [''b''] 3 7] RealtimeMetrics_zero = Some q' \<and>
    rl_Hosts q = rl_Hosts q' \<and> process_of q = process_of q'"
proof -
  obtain q q' where q: "RealtimeMetrics_Merge_all [ex_node [''b''] 3 7, ex_node [''a''] 5 1] RealtimeMetrics_zero = Some q"
    "RealtimeMetrics_Merge_all [ex_node [''a''] 5 1, ex_node [''b''] 3 7] RealtimeMetrics_zero = Some q'"
    using ex_node_returns by blast
  have "list_all ProcessMetrics_wf (map process_of [ex_node [''b''] 3 7, ex_node [''a''] 5 1])"
    by (simp add: ex_node_def process_of_def ProcessMetrics_wf_def)
  from answers_any_order [OF _ q this] q show ?thesis by auto
qed

text \<open>
  C22. The drives of an erasure set stay apart: after a merge, each pool and set holds exactly the
  merge of what the two answers held for this pool and set, and sets that the other answer does
  not mention are untouched.
\<close>

theorem disk_sets_apart:
  assumes "RealtimeMetrics_Merge r (Some other) = Some q"
  shows "disk_set q p s = (case disk_set other p s of None \<Rightarrow> disk_set r p s
    | Some v \<Rightarrow> DiskMetric_Merge (case disk_set r p s of None \<Rightarrow> DiskMetric_zero | Some d \<Rightarrow> d) (Some v))"
  by (rule RealtimeMetrics_Merge_disk_set [OF assms])

definition ex_set :: "u64 \<Rightarrow> int RealtimeMetrics" where
  "ex_set n = RealtimeMetrics_zero\<lparr>rl_ByDiskSet := Some (fmap_of_list [(0, Some (fmap_of_list [(1, ex_drive None n)]))])\<rparr>"

lemma ex_set_disk: "disk_set (ex_set n) 0 1 = Some (ex_drive None n)"
  by (simp add: ex_set_def disk_set_def gm_get_def fmlookup_of_list)

lemma ex_set_fit: "answers_fit RealtimeMetrics_zero (ex_set n)"
  by (simp add: answers_fit_def RealtimeMetrics_zero_def disk_set_def gm_get_def opt_rel_def metrics_fit_def
    Metrics_zero_def)

theorem disk_sets_apart_witness:
  "\<exists>q. RealtimeMetrics_Merge RealtimeMetrics_zero (Some (ex_set 3)) = Some q \<and>
     disk_set q 0 1 = DiskMetric_Merge DiskMetric_zero (Some (ex_drive None 3)) \<and> disk_set q 0 2 = None"
proof -
  obtain q where q: "RealtimeMetrics_Merge RealtimeMetrics_zero (Some (ex_set 3)) = Some q"
    using RealtimeMetrics_Merge_returns [OF ex_set_fit] by blast
  have "disk_set (RealtimeMetrics_zero :: int RealtimeMetrics) p s = None" for p s
    by (simp add: disk_set_def RealtimeMetrics_zero_def gm_get_def)
  moreover have "disk_set (ex_set 3) 0 2 = None"
    by (simp add: ex_set_def disk_set_def gm_get_def fmlookup_of_list)
  ultimately show ?thesis
    using q disk_sets_apart [OF q, of 0 1] disk_sets_apart [OF q, of 0 2] by (simp add: ex_set_disk)
qed

text \<open>
  The newest answer for a host wins: after a merge, a host has the metrics of the merged answer
  if that has any for it, and else the ones it had.
\<close>

theorem host_answer_replaced:
  assumes "RealtimeMetrics_Merge r (Some other) = Some q"
  shows "gm_get (rl_ByHost q) h = (case gm_get (rl_ByHost other) h of None \<Rightarrow> gm_get (rl_ByHost r) h | Some v \<Rightarrow> Some v)"
  by (rule RealtimeMetrics_Merge_host [OF assms])

theorem host_answer_replaced_witness:
  "\<exists>q. RealtimeMetrics_Merge (RealtimeMetrics_zero\<lparr>rl_ByHost := Some (fmap_of_list [(''a'', ex_day 0 [])])\<rparr>)
     (Some (RealtimeMetrics_zero\<lparr>rl_ByHost := Some (fmap_of_list [(''b'', Metrics_zero :: int Metrics)])\<rparr>)) = Some q \<and>
     gm_get (rl_ByHost q) ''a'' = Some (ex_day 0 []) \<and> gm_get (rl_ByHost q) ''b'' = Some Metrics_zero"
proof -
  let ?r = "RealtimeMetrics_zero\<lparr>rl_ByHost := Some (fmap_of_list [(''a'', ex_day 0 [])])\<rparr>"
  let ?o = "RealtimeMetrics_zero\<lparr>rl_ByHost := Some (fmap_of_list [(''b'', Metrics_zero :: int Metrics)])\<rparr>"
  have "answers_fit ?r ?o"
    by (simp add: answers_fit_def RealtimeMetrics_zero_def disk_set_def gm_get_def opt_rel_def metrics_fit_def
      Metrics_zero_def)
  then obtain q where q: "RealtimeMetrics_Merge ?r (Some ?o) = Some q"
    using RealtimeMetrics_Merge_returns by blast
  show ?thesis
    using q host_answer_replaced [OF q, of "''a''"] host_answer_replaced [OF q, of "''b''"]
    by (auto simp: gm_get_def fmlookup_of_list)
qed

end
